(* ===== verification/Prelude.thy ===== *)
theory Prelude
  imports Main "HOL-Library.Word"
begin

section \<open>Prelude: types, actions with exceptions, buffers\<close>

text \<open>
  What every component shares: the names of the C++ types (\<open>std::byte\<close>, \<open>bytes\<close>,
  \<open>std::uint32_t\<close>), the type of an action that reads and changes a state and may throw,
  writes into fixed buffers, and a few generic facts on lists and words.
\<close>

subsection \<open>Types\<close>

type_synonym byte = "8 word"
type_synonym bytes = "byte list"
type_synonym u32 = "32 word"
type_synonym u64 = "64 word"

text \<open>
  An action: from a state to either a thrown exception or a value, and the state that is left.
  The state survives an exception, as the objects of a C++ program do.
\<close>

type_synonym ('s, 'e, 'a) action = "'s \<Rightarrow> ('e + 'a) \<times> 's"

subsection \<open>Combinators of actions\<close>

named_theorems action_simps "unfolding of the combinators of actions"

definition mreturn :: "'a \<Rightarrow> ('s, 'e, 'a) action" where
  "mreturn x s = (Inr x, s)"

definition mthrow :: "'e \<Rightarrow> ('s, 'e, 'a) action" where
  "mthrow e s = (Inl e, s)"

definition mbind :: "('s, 'e, 'a) action \<Rightarrow> ('a \<Rightarrow> ('s, 'e, 'b) action) \<Rightarrow> ('s, 'e, 'b) action" where
  "mbind m f s = (case m s of (Inl e, s') \<Rightarrow> (Inl e, s') | (Inr x, s') \<Rightarrow> f x s')"

definition mthen :: "('s, 'e, 'a) action \<Rightarrow> ('s, 'e, 'b) action \<Rightarrow> ('s, 'e, 'b) action" where
  "mthen m m' = mbind m (\<lambda>_. m')"

text \<open>A pure result used as an action.\<close>

definition mlift :: "'e + 'a \<Rightarrow> ('s, 'e, 'a) action" where
  "mlift r s = (r, s)"

definition mguard :: "bool \<Rightarrow> 'e \<Rightarrow> ('s, 'e, unit) action" where
  "mguard b e = (if b then mreturn () else mthrow e)"

definition mget :: "('s \<Rightarrow> 'a) \<Rightarrow> ('s, 'e, 'a) action" where
  "mget f s = (Inr (f s), s)"

definition mmodify :: "('s \<Rightarrow> 's) \<Rightarrow> ('s, 'e, unit) action" where
  "mmodify f s = (Inr (), f s)"

text \<open>
  \<open>try { m } catch (...) { cleanup; throw; }\<close>: the cleanup runs only when \<open>m\<close> throws, never
  throws itself, and the exception is thrown again.
\<close>

definition mon_error :: "('s, 'e, 'a) action \<Rightarrow> ('s \<Rightarrow> 's) \<Rightarrow> ('s, 'e, 'a) action" where
  "mon_error m cleanup s = (case m s of (Inl e, s') \<Rightarrow> (Inl e, cleanup s') | (Inr x, s') \<Rightarrow> (Inr x, s'))"

text \<open>An action on a part of the state: \<open>get\<close> reads the part, \<open>put\<close> writes it back.\<close>

definition mzoom :: "('s \<Rightarrow> 't) \<Rightarrow> ('t \<Rightarrow> 's \<Rightarrow> 's) \<Rightarrow> ('t, 'e, 'a) action \<Rightarrow> ('s, 'e, 'a) action" where
  "mzoom get put m s = (case m (get s) of (r, t) \<Rightarrow> (r, put t s))"

declare mreturn_def [action_simps] mthrow_def [action_simps] mlift_def [action_simps]
  mget_def [action_simps] mmodify_def [action_simps]

lemma mbind_return [action_simps, simp]: "mbind (mreturn x) f = f x"
  by (rule ext) (simp add: mbind_def mreturn_def)

lemma mbind_throw [action_simps, simp]: "mbind (mthrow e) f = mthrow e"
  by (rule ext) (simp add: mbind_def mthrow_def)

lemma mlift_Inr: "mlift (Inr x) = mreturn x"
  by (rule ext) (simp add: mlift_def mreturn_def)

lemma mbind_right_return [simp]: "mbind m mreturn = m"
  by (rule ext) (simp add: mbind_def mreturn_def split: prod.split sum.split)

lemma mbind_assoc: "mbind (mbind m f) g = mbind m (\<lambda>x. mbind (f x) g)"
  by (rule ext) (simp add: mbind_def split: prod.split sum.split)

lemma mguard_True [action_simps, simp]: "mguard True e = mreturn ()"
  by (simp add: mguard_def)

lemma mguard_False [action_simps, simp]: "mguard False e = mthrow e"
  by (simp add: mguard_def)

text \<open>Inversion: how a composed action returned, and how it threw.\<close>

lemma mbind_Inr_iff:
  "mbind m f s = (Inr y, s') \<longleftrightarrow> (\<exists>x t. m s = (Inr x, t) \<and> f x t = (Inr y, s'))"
  by (auto simp: mbind_def split: prod.split sum.split)

lemma mbind_Inl_iff:
  "mbind m f s = (Inl e, s') \<longleftrightarrow>
     m s = (Inl e, s') \<or> (\<exists>x t. m s = (Inr x, t) \<and> f x t = (Inl e, s'))"
  by (auto simp: mbind_def split: prod.split sum.split)

lemma mbind_InrE:
  assumes "mbind m f s = (Inr y, s')"
  obtains x t where "m s = (Inr x, t)" and "f x t = (Inr y, s')"
  using assms by (auto simp: mbind_Inr_iff)

lemma mthen_Inr_iff:
  "mthen m m' s = (Inr y, s') \<longleftrightarrow> (\<exists>x t. m s = (Inr x, t) \<and> m' t = (Inr y, s'))"
  by (simp add: mthen_def mbind_Inr_iff)

lemma mthen_Inl_iff:
  "mthen m m' s = (Inl e, s') \<longleftrightarrow>
     m s = (Inl e, s') \<or> (\<exists>x t. m s = (Inr x, t) \<and> m' t = (Inl e, s'))"
  by (simp add: mthen_def mbind_Inl_iff)

lemma mguard_Inr_iff: "mguard b e s = (Inr x, s') \<longleftrightarrow> b \<and> s' = s"
  by (auto simp: mguard_def mreturn_def mthrow_def)

lemma mguard_Inl_iff: "mguard b e s = (Inl e', s') \<longleftrightarrow> \<not> b \<and> e' = e \<and> s' = s"
  by (auto simp: mguard_def mreturn_def mthrow_def)

lemma mreturn_Inr_iff: "mreturn x s = (Inr y, s') \<longleftrightarrow> y = x \<and> s' = s"
  by (auto simp: mreturn_def)

lemma mzoom_eq_iff:
  "mzoom get put m s = (r, s') \<longleftrightarrow> (\<exists>t. m (get s) = (r, t) \<and> s' = put t s)"
  by (auto simp: mzoom_def split: prod.split)

lemma mon_error_Inr_iff: "mon_error m c s = (Inr x, s') \<longleftrightarrow> m s = (Inr x, s')"
  by (auto simp: mon_error_def split: prod.split sum.split)

lemma mon_error_Inl_iff: "mon_error m c s = (Inl e, s') \<longleftrightarrow> (\<exists>t. m s = (Inl e, t) \<and> s' = c t)"
  by (auto simp: mon_error_def split: prod.split sum.split)

text \<open>The inversion rules together, for the proofs that take an action apart.\<close>

lemmas action_iffs = mbind_Inr_iff mbind_Inl_iff mthen_Inr_iff mthen_Inl_iff mguard_Inr_iff
  mguard_Inl_iff mreturn_Inr_iff mzoom_eq_iff mon_error_Inr_iff mon_error_Inl_iff

lemma mbind_step:
  "m s = (Inr x, t) \<Longrightarrow> mbind m f s = f x t"
  by (simp add: mbind_def)

lemma mbind_error:
  "m s = (Inl e, t) \<Longrightarrow> mbind m f s = (Inl e, t)"
  by (simp add: mbind_def)

lemma mthen_step: "m s = (Inr x, t) \<Longrightarrow> mthen m m' s = m' t"
  by (simp add: mthen_def mbind_step)

lemma mthen_error: "m s = (Inl e, t) \<Longrightarrow> mthen m m' s = (Inl e, t)"
  by (simp add: mthen_def mbind_error)

text \<open>
  How an action written with nested calls on a sub-object returned: each call succeeded, each
  guard let it pass. These take long functions apart without a case split.
\<close>

lemma case_sub_Inr_iff:
  "(case r of (Inl e, c) \<Rightarrow> mthrow e | (Inr u, c) \<Rightarrow> f u c) t = (Inr x, s') \<longleftrightarrow>
     (\<exists>u c. r = (Inr u, c) \<and> f u c t = (Inr x, s'))"
  by (auto simp: mthrow_def split: prod.split sum.split)

lemma case_call_iff:
  "(case p of ((a, b, d), c) \<Rightarrow> f a b d c) t = v \<longleftrightarrow>
     (\<exists>a b d c. p = ((a, b, d), c) \<and> f a b d c t = v)"
  "(case q of ((a', b'), c') \<Rightarrow> g a' b' c') t = v \<longleftrightarrow>
     (\<exists>a' b' c'. q = ((a', b'), c') \<and> g a' b' c' t = v)"
  by (auto split: prod.split)

lemma if_throw_Inr_iff:
  "(if b then mthrow e else m) t = (Inr x, s') \<longleftrightarrow> \<not> b \<and> m t = (Inr x, s')"
  by (simp add: mthrow_def)

lemmas returned_iffs = case_sub_Inr_iff case_call_iff if_throw_Inr_iff

subsection \<open>Results without state\<close>

text \<open>The same sequencing for a pure result: an early \<open>throw\<close> is an \<open>Inl\<close>.\<close>

definition rbind :: "'e + 'a \<Rightarrow> ('a \<Rightarrow> 'e + 'b) \<Rightarrow> 'e + 'b" where
  "rbind r f = (case r of Inl e \<Rightarrow> Inl e | Inr x \<Rightarrow> f x)"

lemma rbind_simps [simp]: "rbind (Inl e) f = Inl e" "rbind (Inr x) f = f x"
  by (simp_all add: rbind_def)

lemma rbind_Inr_iff: "rbind r f = Inr y \<longleftrightarrow> (\<exists>x. r = Inr x \<and> f x = Inr y)"
  by (cases r) simp_all

lemma rbind_InrE:
  assumes "rbind r f = Inr y"
  obtains x where "r = Inr x" and "f x = Inr y"
  using assms by (auto simp: rbind_Inr_iff)

lemma rbind_Inl_iff: "rbind r f = Inl e \<longleftrightarrow> r = Inl e \<or> (\<exists>x. r = Inr x \<and> f x = Inl e)"
  by (cases r) simp_all

subsection \<open>Writes into a fixed buffer\<close>

text \<open>
  \<open>std::copy(data.begin(), data.end(), buffer.begin() + off)\<close>, and an OpenSSL call that writes
  \<open>data\<close> at \<open>buffer.data() + off\<close>: the bytes from \<open>off\<close> on are replaced, the size of the buffer
  stays. Bytes that would lie past its end are dropped.
\<close>

definition overlay :: "'a list \<Rightarrow> nat \<Rightarrow> 'a list \<Rightarrow> 'a list" where
  "overlay buf off data =
     take off buf @ take (length buf - off) data @ drop (off + length data) buf"

lemma length_overlay [simp]: "length (overlay buf off data) = length buf"
  by (simp add: overlay_def)

lemma overlay_all [simp]: "length data = length buf \<Longrightarrow> overlay buf 0 data = data"
  by (simp add: overlay_def)

lemma overlay_nil [simp]: "overlay buf off [] = buf"
  by (simp add: overlay_def)

lemma overlay_empty [simp]: "overlay [] off data = []"
  by (simp add: overlay_def)

lemma overlay_append_left:
  "off + length data \<le> length xs \<Longrightarrow> overlay (xs @ ys) off data = overlay xs off data @ ys"
  by (simp add: overlay_def)

lemma overlay_append_right:
  "length xs \<le> off \<Longrightarrow> overlay (xs @ ys) off data = xs @ overlay ys (off - length xs) data"
  by (simp add: overlay_def add.commute)

lemma overlay_zeros:
  "length xs = off \<Longrightarrow> length data \<le> n \<Longrightarrow>
     overlay (xs @ replicate n z) off data = (xs @ data) @ replicate (n - length data) z"
  by (simp add: overlay_def)

lemma overlay_exact: "length data = n \<Longrightarrow> overlay (replicate n x) 0 data = data"
  by (simp add: overlay_def)

subsection \<open>Characters\<close>

text \<open>
  The value of a plain \<open>char\<close>, signed as on the x86-64 System V ABI. The code only compares
  characters with ASCII literals, so the sign of the upper half does not show.
\<close>

definition schar :: "char \<Rightarrow> int" where
  "schar c = (let n = of_char c :: int in if n < 128 then n else n - 256)"

text \<open>\<open>static_cast<std::byte>(static_cast<unsigned char>(ch))\<close> and back.\<close>

definition byte_of_char :: "char \<Rightarrow> byte" where
  "byte_of_char c = word_of_nat (of_char c)"

definition char_of_byte :: "byte \<Rightarrow> char" where
  "char_of_byte b = char_of (unat b)"

lemma char_of_byte_of_char [simp]: "char_of_byte (byte_of_char c) = c"
proof -
  have "unat (word_of_nat (of_char c) :: 8 word) = (of_char c :: nat)"
    by (simp add: unat_of_nat take_bit_eq_mod)
  then show ?thesis by (simp add: char_of_byte_def byte_of_char_def)
qed

lemma unat_byte_less [simp]: "unat (b :: byte) < 256"
proof -
  have "unat b < 2 ^ LENGTH(8)" by (rule unsigned_less)
  then show ?thesis by simp
qed

lemma byte_of_char_of_byte [simp]: "byte_of_char (char_of_byte b) = b"
  by (simp add: char_of_byte_def byte_of_char_def)

subsection \<open>Masks\<close>

text \<open>A mask written as a numeral keeps the low bits.\<close>

unbundle bit_operations_syntax

named_theorems mask_simps "masks as truncations"

lemma and_0x0f [mask_simps]: "(v :: u32) AND 0x0f = take_bit 4 v"
  and and_0x3f [mask_simps]: "v AND 0x3f = take_bit 6 v"
  and and_0xff [mask_simps]: "v AND 0xff = take_bit 8 v"
  by (simp_all add: take_bit_eq_mask mask_eq_exp_minus_1)

lemma int_and_0x0f [mask_simps]: "(k :: int) AND 0x0f = take_bit 4 k"
  and int_and_0x03 [mask_simps]: "k AND 0x03 = take_bit 2 k"
  by (simp_all add: take_bit_eq_mask mask_eq_exp_minus_1)

lemma rbind_cong_Inr: "r = Inr x \<Longrightarrow> rbind r f = f x"
  by simp

lemma unat_take_bit_less: "unat (take_bit n w) < 2 ^ n"
  by (simp add: unsigned_take_bit_eq)

subsection \<open>Lists\<close>

lemma map_o_inverse: "(\<And>x. g (f x) = x) \<Longrightarrow> map g (map f xs) = xs"
  by (induction xs) auto

lemma all_bytes_by_enumeration:
  assumes "\<forall>n \<in> set [0..<256]. P (word_of_nat n :: byte)"
  shows "P b"
proof -
  have "unat b \<in> set [0..<256]" by simp
  with assms have "P (word_of_nat (unat b))" by blast
  then show ?thesis by simp
qed

end
