(* ===== verification/Errors.thy ===== *)
theory Errors
  imports Prelude
begin

section \<open>Errors\<close>

text \<open>
  \<open>include/anosecurekit/error.hpp\<close> and \<open>src/error.cpp\<close>: the public error categories and the
  exception that carries one together with a message. \<open>Runtime_error\<close> is the
  \<open>std::runtime_error\<close> thrown by the command line tool. \<open>Undefined_behaviour\<close> is no C++
  exception: it is the value of an operation whose C++ counterpart would dereference a null
  pointer, so that "never dereferences null" is a statement about the model.
  Exhaustion of memory (\<open>std::bad_alloc\<close>) is not modelled.
\<close>

datatype error_code =
    invalid_input
  | invalid_encoding
  | invalid_packet
  | authentication_failed
  | backend_failure

datatype exn =
    Error error_code string
  | Runtime_error string
  | Undefined_behaviour string

type_synonym 'a result = "exn + 'a"

fun code_of :: "exn \<Rightarrow> error_code option" where
  "code_of (Error c msg) = Some c"
| "code_of (Runtime_error msg) = None"
| "code_of (Undefined_behaviour msg) = None"

fun what_of :: "exn \<Rightarrow> string" where
  "what_of (Error c msg) = msg"
| "what_of (Runtime_error msg) = msg"
| "what_of (Undefined_behaviour msg) = msg"

fun is_undefined :: "exn \<Rightarrow> bool" where
  "is_undefined (Undefined_behaviour msg) = True"
| "is_undefined e = False"

text \<open>An outcome that C++ defines: a value, or a thrown exception.\<close>

fun defined :: "'a result \<Rightarrow> bool" where
  "defined (Inr x) = True"
| "defined (Inl e) = (\<not> is_undefined e)"

text \<open>
  \<open>std::string::max_size()\<close> of libstdc++ on a 64-bit target, \<open>std::vector<std::byte>::max_size()\<close>,
  and \<open>std::numeric_limits<int>::max()\<close>.
\<close>

definition string_max_size :: nat where
  "string_max_size = 4611686018427387903"

definition vector_max_size :: nat where
  "vector_max_size = 9223372036854775807"

definition int_max :: nat where
  "int_max = 2147483647"

end
