(* ===== verification/Compare.thy ===== *)
theory Compare
  imports Errors
begin

section \<open>Comparison of secrets\<close>

text \<open>
  \<open>src/compare.cpp\<close>: the loop always runs over the common size and folds every difference into
  one \<open>size_t\<close>, which starts as the XOR of the two sizes.
\<close>

unbundle bit_operations_syntax

definition compare_step :: "bytes \<Rightarrow> bytes \<Rightarrow> u64 \<Rightarrow> nat \<Rightarrow> u64" where
  "compare_step left right diff index = diff OR ucast (left ! index XOR right ! index)"

definition constant_time_equal :: "bytes \<Rightarrow> bytes \<Rightarrow> bool" where
  "constant_time_equal left right =
     (let diff = word_of_nat (length left) XOR word_of_nat (length right);
          common_size = min (length left) (length right)
      in foldl (compare_step left right) diff [0..<common_size] = 0)"

lemma or_eq_0_iff: "(a :: u64) OR b = 0 \<longleftrightarrow> a = 0 \<and> b = 0"
  by (auto simp: bit_eq_iff bit_simps)

lemma xor_eq_0_iff: "(a :: 'a::len word) XOR b = 0 \<longleftrightarrow> a = b"
  by (auto simp: bit_eq_iff bit_simps)

lemma ucast_byte_eq_0_iff: "(ucast (b :: byte) :: u64) = 0 \<longleftrightarrow> b = 0"
proof
  assume "(ucast b :: u64) = 0"
  then have "unat (ucast b :: u64) = 0" by simp
  then have "unat b = 0"
    by (simp add: unsigned_ucast_eq take_bit_nat_eq_self [OF less_trans [OF unat_byte_less]])
  then show "b = 0" by (simp add: unsigned_eq_0_iff)
qed simp

lemma compare_fold:
  "foldl (compare_step left right) diff ks = 0 \<longleftrightarrow>
     diff = 0 \<and> (\<forall>k \<in> set ks. left ! k = right ! k)"
  by (induction ks arbitrary: diff)
    (auto simp: compare_step_def or_eq_0_iff ucast_byte_eq_0_iff xor_eq_0_iff)

text \<open>C38: \<open>constant_time_equal\<close> decides equality of the two byte strings, their sizes included, for
  all sizes a \<open>size_t\<close> can hold; no difference is lost in the accumulator.\<close>

theorem constant_time_equal_correct:
  assumes "length left < 2 ^ 64" and "length right < 2 ^ 64"
  shows "constant_time_equal left right \<longleftrightarrow> left = right"
proof -
  have "(word_of_nat (length left) :: u64) = word_of_nat (length right) \<longleftrightarrow> length left = length right"
    using assms by (simp add: word_of_nat_eq_iff take_bit_nat_eq_self)
  then have "constant_time_equal left right \<longleftrightarrow> length left = length right \<and>
      (\<forall>k \<in> set [0..<min (length left) (length right)]. left ! k = right ! k)"
    unfolding constant_time_equal_def Let_def compare_fold xor_eq_0_iff by blast
  then show ?thesis unfolding list_eq_iff_nth_eq [of left right] by auto
qed

theorem constant_time_equal_correct_witness:
  "constant_time_equal [1, 2] [1, 2] \<and> \<not> constant_time_equal [1, 2] [1, 3] \<and>
   \<not> constant_time_equal [1, 2] [1, 2, 3]"
proof -
  have bound: "length xs < 2 ^ 64" if "length xs \<le> 10" for xs :: bytes
    using that by (rule le_less_trans) simp
  have "constant_time_equal [1, 2] [1, 2] \<longleftrightarrow> [1, 2 :: byte] = [1, 2]"
    by (rule constant_time_equal_correct; rule bound; simp)
  moreover have "constant_time_equal [1, 2] [1, 3] \<longleftrightarrow> [1, 2 :: byte] = [1, 3]"
    by (rule constant_time_equal_correct; rule bound; simp)
  moreover have "constant_time_equal [1, 2] [1, 2, 3] \<longleftrightarrow> [1, 2 :: byte] = [1, 2, 3]"
    by (rule constant_time_equal_correct; rule bound; simp)
  ultimately show ?thesis by simp
qed

end
