(* ===== verification/Secure_Wipe.thy ===== *)
theory Secure_Wipe
  imports Errors
begin

section \<open>Wiping of secrets\<close>

text \<open>
  \<open>src/internal/secure_wipe.cpp\<close> and \<open>secure_wipe.hpp\<close>. The state of the library's actions is a
  \<open>runtime\<close>: the state of the cryptographic provider, and \<open>retired\<close>, the contents that local buffers
  with secrets (keys, derived keys, recovered plaintext) had when their lifetime ended, newest
  first. The code never reads \<open>retired\<close>; it only makes "wiped before it is released" a statement about the
  model. A buffer that is returned is not retired.
\<close>

record 'o runtime =
  provider :: 'o
  retired :: "bytes list"

text \<open>The loop of volatile writes, one index after the other.\<close>

definition secure_wipe :: "bytes \<Rightarrow> bytes" where
  "secure_wipe data = foldl (\<lambda>current index. current[index := 0]) data [0..<length data]"

definition retire :: "bytes \<Rightarrow> 'o runtime \<Rightarrow> 'o runtime" where
  "retire buf s = s\<lparr>retired := buf # retired s\<rparr>"

text \<open>
  A scope guarded by \<open>wipe_on_exit\<close>: the destructor wipes the buffer whether the scope is left by a
  return or by an exception, and the buffer is released right after.
\<close>

definition wipe_on_exit :: "bytes \<Rightarrow> ('o runtime, 'e, 'a) action \<Rightarrow> ('o runtime, 'e, 'a) action" where
  "wipe_on_exit buf m s = (case m s of (r, s') \<Rightarrow> (r, retire (secure_wipe buf) s'))"

text \<open>A call of the provider, which changes its state and never throws by itself.\<close>

definition on_provider :: "('o \<Rightarrow> 'a \<times> 'o) \<Rightarrow> ('o runtime, 'e, 'a) action" where
  "on_provider f s = (case f (provider s) of (x, o') \<Rightarrow> (Inr x, s\<lparr>provider := o'\<rparr>))"

definition wiped :: "bytes \<Rightarrow> bool" where
  "wiped buf \<longleftrightarrow> (\<forall>b \<in> set buf. b = 0)"

lemma foldl_wipe:
  "k \<le> length data \<Longrightarrow>
     foldl (\<lambda>current index. current[index := 0]) data [0..<k] = replicate k (0 :: byte) @ drop k data"
proof (induction k)
  case (Suc k)
  then have "drop k data = data ! k # drop (Suc k) data" by (simp add: Cons_nth_drop_Suc)
  with Suc show ?case by (simp add: list_update_append replicate_append_same)
qed simp

lemma secure_wipe_eq [simp]: "secure_wipe data = replicate (length data) 0"
  by (simp add: secure_wipe_def foldl_wipe)

lemma wiped_secure_wipe [simp]: "wiped (secure_wipe buf)"
  by (simp add: wiped_def)

lemma wiped_replicate [simp]: "wiped (replicate n 0)"
  by (simp add: wiped_def)

lemma retire_simps [simp]:
  "provider (retire buf s) = provider s" "retired (retire buf s) = buf # retired s"
  by (simp_all add: retire_def)

lemma wipe_on_exit_iff:
  "wipe_on_exit buf m s = (r, s') \<longleftrightarrow>
     (\<exists>t. m s = (r, t) \<and> s' = retire (replicate (length buf) 0) t)"
  by (auto simp: wipe_on_exit_def split: prod.split)

text \<open>All buffers released by the run from \<open>s\<close> to \<open>s'\<close> were wiped.\<close>

definition releases_wiped :: "'o runtime \<Rightarrow> 'o runtime \<Rightarrow> bool" where
  "releases_wiped s s' \<longleftrightarrow> (\<exists>new. retired s' = new @ retired s \<and> (\<forall>b \<in> set new. wiped b))"

lemma releases_wiped_refl [simp, intro]: "releases_wiped s s"
  by (simp add: releases_wiped_def)

lemma releases_wiped_trans [trans]:
  "releases_wiped s t \<Longrightarrow> releases_wiped t u \<Longrightarrow> releases_wiped s u"
  unfolding releases_wiped_def by fastforce

lemma releases_wiped_same: "retired s' = retired s \<Longrightarrow> releases_wiped s s'"
  by (simp add: releases_wiped_def)

lemma releases_wiped_retire: "releases_wiped s t \<Longrightarrow> wiped buf \<Longrightarrow> releases_wiped s (retire buf t)"
  by (auto simp: releases_wiped_def)

lemma on_provider_iff:
  "on_provider f s = (r, s') \<longleftrightarrow>
     (\<exists>x. r = Inr x \<and> f (provider s) = (x, provider s') \<and> s' = s\<lparr>provider := provider s'\<rparr>)"
  by (auto simp: on_provider_def split: prod.split)

lemma on_provider_returns: "\<exists>x t. on_provider f s = (Inr x, t)"
  by (simp add: on_provider_def split: prod.split)

lemma on_provider_not_Inl [simp]: "on_provider f s = (Inl e, t) \<longleftrightarrow> False"
  by (simp add: on_provider_def split: prod.split)

lemma on_provider_retired: "on_provider f s = (r, s') \<Longrightarrow> retired s' = retired s"
  by (metis on_provider_iff runtime.select_convs(2) runtime.surjective runtime.update_convs(1))

text \<open>\<open>secure_wipe\<close> overwrites every byte of its buffer with zero and keeps its size.\<close>

theorem secure_wipe_zeroes: "length (secure_wipe data) = length data \<and> wiped (secure_wipe data)"
  by simp

end
