(* ===== verification/Openssl.thy ===== *)
theory Openssl
  imports Secure_Wipe "HOL-Library.Code_Target_Numeral"
begin

section \<open>The OpenSSL functions the library calls\<close>

text \<open>
  OpenSSL is not part of the repository, so its functions are a parameter of the model: a record
  with one field for each function that \<open>src/backend/crypto_backend_openssl.cpp\<close> calls. \<open>'o\<close> is
  the state OpenSSL keeps by itself (random generator, allocator, providers), \<open>'c\<close> a cipher, digest or
  KDF context. A function returns what the C function returns (the status code, the size it
  stores through a pointer, the bytes it writes) and the new state. Nothing is assumed here: any
  call may fail at any time.
\<close>

datatype gcm_ctrl = GCM_SET_IVLEN int | GCM_GET_TAG int | GCM_SET_TAG bytes

datatype kdf_param =
    KDF_DIGEST string
  | KDF_MODE_EXTRACT_AND_EXPAND
  | KDF_KEY bytes
  | KDF_SALT bytes
  | KDF_INFO bytes

record ('o, 'c) openssl =
  EVP_CIPHER_CTX_new :: "'o \<Rightarrow> 'c option \<times> 'o"
  EVP_aes_256_gcm :: bool \<comment> \<open>whether it returns a non-null pointer\<close>
  EVP_EncryptInit_ex :: "'c \<Rightarrow> bool \<Rightarrow> (bytes \<times> bytes) option \<Rightarrow> int \<times> 'c"
  EVP_DecryptInit_ex :: "'c \<Rightarrow> bool \<Rightarrow> (bytes \<times> bytes) option \<Rightarrow> int \<times> 'c"
  EVP_CIPHER_CTX_ctrl :: "'c \<Rightarrow> gcm_ctrl \<Rightarrow> (int \<times> bytes) \<times> 'c"
  EVP_CipherUpdate :: "'c \<Rightarrow> bytes \<Rightarrow> int \<times> 'c" \<comment> \<open>with a null output: associated data\<close>
  EVP_EncryptUpdate :: "'c \<Rightarrow> bytes \<Rightarrow> (int \<times> int \<times> bytes) \<times> 'c"
  EVP_EncryptFinal_ex :: "'c \<Rightarrow> (int \<times> int \<times> bytes) \<times> 'c"
  EVP_DecryptUpdate :: "'c \<Rightarrow> bytes \<Rightarrow> (int \<times> int \<times> bytes) \<times> 'c"
  EVP_DecryptFinal_ex :: "'c \<Rightarrow> (int \<times> int \<times> bytes) \<times> 'c"
  EVP_MD_CTX_new :: "'o \<Rightarrow> 'c option \<times> 'o"
  EVP_sha256 :: bool \<comment> \<open>whether it returns a non-null pointer\<close>
  EVP_DigestInit_ex :: "'c \<Rightarrow> int \<times> 'c"
  EVP_DigestUpdate :: "'c \<Rightarrow> bytes \<Rightarrow> int \<times> 'c"
  EVP_DigestFinal_ex :: "'c \<Rightarrow> (int \<times> nat \<times> bytes) \<times> 'c"
  EVP_KDF_fetch_HKDF :: "'o \<Rightarrow> bool \<times> 'o"
  EVP_KDF_CTX_new :: "'o \<Rightarrow> 'c option \<times> 'o"
  EVP_KDF_derive :: "'c \<Rightarrow> nat \<Rightarrow> kdf_param list \<Rightarrow> int \<times> bytes"
  EVP_Q_mac_HMAC_SHA256 :: "bytes \<Rightarrow> bytes \<Rightarrow> nat \<Rightarrow> 'o \<Rightarrow> (bool \<times> nat \<times> bytes) \<times> 'o"
  RAND_bytes :: "nat \<Rightarrow> 'o \<Rightarrow> (int \<times> bytes) \<times> 'o"
  RAND_priv_bytes :: "nat \<Rightarrow> 'o \<Rightarrow> (int \<times> bytes) \<times> 'o"
  EVP_PBE_scrypt :: "bytes \<Rightarrow> bytes \<Rightarrow> u64 \<Rightarrow> u64 \<Rightarrow> u64 \<Rightarrow> u64 \<Rightarrow> nat \<Rightarrow> 'o \<Rightarrow> (int \<times> bytes) \<times> 'o"

text \<open>What a call that fills a buffer of \<open>n\<close> zero bytes leaves in it.\<close>

definition fit :: "nat \<Rightarrow> bytes \<Rightarrow> bytes" where
  "fit n out = overlay (replicate n 0) 0 out"

lemma length_fit [simp]: "length (fit n out) = n"
  by (simp add: fit_def)

lemma fit_0 [simp]: "fit 0 out = []"
  by (simp add: fit_def overlay_def)

lemma fit_eq_Nil [simp]: "fit n out = [] \<longleftrightarrow> n = 0"
  by (metis fit_0 length_0_conv length_fit)

lemma fit_exact [simp]: "length out = n \<Longrightarrow> fit n out = out"
  by (simp add: fit_def)

end
