(* ===== verification/Backend.thy ===== *)
theory Backend
  imports Openssl
begin

section \<open>The cryptographic backend\<close>

text \<open>
  \<open>src/backend/crypto_backend.hpp\<close> and \<open>src/backend/crypto_backend_openssl.cpp\<close>: the operations
  the rest of the library uses, on top of the OpenSSL calls. Every status code is checked, sizes are
  checked against \<open>int\<close>, and results are written into buffers of the size the code allocates.
\<close>

text \<open>The errors of the file.\<close>

definition gcm_failure :: exn where
  "gcm_failure = Error backend_failure ''OpenSSL AES-256-GCM operation failed''"

definition authentication_failure :: exn where
  "authentication_failure = Error authentication_failed ''File authentication failed''"

definition aead_authentication_failure :: exn where
  "aead_authentication_failure = Error authentication_failed ''AEAD authentication failed''"

definition tag_size_failure :: exn where
  "tag_size_failure = Error invalid_input ''AES-256-GCM tag must be 16 bytes''"

definition int_size :: "nat \<Rightarrow> string \<Rightarrow> int result" where
  "int_size sz name =
     (if sz > int_max then Inl (Error invalid_input (name @ '' exceeds OpenSSL update limit''))
      else Inr (int sz))"

subsection \<open>Cipher contexts\<close>

definition make_aes256_gcm_context :: "('o, 'c) openssl \<Rightarrow> ('o runtime, exn, 'c) action" where
  "make_aes256_gcm_context ssl =
     mbind (on_provider (EVP_CIPHER_CTX_new ssl)) (\<lambda>context.
       case context of
         None \<Rightarrow> mthrow gcm_failure
       | Some c \<Rightarrow> if EVP_aes_256_gcm ssl then mreturn c else mthrow gcm_failure)"

definition update_aad_impl :: "('o, 'c) openssl \<Rightarrow> bytes \<Rightarrow> ('c, exn, unit) action" where
  "update_aad_impl ssl aad c =
     (case int_size (length aad) ''AAD'' of
        Inl e \<Rightarrow> (Inl e, c)
      | Inr aad_size \<Rightarrow>
          if aad_size = 0 then (Inr (), c)
          else case EVP_CipherUpdate ssl c aad of (ok, c') \<Rightarrow>
            if ok \<noteq> 1 then (Inl gcm_failure, c') else (Inr (), c'))"

text \<open>
  The chain of three initialisation calls: a call is made only when the one before returned 1.
\<close>

definition initialize_encrypt_context ::
  "('o, 'c) openssl \<Rightarrow> bytes \<Rightarrow> bytes \<Rightarrow> ('c, exn, unit) action" where
  "initialize_encrypt_context ssl key nonce c =
     (case EVP_EncryptInit_ex ssl c True None of (ok1, c1) \<Rightarrow>
        if ok1 \<noteq> 1 then (Inl gcm_failure, c1)
        else case EVP_CIPHER_CTX_ctrl ssl c1 (GCM_SET_IVLEN (int (length nonce))) of ((ok2, _), c2) \<Rightarrow>
          if ok2 \<noteq> 1 then (Inl gcm_failure, c2)
          else case EVP_EncryptInit_ex ssl c2 False (Some (key, nonce)) of (ok3, c3) \<Rightarrow>
            if ok3 \<noteq> 1 then (Inl gcm_failure, c3) else (Inr (), c3))"

definition initialize_decrypt_context ::
  "('o, 'c) openssl \<Rightarrow> bytes \<Rightarrow> bytes \<Rightarrow> ('c, exn, unit) action" where
  "initialize_decrypt_context ssl key nonce c =
     (case EVP_DecryptInit_ex ssl c True None of (ok1, c1) \<Rightarrow>
        if ok1 \<noteq> 1 then (Inl gcm_failure, c1)
        else case EVP_CIPHER_CTX_ctrl ssl c1 (GCM_SET_IVLEN (int (length nonce))) of ((ok2, _), c2) \<Rightarrow>
          if ok2 \<noteq> 1 then (Inl gcm_failure, c2)
          else case EVP_DecryptInit_ex ssl c2 False (Some (key, nonce)) of (ok3, c3) \<Rightarrow>
            if ok3 \<noteq> 1 then (Inl gcm_failure, c3) else (Inr (), c3))"

subsection \<open>Random bytes\<close>

text \<open>
  \<open>fill_random\<close>: OpenSSL takes an \<open>int\<close> size, so a large buffer is filled in pieces.
\<close>

function fill_random :: "('o, 'c) openssl \<Rightarrow> bool \<Rightarrow> nat \<Rightarrow> ('o runtime, exn, bytes) action" where
  "fill_random ssl secret sz s =
     (if sz > 0 then
        let chunk = min sz int_max
        in case on_provider ((if secret then RAND_priv_bytes else RAND_bytes) ssl chunk) s of
             (Inl e, s') \<Rightarrow> (Inl e, s')
           | (Inr (ok, out), s') \<Rightarrow>
               if ok \<noteq> 1
               then (Inl (Error backend_failure
                 (if secret then ''OpenSSL RAND_priv_bytes failed'' else ''OpenSSL RAND_bytes failed'')), s')
               else case fill_random ssl secret (sz - chunk) s' of
                   (Inl e, s'') \<Rightarrow> (Inl e, s'')
                 | (Inr rest, s'') \<Rightarrow> (Inr (fit chunk out @ rest), s'')
      else (Inr [], s))"
  by pat_completeness auto
termination
  by (relation "measure (\<lambda>(ssl, secret, sz, s). sz)") (auto simp: int_max_def)

declare fill_random.simps [simp del]

definition random_bytes :: "('o, 'c) openssl \<Rightarrow> nat \<Rightarrow> ('o runtime, exn, bytes) action" where
  "random_bytes ssl sz = (if sz = 0 then mreturn [] else fill_random ssl False sz)"

definition generate_key :: "('o, 'c) openssl \<Rightarrow> ('o runtime, exn, bytes) action" where
  "generate_key ssl = fill_random ssl True 32"

subsection \<open>Digest, MAC and key derivation\<close>

definition sha256_failure :: exn where
  "sha256_failure = Error backend_failure ''OpenSSL SHA-256 operation failed''"

definition sha256 :: "('o, 'c) openssl \<Rightarrow> bytes \<Rightarrow> ('o runtime, exn, bytes) action" where
  "sha256 ssl input =
     mbind (on_provider (EVP_MD_CTX_new ssl)) (\<lambda>context.
       case context of
         None \<Rightarrow> mthrow sha256_failure
       | Some c \<Rightarrow>
           if \<not> EVP_sha256 ssl then mthrow sha256_failure
           else case EVP_DigestInit_ex ssl c of (ok, c1) \<Rightarrow>
             if ok \<noteq> 1 then mthrow sha256_failure
             else
               let (updated, c2) =
                 (if input = [] then (True, c1)
                  else case EVP_DigestUpdate ssl c1 input of (ok, c') \<Rightarrow> (ok = 1, c'))
               in if \<not> updated then mthrow sha256_failure
                  else case EVP_DigestFinal_ex ssl c2 of ((ok, output_size, out), _) \<Rightarrow>
                    if ok \<noteq> 1 then mthrow sha256_failure
                    else if output_size \<noteq> 32 then mthrow sha256_failure
                    else mreturn (fit 32 out))"

definition hkdf_failure :: exn where
  "hkdf_failure = Error backend_failure ''OpenSSL HKDF-SHA-256 operation failed''"

definition hkdf_params :: "bytes \<Rightarrow> bytes \<Rightarrow> bytes \<Rightarrow> kdf_param list" where
  "hkdf_params key_material salt info =
     [KDF_DIGEST ''SHA256'', KDF_MODE_EXTRACT_AND_EXPAND, KDF_KEY key_material]
     @ (if salt = [] then [] else [KDF_SALT salt])
     @ (if info = [] then [] else [KDF_INFO info])"

definition hkdf_sha256 ::
  "('o, 'c) openssl \<Rightarrow> bytes \<Rightarrow> bytes \<Rightarrow> bytes \<Rightarrow> nat \<Rightarrow> ('o runtime, exn, bytes) action" where
  "hkdf_sha256 ssl key_material salt info output_size =
     (if output_size = 0 then mreturn []
      else mbind (on_provider (EVP_KDF_fetch_HKDF ssl)) (\<lambda>kdf.
        if \<not> kdf then mthrow hkdf_failure
        else mbind (on_provider (EVP_KDF_CTX_new ssl)) (\<lambda>context.
          case context of
            None \<Rightarrow> mthrow hkdf_failure
          | Some c \<Rightarrow>
              case EVP_KDF_derive ssl c output_size (hkdf_params key_material salt info) of (ok, out) \<Rightarrow>
                if ok \<noteq> 1 then mthrow hkdf_failure else mreturn (fit output_size out))))"

definition hmac_failure :: exn where
  "hmac_failure = Error backend_failure ''OpenSSL HMAC-SHA-256 operation failed''"

definition hmac_sha256 ::
  "('o, 'c) openssl \<Rightarrow> bytes \<Rightarrow> bytes \<Rightarrow> ('o runtime, exn, bytes) action" where
  "hmac_sha256 ssl key input =
     mbind (on_provider (EVP_Q_mac_HMAC_SHA256 ssl key input 32)) (\<lambda>(ok, output_size, out).
       if \<not> ok then mthrow hmac_failure
       else if output_size \<noteq> 32 then mthrow hmac_failure
       else mreturn (fit 32 out))"

record scrypt_params =
  sp_n :: u64
  sp_r :: u32
  sp_p :: u32
  sp_max_memory :: u64

text \<open>A failed derivation wipes the key buffer before it throws.\<close>

definition scrypt_key ::
  "('o, 'c) openssl \<Rightarrow> bytes \<Rightarrow> bytes \<Rightarrow> scrypt_params \<Rightarrow> ('o runtime, exn, bytes) action" where
  "scrypt_key ssl password salt params =
     mbind (on_provider (EVP_PBE_scrypt ssl password salt (sp_n params)
         (ucast (sp_r params)) (ucast (sp_p params)) (sp_max_memory params) 32))
       (\<lambda>(ok, out).
         if ok \<noteq> 1
         then mbind (mmodify (retire (secure_wipe (fit 32 out)))) (\<lambda>_.
           mthrow (Error backend_failure ''OpenSSL scrypt operation failed''))
         else mreturn (fit 32 out))"

subsection \<open>Streaming contexts\<close>

text \<open>
  \<open>Aes256GcmEncryptContext\<close> and \<open>Aes256GcmDecryptContext\<close> hold \<open>impl_\<close>, a unique pointer to the
  OpenSSL context: a \<open>'c option\<close>. A member function called when \<open>impl_\<close> is null would dereference
  it. The state of a member function is the pointer and the runtime.
\<close>

type_synonym ('c, 'o) gcm_context = "'c option \<times> 'o runtime"

definition with_impl :: "('c, exn, 'a) action \<Rightarrow> (('c, 'o) gcm_context, exn, 'a) action" where
  "with_impl m st =
     (case st of
        (None, s) \<Rightarrow> (Inl (Undefined_behaviour ''null cipher context''), (None, s))
      | (Some c, s) \<Rightarrow> (case m c of (r, c') \<Rightarrow> (r, (Some c', s))))"

definition Aes256GcmEncryptContext ::
  "('o, 'c) openssl \<Rightarrow> bytes \<Rightarrow> bytes \<Rightarrow> ('o runtime, exn, 'c option) action" where
  "Aes256GcmEncryptContext ssl key nonce =
     mbind (make_aes256_gcm_context ssl) (\<lambda>c.
       case initialize_encrypt_context ssl key nonce c of
         (Inl e, _) \<Rightarrow> mthrow e
       | (Inr _, c') \<Rightarrow> mreturn (Some c'))"

definition Aes256GcmDecryptContext ::
  "('o, 'c) openssl \<Rightarrow> bytes \<Rightarrow> bytes \<Rightarrow> ('o runtime, exn, 'c option) action" where
  "Aes256GcmDecryptContext ssl key nonce =
     mbind (make_aes256_gcm_context ssl) (\<lambda>c.
       case initialize_decrypt_context ssl key nonce c of
         (Inl e, _) \<Rightarrow> mthrow e
       | (Inr _, c') \<Rightarrow> mreturn (Some c'))"

definition context_update_aad ::
  "('o, 'c) openssl \<Rightarrow> bytes \<Rightarrow> (('c, 'o) gcm_context, exn, unit) action" where
  "context_update_aad ssl aad = with_impl (update_aad_impl ssl aad)"

definition encrypt_context_update ::
  "('o, 'c) openssl \<Rightarrow> bytes \<Rightarrow> (('c, 'o) gcm_context, exn, bytes) action" where
  "encrypt_context_update ssl plaintext st =
     (case int_size (length plaintext) ''plaintext'' of
        Inl e \<Rightarrow> (Inl e, st)
      | Inr plaintext_size \<Rightarrow>
          if plaintext_size = 0 then (Inr [], st)
          else with_impl (\<lambda>c. case EVP_EncryptUpdate ssl c plaintext of
            ((ok, ciphertext_size, out), c') \<Rightarrow>
              if ok \<noteq> 1 then (Inl gcm_failure, c')
              else if ciphertext_size \<noteq> plaintext_size then (Inl gcm_failure, c')
              else (Inr (fit (length plaintext) out), c')) st)"

definition encrypt_context_finalize ::
  "('o, 'c) openssl \<Rightarrow> (('c, 'o) gcm_context, exn, bytes) action" where
  "encrypt_context_finalize ssl st =
     (case with_impl (\<lambda>c. case EVP_EncryptFinal_ex ssl c of
          ((ok, final_size, _), c1) \<Rightarrow>
            if ok \<noteq> 1 then (Inl gcm_failure, c1)
            else if final_size \<noteq> 0 then (Inl gcm_failure, c1)
            else case EVP_CIPHER_CTX_ctrl ssl c1 (GCM_GET_TAG 16) of ((ok', out), c2) \<Rightarrow>
              if ok' \<noteq> 1 then (Inl gcm_failure, c2) else (Inr (fit 16 out), c2)) st of
        (Inl e, st') \<Rightarrow> (Inl e, st')
      | (Inr tag, (_, s)) \<Rightarrow> (Inr tag, (None, s)))"

text \<open>
  Decryption: the plaintext buffer of a failed \<open>update\<close> is released as it is, so it is retired
  with what OpenSSL wrote.
\<close>

definition decrypt_context_update ::
  "('o, 'c) openssl \<Rightarrow> bytes \<Rightarrow> (('c, 'o) gcm_context, exn, bytes) action" where
  "decrypt_context_update ssl ciphertext st =
     (case int_size (length ciphertext) ''ciphertext'' of
        Inl e \<Rightarrow> (Inl e, st)
      | Inr ciphertext_size \<Rightarrow>
          if ciphertext_size = 0 then (Inr [], st)
          else case st of
            (None, s) \<Rightarrow> (Inl (Undefined_behaviour ''null cipher context''), (None, s))
          | (Some c, s) \<Rightarrow> (case EVP_DecryptUpdate ssl c ciphertext of
              ((ok, plaintext_size, out), c') \<Rightarrow>
                let plaintext = fit (length ciphertext) out
                in if ok \<noteq> 1 then (Inl gcm_failure, (Some c', retire plaintext s))
                   else if plaintext_size \<noteq> ciphertext_size
                   then (Inl gcm_failure, (Some c', retire plaintext s))
                   else (Inr plaintext, (Some c', s))))"

definition decrypt_context_finalize ::
  "('o, 'c) openssl \<Rightarrow> bytes \<Rightarrow> (('c, 'o) gcm_context, exn, bytes) action" where
  "decrypt_context_finalize ssl tag st =
     (if length tag \<noteq> 16 then (Inl tag_size_failure, st)
      else case st of
        (None, s) \<Rightarrow> (Inl (Undefined_behaviour ''null cipher context''), (None, s))
      | (Some c, s) \<Rightarrow> (case EVP_CIPHER_CTX_ctrl ssl c (GCM_SET_TAG tag) of ((ok, _), c1) \<Rightarrow>
          if ok \<noteq> 1 then (Inl gcm_failure, (Some c1, s))
          else case EVP_DecryptFinal_ex ssl c1 of ((ok', final_size, out), c2) \<Rightarrow>
            if ok' \<noteq> 1 then (Inl aead_authentication_failure, (None, s))
            else if final_size < 0 \<or> final_size > 1 then (Inl gcm_failure, (Some c2, s))
            else (Inr (take (nat final_size) (fit 1 out)), (None, s))))"

subsection \<open>One-shot operations\<close>

record aes256_gcm_result =
  result_ciphertext :: bytes
  result_tag :: bytes

definition aes256_gcm_encrypt ::
  "('o, 'c) openssl \<Rightarrow> bytes \<Rightarrow> bytes \<Rightarrow> bytes \<Rightarrow> bytes \<Rightarrow> ('o runtime, exn, aes256_gcm_result) action" where
  "aes256_gcm_encrypt ssl plaintext key nonce aad =
     mbind (mlift (int_size (length plaintext) ''plaintext'')) (\<lambda>plaintext_size.
     mbind (make_aes256_gcm_context ssl) (\<lambda>c.
       case initialize_encrypt_context ssl key nonce c of
         (Inl e, _) \<Rightarrow> mthrow e
       | (Inr _, c1) \<Rightarrow>
       case update_aad_impl ssl aad c1 of
         (Inl e, _) \<Rightarrow> mthrow e
       | (Inr _, c2) \<Rightarrow>
       case (if plaintext_size > 0 then EVP_EncryptUpdate ssl c2 plaintext else ((1, 0, []), c2)) of
         ((ok, ciphertext_size, out), c3) \<Rightarrow>
       if ok \<noteq> 1 then mthrow gcm_failure
       else
         let ciphertext = fit (length plaintext) out
         in case EVP_EncryptFinal_ex ssl c3 of ((ok', final_size, final_out), c4) \<Rightarrow>
           if ok' \<noteq> 1 then mthrow gcm_failure
           else if ciphertext_size + final_size \<noteq> plaintext_size then mthrow gcm_failure
           else case EVP_CIPHER_CTX_ctrl ssl c4 (GCM_GET_TAG 16) of ((ok'', tag_out), _) \<Rightarrow>
             if ok'' \<noteq> 1 then mthrow gcm_failure
             else mreturn
               \<lparr>result_ciphertext =
                  (if ciphertext = [] then ciphertext
                   else overlay ciphertext (nat ciphertext_size) final_out),
                result_tag = fit 16 tag_out\<rparr>))"

text \<open>The plaintext buffer is released on each failure; only a failed tag check wipes it first.\<close>

definition release_and_throw :: "bytes \<Rightarrow> exn \<Rightarrow> ('o runtime, exn, 'a) action" where
  "release_and_throw buf e s = (Inl e, retire buf s)"

definition aes256_gcm_decrypt ::
  "('o, 'c) openssl \<Rightarrow> bytes \<Rightarrow> bytes \<Rightarrow> bytes \<Rightarrow> bytes \<Rightarrow> bytes \<Rightarrow> ('o runtime, exn, bytes) action" where
  "aes256_gcm_decrypt ssl ciphertext tag key nonce aad =
     (if length tag \<noteq> 16 then mthrow tag_size_failure
      else mbind (mlift (int_size (length ciphertext) ''ciphertext'')) (\<lambda>ciphertext_size.
        let plaintext0 = replicate (length ciphertext) 0
        in mbind (mon_error (make_aes256_gcm_context ssl) (retire plaintext0)) (\<lambda>c.
          case initialize_decrypt_context ssl key nonce c of
            (Inl e, _) \<Rightarrow> release_and_throw plaintext0 e
          | (Inr _, c1) \<Rightarrow>
          case update_aad_impl ssl aad c1 of
            (Inl e, _) \<Rightarrow> release_and_throw plaintext0 e
          | (Inr _, c2) \<Rightarrow>
          case (if ciphertext_size > 0 then EVP_DecryptUpdate ssl c2 ciphertext else ((1, 0, []), c2)) of
            ((ok, plaintext_size, out), c3) \<Rightarrow>
          let plaintext = fit (length ciphertext) out
          in if ok \<noteq> 1 then release_and_throw plaintext gcm_failure
             else case EVP_CIPHER_CTX_ctrl ssl c3 (GCM_SET_TAG tag) of ((ok', _), c4) \<Rightarrow>
               if ok' \<noteq> 1 then release_and_throw plaintext gcm_failure
               else case EVP_DecryptFinal_ex ssl c4 of ((ok'', final_size, final_out), _) \<Rightarrow>
                 let plaintext' =
                   (if plaintext = [] then plaintext
                    else overlay plaintext (nat plaintext_size) final_out)
                 in if ok'' \<noteq> 1
                    then release_and_throw (secure_wipe plaintext') authentication_failure
                    else if plaintext_size + final_size \<noteq> ciphertext_size
                    then release_and_throw plaintext' gcm_failure
                    else mreturn plaintext')))"

end
