(* ===== verification/Provider.thy ===== *)
theory Provider
  imports Backend
begin

section \<open>What AES-256-GCM of OpenSSL is documented to do\<close>

text \<open>
  The hypotheses under which properties of encryption are stated. AES-GCM is a stream cipher with
  a tag: \<open>keystream key iv\<close> gives the key stream byte at each position, \<open>auth_tag key iv aad ct\<close> the
  16-byte tag. \<open>gcm_provider\<close> says what a call that \<^emph>\<open>reports success\<close> has done, in terms of a
  view of the context (what has been set and processed so far), as the manual page
  EVP_EncryptInit(3) describes it; it leaves open whether a call succeeds.
  \<open>gcm_healthy\<close> says that no call fails but for a tag that does not match. A concrete provider at the
  end satisfies both.
\<close>

unbundle bit_operations_syntax

record gcm_alg =
  keystream :: "bytes \<Rightarrow> bytes \<Rightarrow> nat \<Rightarrow> byte"
  auth_tag :: "bytes \<Rightarrow> bytes \<Rightarrow> bytes \<Rightarrow> bytes \<Rightarrow> bytes"

fun stream_xor :: "(nat \<Rightarrow> byte) \<Rightarrow> nat \<Rightarrow> bytes \<Rightarrow> bytes" where
  "stream_xor ks pos [] = []"
| "stream_xor ks pos (b # bs) = (b XOR ks pos) # stream_xor ks (Suc pos) bs"

definition gcm_ciphertext :: "gcm_alg \<Rightarrow> bytes \<Rightarrow> bytes \<Rightarrow> bytes \<Rightarrow> bytes" where
  "gcm_ciphertext alg key iv plaintext = stream_xor (keystream alg key iv) 0 plaintext"

definition gcm_tag :: "gcm_alg \<Rightarrow> bytes \<Rightarrow> bytes \<Rightarrow> bytes \<Rightarrow> bytes \<Rightarrow> bytes" where
  "gcm_tag alg key iv aad plaintext = auth_tag alg key iv aad (gcm_ciphertext alg key iv plaintext)"

lemma length_stream_xor [simp]: "length (stream_xor ks pos bs) = length bs"
  by (induction bs arbitrary: pos) simp_all

lemma stream_xor_append:
  "stream_xor ks pos (xs @ ys) = stream_xor ks pos xs @ stream_xor ks (pos + length xs) ys"
  by (induction xs arbitrary: pos) simp_all

lemma stream_xor_inverse [simp]: "stream_xor ks pos (stream_xor ks pos bs) = bs"
  by (induction bs arbitrary: pos) (simp_all add: xor.assoc)

lemma length_gcm_ciphertext [simp]: "length (gcm_ciphertext alg key iv p) = length p"
  by (simp add: gcm_ciphertext_def)

lemma gcm_ciphertext_inverse [simp]:
  "gcm_ciphertext alg key iv (gcm_ciphertext alg key iv p) = p"
  by (simp add: gcm_ciphertext_def)

lemma gcm_ciphertext_Nil [simp]: "gcm_ciphertext alg key iv [] = []"
  by (simp add: gcm_ciphertext_def)

lemma gcm_ciphertext_eq_Nil [simp]: "gcm_ciphertext alg key iv p = [] \<longleftrightarrow> p = []"
  by (metis length_0_conv length_gcm_ciphertext)

text \<open>The documented state of a context.\<close>

record gcm_view =
  encrypting :: bool
  ivlen :: int
  key_iv :: "(bytes \<times> bytes) option"
  aad_seen :: bytes
  ct_seen :: bytes
  expected_tag :: "bytes option"

definition view_fresh :: "bool \<Rightarrow> gcm_view" where
  "view_fresh enc = \<lparr>encrypting = enc, ivlen = 12, key_iv = None, aad_seen = [], ct_seen = [],
     expected_tag = None\<rparr>"

definition view_keyed :: "bool \<Rightarrow> bytes \<Rightarrow> bytes \<Rightarrow> gcm_view" where
  "view_keyed enc key iv = \<lparr>encrypting = enc, ivlen = int (length iv), key_iv = Some (key, iv),
     aad_seen = [], ct_seen = [], expected_tag = None\<rparr>"

text \<open>The tag that belongs to what a context has seen.\<close>

fun view_tag :: "gcm_alg \<Rightarrow> gcm_view \<Rightarrow> bytes option" where
  "view_tag alg v = (case key_iv v of None \<Rightarrow> None
     | Some (key, iv) \<Rightarrow> Some (auth_tag alg key iv (aad_seen v) (ct_seen v)))"

declare view_tag.simps [simp del]

definition gcm_init_laws :: "('o, 'c) openssl \<Rightarrow> ('c \<Rightarrow> gcm_view) \<Rightarrow> bool" where
  "gcm_init_laws ssl view \<longleftrightarrow>
     (\<forall>c c'. EVP_EncryptInit_ex ssl c True None = (1, c') \<longrightarrow> view c' = view_fresh True) \<and>
     (\<forall>c c'. EVP_DecryptInit_ex ssl c True None = (1, c') \<longrightarrow> view c' = view_fresh False) \<and>
     (\<forall>c n out c'. EVP_CIPHER_CTX_ctrl ssl c (GCM_SET_IVLEN n) = ((1, out), c') \<longrightarrow>
        view c' = (view c)\<lparr>ivlen := n\<rparr>) \<and>
     (\<forall>c key iv c'. EVP_EncryptInit_ex ssl c False (Some (key, iv)) = (1, c') \<longrightarrow>
        length key = 32 \<longrightarrow> view c = (view_fresh True)\<lparr>ivlen := int (length iv)\<rparr> \<longrightarrow>
        view c' = view_keyed True key iv) \<and>
     (\<forall>c key iv c'. EVP_DecryptInit_ex ssl c False (Some (key, iv)) = (1, c') \<longrightarrow>
        length key = 32 \<longrightarrow> view c = (view_fresh False)\<lparr>ivlen := int (length iv)\<rparr> \<longrightarrow>
        view c' = view_keyed False key iv) \<and>
     (\<forall>c aad c'. EVP_CipherUpdate ssl c aad = (1, c') \<longrightarrow> ct_seen (view c) = [] \<longrightarrow>
        view c' = (view c)\<lparr>aad_seen := aad_seen (view c) @ aad\<rparr>)"

definition gcm_encrypt_laws :: "('o, 'c) openssl \<Rightarrow> ('c \<Rightarrow> gcm_view) \<Rightarrow> gcm_alg \<Rightarrow> bool" where
  "gcm_encrypt_laws ssl view alg \<longleftrightarrow>
     (\<forall>c p n out c' key iv. EVP_EncryptUpdate ssl c p = ((1, n, out), c') \<longrightarrow>
        encrypting (view c) \<longrightarrow> key_iv (view c) = Some (key, iv) \<longrightarrow>
        n = int (length p) \<and>
        out = stream_xor (keystream alg key iv) (length (ct_seen (view c))) p \<and>
        view c' = (view c)\<lparr>ct_seen := ct_seen (view c) @ out\<rparr>) \<and>
     (\<forall>c n out c'. EVP_EncryptFinal_ex ssl c = ((1, n, out), c') \<longrightarrow> encrypting (view c) \<longrightarrow>
        n = 0 \<and> out = [] \<and> view c' = view c) \<and>
     (\<forall>c out c'. EVP_CIPHER_CTX_ctrl ssl c (GCM_GET_TAG 16) = ((1, out), c') \<longrightarrow>
        encrypting (view c) \<longrightarrow> key_iv (view c) \<noteq> None \<longrightarrow>
        view_tag alg (view c) = Some out \<and> view c' = view c) \<and>
     (\<forall>key iv aad ct. length (auth_tag alg key iv aad ct) = 16)"

definition gcm_decrypt_laws :: "('o, 'c) openssl \<Rightarrow> ('c \<Rightarrow> gcm_view) \<Rightarrow> gcm_alg \<Rightarrow> bool" where
  "gcm_decrypt_laws ssl view alg \<longleftrightarrow>
     (\<forall>c ct n out c' key iv. EVP_DecryptUpdate ssl c ct = ((1, n, out), c') \<longrightarrow>
        \<not> encrypting (view c) \<longrightarrow> key_iv (view c) = Some (key, iv) \<longrightarrow>
        n = int (length ct) \<and>
        out = stream_xor (keystream alg key iv) (length (ct_seen (view c))) ct \<and>
        view c' = (view c)\<lparr>ct_seen := ct_seen (view c) @ ct\<rparr>) \<and>
     (\<forall>c tag out c'. EVP_CIPHER_CTX_ctrl ssl c (GCM_SET_TAG tag) = ((1, out), c') \<longrightarrow>
        \<not> encrypting (view c) \<longrightarrow> view c' = (view c)\<lparr>expected_tag := Some tag\<rparr>) \<and>
     (\<forall>c n out c'. EVP_DecryptFinal_ex ssl c = ((1, n, out), c') \<longrightarrow> \<not> encrypting (view c) \<longrightarrow>
        n = 0 \<and> out = [] \<and> expected_tag (view c) = view_tag alg (view c))"

definition gcm_provider :: "('o, 'c) openssl \<Rightarrow> ('c \<Rightarrow> gcm_view) \<Rightarrow> gcm_alg \<Rightarrow> bool" where
  "gcm_provider ssl view alg \<longleftrightarrow>
     gcm_init_laws ssl view \<and> gcm_encrypt_laws ssl view alg \<and> gcm_decrypt_laws ssl view alg"

text \<open>Every call succeeds; the final decryption call succeeds when the tag matches.\<close>

definition gcm_healthy :: "('o, 'c) openssl \<Rightarrow> ('c \<Rightarrow> gcm_view) \<Rightarrow> gcm_alg \<Rightarrow> bool" where
  "gcm_healthy ssl view alg \<longleftrightarrow>
     EVP_aes_256_gcm ssl \<and>
     (\<forall>o'. fst (EVP_CIPHER_CTX_new ssl o') \<noteq> None) \<and>
     (\<forall>c b ki. fst (EVP_EncryptInit_ex ssl c b ki) = 1 \<and> fst (EVP_DecryptInit_ex ssl c b ki) = 1) \<and>
     (\<forall>c ctrl. fst (fst (EVP_CIPHER_CTX_ctrl ssl c ctrl)) = 1) \<and>
     (\<forall>c d. fst (EVP_CipherUpdate ssl c d) = 1 \<and> fst (fst (EVP_EncryptUpdate ssl c d)) = 1 \<and>
        fst (fst (EVP_DecryptUpdate ssl c d)) = 1) \<and>
     (\<forall>c. fst (fst (EVP_EncryptFinal_ex ssl c)) = 1) \<and>
     (\<forall>c. expected_tag (view c) = view_tag alg (view c) \<longrightarrow> fst (fst (EVP_DecryptFinal_ex ssl c)) = 1) \<and>
     (\<forall>n o'. fst (fst (RAND_bytes ssl n o')) = 1)"

subsection \<open>The laws as rules\<close>

lemma provider_init:
  assumes "gcm_provider ssl view alg"
  shows "EVP_EncryptInit_ex ssl c True None = (1, c') \<Longrightarrow> view c' = view_fresh True"
    and "EVP_DecryptInit_ex ssl c True None = (1, c') \<Longrightarrow> view c' = view_fresh False"
    and "EVP_CIPHER_CTX_ctrl ssl c (GCM_SET_IVLEN n) = ((1, out), c') \<Longrightarrow>
      view c' = (view c)\<lparr>ivlen := n\<rparr>"
    and "EVP_EncryptInit_ex ssl c False (Some (key, iv)) = (1, c') \<Longrightarrow> length key = 32 \<Longrightarrow>
      view c = (view_fresh True)\<lparr>ivlen := int (length iv)\<rparr> \<Longrightarrow> view c' = view_keyed True key iv"
    and "EVP_DecryptInit_ex ssl c False (Some (key, iv)) = (1, c') \<Longrightarrow> length key = 32 \<Longrightarrow>
      view c = (view_fresh False)\<lparr>ivlen := int (length iv)\<rparr> \<Longrightarrow> view c' = view_keyed False key iv"
    and "EVP_CipherUpdate ssl c aad = (1, c') \<Longrightarrow> ct_seen (view c) = [] \<Longrightarrow>
      view c' = (view c)\<lparr>aad_seen := aad_seen (view c) @ aad\<rparr>"
  using assms unfolding gcm_provider_def gcm_init_laws_def by blast+

lemma provider_encrypt:
  assumes "gcm_provider ssl view alg" and "encrypting (view c)"
  shows "EVP_EncryptUpdate ssl c p = ((1, n, out), c') \<Longrightarrow> key_iv (view c) = Some (key, iv) \<Longrightarrow>
        n = int (length p) \<and>
        out = stream_xor (keystream alg key iv) (length (ct_seen (view c))) p \<and>
        view c' = (view c)\<lparr>ct_seen := ct_seen (view c) @ out\<rparr>"
    and "EVP_EncryptFinal_ex ssl c = ((1, n, out), c') \<Longrightarrow> n = 0 \<and> out = [] \<and> view c' = view c"
    and "EVP_CIPHER_CTX_ctrl ssl c (GCM_GET_TAG 16) = ((1, out), c') \<Longrightarrow> key_iv (view c) \<noteq> None \<Longrightarrow>
        view_tag alg (view c) = Some out \<and> view c' = view c"
  using assms unfolding gcm_provider_def gcm_encrypt_laws_def by blast+

lemma provider_tag_length:
  assumes "gcm_provider ssl view alg"
  shows "length (auth_tag alg key iv aad ct) = 16" and "length (gcm_tag alg key iv aad p) = 16"
  using assms unfolding gcm_provider_def gcm_encrypt_laws_def gcm_tag_def by blast+

lemma provider_decrypt:
  assumes "gcm_provider ssl view alg" and "\<not> encrypting (view c)"
  shows "EVP_DecryptUpdate ssl c ct = ((1, n, out), c') \<Longrightarrow> key_iv (view c) = Some (key, iv) \<Longrightarrow>
        n = int (length ct) \<and>
        out = stream_xor (keystream alg key iv) (length (ct_seen (view c))) ct \<and>
        view c' = (view c)\<lparr>ct_seen := ct_seen (view c) @ ct\<rparr>"
    and "EVP_CIPHER_CTX_ctrl ssl c (GCM_SET_TAG tag) = ((1, out), c') \<Longrightarrow>
        view c' = (view c)\<lparr>expected_tag := Some tag\<rparr>"
    and "EVP_DecryptFinal_ex ssl c = ((1, n, out), c') \<Longrightarrow>
        n = 0 \<and> out = [] \<and> expected_tag (view c) = view_tag alg (view c)"
  using assms unfolding gcm_provider_def gcm_decrypt_laws_def by blast+

subsection \<open>A concrete provider\<close>

text \<open>
  A provider that satisfies the hypotheses, for the witnesses: its contexts are their own views, its
  state counts the random bytes handed out. It is no cipher anybody should use.
\<close>

definition toy_alg :: gcm_alg where
  "toy_alg = \<lparr>
     keystream = (\<lambda>key iv pos. foldr (+) key 0 + foldr (+) iv 0 + word_of_nat pos),
     auth_tag = (\<lambda>key iv aad ct.
       replicate 16 (foldr (+) key 1 + foldr (+) iv 2 + foldr (+) aad 3 + foldr (+) ct 4))\<rparr>"

definition toy_random :: "nat \<Rightarrow> nat \<Rightarrow> (int \<times> bytes) \<times> nat" where
  "toy_random n o' = ((1, replicate n (word_of_nat o')), Suc o')"

definition toy_ssl :: "(nat, gcm_view) openssl" where
  "toy_ssl = \<lparr>
     EVP_CIPHER_CTX_new = (\<lambda>o'. (Some (view_fresh True), o')),
     EVP_aes_256_gcm = True,
     EVP_EncryptInit_ex = (\<lambda>c cipher ki.
       (1, case ki of None \<Rightarrow> view_fresh True | Some (key, iv) \<Rightarrow> view_keyed True key iv)),
     EVP_DecryptInit_ex = (\<lambda>c cipher ki.
       (1, case ki of None \<Rightarrow> view_fresh False | Some (key, iv) \<Rightarrow> view_keyed False key iv)),
     EVP_CIPHER_CTX_ctrl = (\<lambda>c ctrl. case ctrl of
         GCM_SET_IVLEN n \<Rightarrow> ((1, []), c\<lparr>ivlen := n\<rparr>)
       | GCM_GET_TAG n \<Rightarrow> ((1, case view_tag toy_alg c of None \<Rightarrow> [] | Some t \<Rightarrow> t), c)
       | GCM_SET_TAG t \<Rightarrow> ((1, []), c\<lparr>expected_tag := Some t\<rparr>)),
     EVP_CipherUpdate = (\<lambda>c d. (1, c\<lparr>aad_seen := aad_seen c @ d\<rparr>)),
     EVP_EncryptUpdate = (\<lambda>c p. case key_iv c of
         None \<Rightarrow> ((1, 0, []), c)
       | Some (key, iv) \<Rightarrow>
           let out = stream_xor (keystream toy_alg key iv) (length (ct_seen c)) p
           in ((1, int (length p), out), c\<lparr>ct_seen := ct_seen c @ out\<rparr>)),
     EVP_EncryptFinal_ex = (\<lambda>c. ((1, 0, []), c)),
     EVP_DecryptUpdate = (\<lambda>c ct. case key_iv c of
         None \<Rightarrow> ((1, 0, []), c)
       | Some (key, iv) \<Rightarrow>
           let out = stream_xor (keystream toy_alg key iv) (length (ct_seen c)) ct
           in ((1, int (length ct), out), c\<lparr>ct_seen := ct_seen c @ ct\<rparr>)),
     EVP_DecryptFinal_ex = (\<lambda>c.
       ((if expected_tag c = view_tag toy_alg c then 1 else 0, 0, []), c)),
     EVP_MD_CTX_new = (\<lambda>o'. (Some (view_fresh True), o')),
     EVP_sha256 = True,
     EVP_DigestInit_ex = (\<lambda>c. (1, c)),
     EVP_DigestUpdate = (\<lambda>c d. (1, c\<lparr>aad_seen := aad_seen c @ d\<rparr>)),
     EVP_DigestFinal_ex = (\<lambda>c. ((1, 32, replicate 32 (foldr (+) (aad_seen c) 7)), c)),
     EVP_KDF_fetch_HKDF = (\<lambda>o'. (True, o')),
     EVP_KDF_CTX_new = (\<lambda>o'. (Some (view_fresh True), o')),
     EVP_KDF_derive = (\<lambda>c n ps. (1, replicate n 9)),
     EVP_Q_mac_HMAC_SHA256 = (\<lambda>key d n o'. ((True, n, replicate n (foldr (+) (key @ d) 5)), o')),
     RAND_bytes = toy_random,
     RAND_priv_bytes = toy_random,
     EVP_PBE_scrypt = (\<lambda>pw salt n r p m len o'. ((1, replicate len (foldr (+) (pw @ salt) 11)), o'))\<rparr>"

lemma toy_provider: "gcm_provider toy_ssl id toy_alg"
  unfolding gcm_provider_def
proof (intro conjI)
  show "gcm_init_laws toy_ssl id"
    by (simp add: gcm_init_laws_def toy_ssl_def)
  show "gcm_encrypt_laws toy_ssl id toy_alg"
    by (auto simp: gcm_encrypt_laws_def toy_ssl_def Let_def view_tag.simps split: option.splits)
      (simp_all add: toy_alg_def)
  show "gcm_decrypt_laws toy_ssl id toy_alg"
    by (auto simp: gcm_decrypt_laws_def toy_ssl_def Let_def split: if_splits)
qed

lemma toy_healthy: "gcm_healthy toy_ssl id toy_alg"
  by (simp add: gcm_healthy_def toy_ssl_def toy_random_def Let_def
      split: option.splits gcm_ctrl.splits)

end
