(* ===== verification/Backend_Correct.thy ===== *)
theory Backend_Correct
  imports Provider
begin

section \<open>Correctness of the backend\<close>

text \<open>
  First what holds for any OpenSSL, because the code checks sizes and allocates the buffers itself;
  then, under the laws of \<open>Provider\<close>, that the streaming contexts and the one-shot operations compute
  AES-GCM, and that decryption returns plaintext only under a matching tag.
\<close>

subsection \<open>Sizes and errors, for any provider\<close>

lemma int_size_Inr_iff: "int_size n name = Inr k \<longleftrightarrow> n \<le> int_max \<and> k = int n"
  by (auto simp: int_size_def)

lemma int_size_Inl_iff:
  "int_size n name = Inl e \<longleftrightarrow> n > int_max \<and> e = Error invalid_input (name @ '' exceeds OpenSSL update limit'')"
  by (auto simp: int_size_def)

lemma fill_random_step:
  assumes "n > 0"
    and "on_provider ((if secret then RAND_priv_bytes else RAND_bytes) ssl (min n int_max)) s =
      (Inr (ok, bs) :: (int \<times> bytes) result, t)"
  shows "fill_random ssl secret n s =
    (if ok \<noteq> 1
     then (Inl (Error backend_failure
       (if secret then ''OpenSSL RAND_priv_bytes failed'' else ''OpenSSL RAND_bytes failed'')), t)
     else case fill_random ssl secret (n - min n int_max) t of
         (Inl e, s'') \<Rightarrow> (Inl e, s'')
       | (Inr rest, s'') \<Rightarrow> (Inr (fit (min n int_max) bs @ rest), s''))"
  by (subst fill_random.simps) (simp only: if_True Let_def assms prod.case sum.case)

text \<open>
  A run of \<open>fill_random\<close> that returns wrote exactly the bytes asked for; one that throws is a
  backend failure; no buffer with a secret is released.
\<close>

lemma fill_random_result:
  "case fill_random ssl secret n s of (r, s') \<Rightarrow>
     retired s' = retired s \<and>
     (case r of Inl e \<Rightarrow> code_of e = Some backend_failure | Inr out \<Rightarrow> length out = n)"
proof (induction n arbitrary: s rule: less_induct)
  case (less n)
  show ?case
  proof (cases "n > 0")
    case True
    let ?chunk = "min n int_max"
    obtain ok bs t where call:
      "on_provider ((if secret then RAND_priv_bytes else RAND_bytes) ssl ?chunk) s =
        (Inr (ok, bs) :: (int \<times> bytes) result, t)"
      using on_provider_returns by (metis prod.exhaust_sel)
    have "n - ?chunk < n" using True by (simp add: int_max_def)
    from less.IH [OF this, of t] fill_random_step [OF True call] on_provider_retired [OF call]
    show ?thesis by (auto split: prod.splits sum.splits)
  next
    case False
    then show ?thesis by (simp add: fill_random.simps [of ssl secret 0 s])
  qed
qed

lemma fill_random_length: "fill_random ssl secret n s = (Inr out, s') \<Longrightarrow> length out = n"
  using fill_random_result [where ssl = ssl and secret = secret and n = n and s = s] by simp

lemma random_bytes_length: "random_bytes ssl n s = (Inr out, s') \<Longrightarrow> length out = n"
  by (auto simp: random_bytes_def mreturn_def fill_random_length split: if_splits)

lemma random_bytes_result:
  "random_bytes ssl n s = (r, s') \<Longrightarrow> retired s' = retired s \<and>
     (case r of Inl e \<Rightarrow> code_of e = Some backend_failure | Inr out \<Rightarrow> length out = n)"
  using fill_random_result [where ssl = ssl and secret = False and n = n and s = s]
  by (auto simp: random_bytes_def mreturn_def split: if_splits)

subsection \<open>Initialisation and associated data\<close>

definition view_at :: "bool \<Rightarrow> bytes \<Rightarrow> bytes \<Rightarrow> bytes \<Rightarrow> bytes \<Rightarrow> gcm_view" where
  "view_at enc key iv aad ct = \<lparr>encrypting = enc, ivlen = int (length iv), key_iv = Some (key, iv),
     aad_seen = aad, ct_seen = ct, expected_tag = None\<rparr>"

lemma view_at_simps [simp]:
  "encrypting (view_at enc key iv aad ct) = enc"
  "key_iv (view_at enc key iv aad ct) = Some (key, iv)"
  "aad_seen (view_at enc key iv aad ct) = aad"
  "ct_seen (view_at enc key iv aad ct) = ct"
  "expected_tag (view_at enc key iv aad ct) = None"
  "(view_at enc key iv aad ct)\<lparr>aad_seen := aad'\<rparr> = view_at enc key iv aad' ct"
  "(view_at enc key iv aad ct)\<lparr>ct_seen := ct'\<rparr> = view_at enc key iv aad ct'"
  "view_tag alg (view_at enc key iv aad ct) = Some (auth_tag alg key iv aad ct)"
  "view_tag alg ((view_at enc key iv aad ct)\<lparr>expected_tag := t\<rparr>) = Some (auth_tag alg key iv aad ct)"
  by (simp_all add: view_at_def view_tag.simps)

lemma view_keyed_eq: "view_keyed enc key iv = view_at enc key iv [] []"
  by (simp add: view_keyed_def view_at_def)

lemma initialize_encrypt_spec:
  assumes "gcm_provider ssl view alg" and "length key = 32"
    and "initialize_encrypt_context ssl key nonce c = (Inr u, c')"
  shows "view c' = view_at True key nonce [] []"
  using assms(3) provider_init [OF assms(1)] assms(2)
  by (auto simp: initialize_encrypt_context_def view_keyed_eq split: prod.splits if_splits)

lemma initialize_decrypt_spec:
  assumes "gcm_provider ssl view alg" and "length key = 32"
    and "initialize_decrypt_context ssl key nonce c = (Inr u, c')"
  shows "view c' = view_at False key nonce [] []"
  using assms(3) provider_init [OF assms(1)] assms(2)
  by (auto simp: initialize_decrypt_context_def view_keyed_eq split: prod.splits if_splits)

lemma update_aad_spec:
  assumes "gcm_provider ssl view alg" and "update_aad_impl ssl aad c = (Inr u, c')"
    and "view c = view_at enc key iv a []"
  shows "view c' = view_at enc key iv (a @ aad) []"
  using assms(2,3) provider_init(6) [OF assms(1)]
  by (auto simp: update_aad_impl_def int_size_Inr_iff split: prod.splits if_splits sum.splits)

text \<open>An error of these helpers is a backend failure or a size that does not fit an \<open>int\<close>.\<close>

definition plain_error :: "exn \<Rightarrow> bool" where
  "plain_error e \<longleftrightarrow> code_of e \<in> {Some backend_failure, Some invalid_input}"

lemma plain_error_failures [simp]:
  "plain_error gcm_failure" "plain_error tag_size_failure"
  "plain_error (Error backend_failure msg)" "plain_error (Error invalid_input msg)"
  by (simp_all add: plain_error_def gcm_failure_def tag_size_failure_def)

lemma plain_error_init:
  "initialize_encrypt_context ssl key nonce c = (Inl e, c') \<Longrightarrow> e = gcm_failure"
  "initialize_decrypt_context ssl key nonce c = (Inl e, c') \<Longrightarrow> e = gcm_failure"
  by (auto simp: initialize_encrypt_context_def initialize_decrypt_context_def
      split: prod.splits if_splits)

lemma plain_error_update_aad: "update_aad_impl ssl aad c = (Inl e, c') \<Longrightarrow> plain_error e"
  by (auto simp: update_aad_impl_def int_size_Inl_iff split: prod.splits if_splits sum.splits)

lemma make_context_result:
  "make_aes256_gcm_context ssl s = (r, s') \<Longrightarrow>
     retired s' = retired s \<and> (\<forall>e. r = Inl e \<longrightarrow> e = gcm_failure)"
  by (auto simp: make_aes256_gcm_context_def mbind_def mreturn_def mthrow_def
      split: prod.splits sum.splits option.splits if_splits dest: on_provider_retired)

text \<open>With a healthy provider the helpers succeed.\<close>

lemma healthy_calls:
  assumes "gcm_healthy ssl view alg"
  shows "\<exists>c s'. make_aes256_gcm_context ssl s = (Inr c, s')"
    and "\<exists>c'. initialize_encrypt_context ssl key nonce c = (Inr (), c')"
    and "\<exists>c'. initialize_decrypt_context ssl key nonce c = (Inr (), c')"
    and "length aad \<le> int_max \<Longrightarrow> \<exists>c'. update_aad_impl ssl aad c = (Inr (), c')"
proof -
  note h = assms [unfolded gcm_healthy_def]
  show "\<exists>c s'. make_aes256_gcm_context ssl s = (Inr c, s')"
  proof -
    obtain c o' where "EVP_CIPHER_CTX_new ssl (provider s) = (Some c, o')"
      using h by (metis option.exhaust prod.exhaust_sel)
    then show ?thesis
      using h by (auto simp: make_aes256_gcm_context_def mbind_def on_provider_def mreturn_def)
  qed
  show "\<exists>c'. initialize_encrypt_context ssl key nonce c = (Inr (), c')"
    and "\<exists>c'. initialize_decrypt_context ssl key nonce c = (Inr (), c')"
    using h by (auto simp: initialize_encrypt_context_def initialize_decrypt_context_def
        split: prod.splits if_splits) (metis fst_conv)+
  show "length aad \<le> int_max \<Longrightarrow> \<exists>c'. update_aad_impl ssl aad c = (Inr (), c')"
    using h by (auto simp: update_aad_impl_def int_size_def split: prod.splits) (metis fst_conv)
qed

subsection \<open>Streaming contexts\<close>

lemma encrypt_context_spec:
  assumes "gcm_provider ssl view alg" and "length key = 32"
    and "Aes256GcmEncryptContext ssl key nonce s = (Inr x, s')"
  shows "\<exists>c. x = Some c \<and> view c = view_at True key nonce [] []"
proof -
  from assms(3) obtain c t where t:
    "(case initialize_encrypt_context ssl key nonce c of
       (Inl e, _) \<Rightarrow> mthrow e | (Inr _, c') \<Rightarrow> mreturn (Some c')) t = (Inr x, s')"
    unfolding Aes256GcmEncryptContext_def by (rule mbind_InrE)
  obtain r c' where i: "initialize_encrypt_context ssl key nonce c = (r, c')" by fastforce
  with t obtain u where "r = Inr u" and "x = Some c'"
    by (cases r) (simp_all add: mreturn_def mthrow_def)
  with initialize_encrypt_spec [OF assms(1,2)] i show ?thesis by blast
qed

lemma decrypt_context_spec:
  assumes "gcm_provider ssl view alg" and "length key = 32"
    and "Aes256GcmDecryptContext ssl key nonce s = (Inr x, s')"
  shows "\<exists>c. x = Some c \<and> view c = view_at False key nonce [] []"
proof -
  from assms(3) obtain c t where t:
    "(case initialize_decrypt_context ssl key nonce c of
       (Inl e, _) \<Rightarrow> mthrow e | (Inr _, c') \<Rightarrow> mreturn (Some c')) t = (Inr x, s')"
    unfolding Aes256GcmDecryptContext_def by (rule mbind_InrE)
  obtain r c' where i: "initialize_decrypt_context ssl key nonce c = (r, c')" by fastforce
  with t obtain u where "r = Inr u" and "x = Some c'"
    by (cases r) (simp_all add: mreturn_def mthrow_def)
  with initialize_decrypt_spec [OF assms(1,2)] i show ?thesis by blast
qed

lemma context_update_aad_spec:
  assumes "gcm_provider ssl view alg"
    and "context_update_aad ssl aad (Some c, s) = (Inr u, (x, s'))"
    and "view c = view_at enc key iv a []"
  shows "s' = s \<and> (\<exists>c'. x = Some c' \<and> view c' = view_at enc key iv (a @ aad) [])"
  using assms(2) update_aad_spec [OF assms(1) _ assms(3)]
  by (auto simp: context_update_aad_def with_impl_def split: prod.splits)

lemma encrypt_update_spec:
  assumes "gcm_provider ssl view alg"
    and "encrypt_context_update ssl p (Some c, s) = (Inr out, (x, s'))"
    and "view c = view_at True key iv aad ct"
  shows "s' = s \<and> out = stream_xor (keystream alg key iv) (length ct) p \<and>
    (\<exists>c'. x = Some c' \<and> view c' = view_at True key iv aad (ct @ out))"
  using assms(2,3) provider_encrypt(1) [OF assms(1), of c]
  by (auto simp: encrypt_context_update_def with_impl_def int_size_Inr_iff
      split: prod.splits if_splits sum.splits) (use assms(3) in fastforce)+

lemma encrypt_finalize_spec:
  assumes "gcm_provider ssl view alg"
    and "encrypt_context_finalize ssl (Some c, s) = (Inr tag, (x, s'))"
    and "view c = view_at True key iv aad ct"
  shows "s' = s \<and> x = None \<and> tag = auth_tag alg key iv aad ct"
proof -
  from assms(2) obtain c1 n out c2 tag' where
    fin: "EVP_EncryptFinal_ex ssl c = ((1, n, out), c1)" and
    get: "EVP_CIPHER_CTX_ctrl ssl c1 (GCM_GET_TAG 16) = ((1, tag'), c2)" and
    r: "tag = fit 16 tag'" "x = None" "s' = s"
    by (auto simp: encrypt_context_finalize_def with_impl_def
        split: prod.splits if_splits sum.splits)
  have c1: "view c1 = view_at True key iv aad ct"
    using provider_encrypt(2) [OF assms(1) _ fin] assms(3) by simp
  then have "tag' = auth_tag alg key iv aad ct"
    using provider_encrypt(3) [OF assms(1) _ get] by simp
  with r provider_tag_length(1) [OF assms(1)] show ?thesis by simp
qed

lemma decrypt_update_spec:
  assumes "gcm_provider ssl view alg"
    and "decrypt_context_update ssl ct' (Some c, s) = (Inr out, (x, s'))"
    and "view c = view_at False key iv aad ct"
  shows "s' = s \<and> out = stream_xor (keystream alg key iv) (length ct) ct' \<and>
    (\<exists>c'. x = Some c' \<and> view c' = view_at False key iv aad (ct @ ct'))"
  using assms(2,3) provider_decrypt(1) [OF assms(1), of c]
  by (auto simp: decrypt_context_update_def int_size_Inr_iff Let_def
      split: prod.splits if_splits sum.splits) (use assms(3) in fastforce)+

lemma decrypt_finalize_spec:
  assumes "gcm_provider ssl view alg"
    and "decrypt_context_finalize ssl tag (Some c, s) = (Inr out, (x, s'))"
    and "view c = view_at False key iv aad ct"
  shows "s' = s \<and> x = None \<and> out = [] \<and> length tag = 16 \<and> tag = auth_tag alg key iv aad ct"
proof -
  from assms(2) obtain o1 c1 n o2 c2 where
    set_tag: "EVP_CIPHER_CTX_ctrl ssl c (GCM_SET_TAG tag) = ((1, o1), c1)" and
    fin: "EVP_DecryptFinal_ex ssl c1 = ((1, n, o2), c2)" and
    r: "out = take (nat n) (fit 1 o2)" "x = None" "s' = s" "length tag = 16"
    by (auto simp: decrypt_context_finalize_def split: prod.splits if_splits)
  have c1: "view c1 = (view_at False key iv aad ct)\<lparr>expected_tag := Some tag\<rparr>"
    using provider_decrypt(2) [OF assms(1) _ set_tag] assms(3) by simp
  then have "\<not> encrypting (view c1)" by (simp add: view_at_def)
  from provider_decrypt(3) [OF assms(1) this fin] c1 r show ?thesis by simp
qed

subsection \<open>One-shot operations\<close>

text \<open>Whatever the provider does, the results have the sizes the code allocates.\<close>

lemma aes256_gcm_encrypt_sizes:
  assumes "aes256_gcm_encrypt ssl plaintext key nonce aad s = (Inr r, s')"
  shows "length (result_ciphertext r) = length plaintext" and "length (result_tag r) = 16"
    and "length plaintext \<le> int_max"
  using assms
  by (auto simp: aes256_gcm_encrypt_def mbind_Inr_iff mlift_def mreturn_Inr_iff Let_def
      int_size_Inr_iff returned_iffs simp del: length_greater_0_conv)

lemma aes256_gcm_encrypt_spec:
  assumes prov: "gcm_provider ssl view alg" and key: "length key = 32"
    and run: "aes256_gcm_encrypt ssl plaintext key nonce aad s = (Inr r, s')"
  shows "result_ciphertext r = gcm_ciphertext alg key nonce plaintext"
    and "result_tag r = gcm_tag alg key nonce aad plaintext"
    and "retired s' = retired s"
proof -
  from run obtain c c1 c2 c3 c4 c5 n m out fo to where
    ctx: "make_aes256_gcm_context ssl s = (Inr c, s')" and
    init: "initialize_encrypt_context ssl key nonce c = (Inr (), c1)" and
    upd_aad: "update_aad_impl ssl aad c1 = (Inr (), c2)" and
    upd: "(if length plaintext > 0 then EVP_EncryptUpdate ssl c2 plaintext else ((1, 0, []), c2))
      = ((1, n, out), c3)" and
    fin: "EVP_EncryptFinal_ex ssl c3 = ((1, m, fo), c4)" and
    get: "EVP_CIPHER_CTX_ctrl ssl c4 (GCM_GET_TAG 16) = ((1, to), c5)" and
    r: "r = \<lparr>result_ciphertext = (if fit (length plaintext) out = [] then fit (length plaintext) out
              else overlay (fit (length plaintext) out) (nat n) fo), result_tag = fit 16 to\<rparr>"
    by (auto simp: aes256_gcm_encrypt_def mbind_Inr_iff mlift_def mreturn_Inr_iff Let_def
        int_size_Inr_iff returned_iffs simp del: length_greater_0_conv)
  have v2: "view c2 = view_at True key nonce aad []"
    using update_aad_spec [OF prov upd_aad] initialize_encrypt_spec [OF prov key init] by simp
  have out: "out = gcm_ciphertext alg key nonce plaintext \<and>
      view c3 = view_at True key nonce aad (gcm_ciphertext alg key nonce plaintext)"
  proof (cases "plaintext = []")
    case True
    with upd v2 show ?thesis by simp
  next
    case False
    with upd have "EVP_EncryptUpdate ssl c2 plaintext = ((1, n, out), c3)" by simp
    from provider_encrypt(1) [OF prov _ this] v2 show ?thesis by (simp add: gcm_ciphertext_def)
  qed
  have v4: "fo = [] \<and> view c4 = view c3"
    using provider_encrypt(2) [OF prov _ fin] out by simp
  have "to = auth_tag alg key nonce aad (gcm_ciphertext alg key nonce plaintext)"
    using provider_encrypt(3) [OF prov _ get] v4 out by simp
  with r out v4 provider_tag_length(1) [OF prov]
  show "result_ciphertext r = gcm_ciphertext alg key nonce plaintext"
    and "result_tag r = gcm_tag alg key nonce aad plaintext"
    by (simp_all add: gcm_tag_def)
  show "retired s' = retired s" using make_context_result [OF ctx] by simp
qed

text \<open>The run of the one-shot decryption up to its final call.\<close>

lemma release_and_throw_Inr [simp]: "release_and_throw buf e s = (Inr x, s') \<longleftrightarrow> False"
  by (simp add: release_and_throw_def)

lemma case_release_Inr_iff:
  "(case r of (Inl e, c) \<Rightarrow> release_and_throw buf e | (Inr u, c) \<Rightarrow> f u c) t = (Inr x, s') \<longleftrightarrow>
     (\<exists>u c. r = (Inr u, c) \<and> f u c t = (Inr x, s'))"
  "(if b then release_and_throw buf e else m) t = (Inr x, s') \<longleftrightarrow> \<not> b \<and> m t = (Inr x, s')"
  by (auto split: prod.split sum.split)

lemma aes256_gcm_decrypt_spec:
  assumes prov: "gcm_provider ssl view alg" and key: "length key = 32"
    and run: "aes256_gcm_decrypt ssl ct tag key nonce aad s = (Inr p, s')"
  shows "length ct \<le> int_max" and "tag = auth_tag alg key nonce aad ct"
    and "p = gcm_ciphertext alg key nonce ct" and "retired s' = retired s"
proof -
  from run obtain c c1 c2 c3 c4 c5 n m out fo o1 where
    tag: "length tag = 16" and sz: "length ct \<le> int_max" and
    ctx: "make_aes256_gcm_context ssl s = (Inr c, s')" and
    init: "initialize_decrypt_context ssl key nonce c = (Inr (), c1)" and
    upd_aad: "update_aad_impl ssl aad c1 = (Inr (), c2)" and
    upd: "(if length ct > 0 then EVP_DecryptUpdate ssl c2 ct else ((1, 0, []), c2)) = ((1, n, out), c3)" and
    set_tag: "EVP_CIPHER_CTX_ctrl ssl c3 (GCM_SET_TAG tag) = ((1, o1), c4)" and
    fin: "EVP_DecryptFinal_ex ssl c4 = ((1, m, fo), c5)" and
    p: "p = (if ct = [] then [] else overlay (fit (length ct) out) (nat n) fo)"
    by (auto simp: aes256_gcm_decrypt_def mbind_Inr_iff mlift_def mreturn_Inr_iff Let_def
        mon_error_Inr_iff int_size_Inr_iff returned_iffs case_release_Inr_iff
        simp del: length_greater_0_conv)
  have v2: "view c2 = view_at False key nonce aad []"
    using update_aad_spec [OF prov upd_aad] initialize_decrypt_spec [OF prov key init] by simp
  have out: "out = gcm_ciphertext alg key nonce ct \<and> view c3 = view_at False key nonce aad ct"
  proof (cases "ct = []")
    case True
    with upd v2 show ?thesis by simp
  next
    case False
    with upd have "EVP_DecryptUpdate ssl c2 ct = ((1, n, out), c3)" by simp
    from provider_decrypt(1) [OF prov _ this] v2 show ?thesis by (simp add: gcm_ciphertext_def)
  qed
  have c4: "view c4 = (view_at False key nonce aad ct)\<lparr>expected_tag := Some tag\<rparr>"
    using provider_decrypt(2) [OF prov _ set_tag] out by simp
  then have "\<not> encrypting (view c4)" by (simp add: view_at_def)
  from provider_decrypt(3) [OF prov this fin] c4
  have "fo = []" and tag: "tag = auth_tag alg key nonce aad ct" by simp_all
  then show "p = gcm_ciphertext alg key nonce ct" using p out by simp
  show "tag = auth_tag alg key nonce aad ct" by (rule tag)
  show "length ct \<le> int_max" by (rule sz)
  show "retired s' = retired s" using make_context_result [OF ctx] by simp
qed

subsection \<open>With a healthy provider nothing else fails\<close>

lemma healthy_update:
  assumes "gcm_provider ssl view alg" and "gcm_healthy ssl view alg"
  shows "view c = view_at True key iv aad ct \<Longrightarrow> \<exists>c'.
      EVP_EncryptUpdate ssl c p = ((1, int (length p), stream_xor (keystream alg key iv) (length ct) p), c') \<and>
      view c' = view_at True key iv aad (ct @ stream_xor (keystream alg key iv) (length ct) p)"
    and "view c = view_at False key iv aad ct \<Longrightarrow> \<exists>c'.
      EVP_DecryptUpdate ssl c d = ((1, int (length d), stream_xor (keystream alg key iv) (length ct) d), c') \<and>
      view c' = view_at False key iv aad (ct @ d)"
proof -
  have "fst (fst (EVP_EncryptUpdate ssl c p)) = 1" "fst (fst (EVP_DecryptUpdate ssl c d)) = 1"
    using assms(2) unfolding gcm_healthy_def by blast+
  then obtain n out c1 n' out' c2 where
    e: "EVP_EncryptUpdate ssl c p = ((1, n, out), c1)" and
    d: "EVP_DecryptUpdate ssl c d = ((1, n', out'), c2)"
    by (metis prod.exhaust_sel)
  show "view c = view_at True key iv aad ct \<Longrightarrow> \<exists>c'.
      EVP_EncryptUpdate ssl c p = ((1, int (length p), stream_xor (keystream alg key iv) (length ct) p), c') \<and>
      view c' = view_at True key iv aad (ct @ stream_xor (keystream alg key iv) (length ct) p)"
    using provider_encrypt(1) [OF assms(1) _ e] e by simp
  show "view c = view_at False key iv aad ct \<Longrightarrow> \<exists>c'.
      EVP_DecryptUpdate ssl c d = ((1, int (length d), stream_xor (keystream alg key iv) (length ct) d), c') \<and>
      view c' = view_at False key iv aad (ct @ d)"
    using provider_decrypt(1) [OF assms(1) _ d] d by simp
qed

lemma healthy_encrypt_final:
  assumes "gcm_provider ssl view alg" and "gcm_healthy ssl view alg"
    and "view c = view_at True key iv aad ct"
  shows "\<exists>c1 c2. EVP_EncryptFinal_ex ssl c = ((1, 0, []), c1) \<and>
    EVP_CIPHER_CTX_ctrl ssl c1 (GCM_GET_TAG 16) = ((1, auth_tag alg key iv aad ct), c2)"
proof -
  have "fst (fst (EVP_EncryptFinal_ex ssl c)) = 1"
    using assms(2) unfolding gcm_healthy_def by blast
  then obtain n out c1 where fin: "EVP_EncryptFinal_ex ssl c = ((1, n, out), c1)"
    by (metis prod.exhaust_sel)
  with provider_encrypt(2) [OF assms(1) _ fin] assms(3)
  have fin: "EVP_EncryptFinal_ex ssl c = ((1, 0, []), c1)" and c1: "view c1 = view_at True key iv aad ct"
    by simp_all
  have "fst (fst (EVP_CIPHER_CTX_ctrl ssl c1 (GCM_GET_TAG 16))) = 1"
    using assms(2) unfolding gcm_healthy_def by blast
  then obtain t c2 where get: "EVP_CIPHER_CTX_ctrl ssl c1 (GCM_GET_TAG 16) = ((1, t), c2)"
    by (metis prod.exhaust_sel)
  from provider_encrypt(3) [OF assms(1) _ get] c1 have "t = auth_tag alg key iv aad ct" by simp
  with fin get show ?thesis by blast
qed

text \<open>The final decryption call reports success exactly when the tag matches.\<close>

lemma healthy_decrypt_final:
  assumes "gcm_provider ssl view alg" and "gcm_healthy ssl view alg"
    and "view c = view_at False key iv aad ct"
  shows "\<exists>o1 c1 ok n out c2. EVP_CIPHER_CTX_ctrl ssl c (GCM_SET_TAG tag) = ((1, o1), c1) \<and>
    EVP_DecryptFinal_ex ssl c1 = ((ok, n, out), c2) \<and>
    (if tag = auth_tag alg key iv aad ct then ok = 1 \<and> n = 0 \<and> out = [] else ok \<noteq> 1)"
proof -
  have "fst (fst (EVP_CIPHER_CTX_ctrl ssl c (GCM_SET_TAG tag))) = 1"
    using assms(2) unfolding gcm_healthy_def by blast
  then obtain o1 c1 where set_tag: "EVP_CIPHER_CTX_ctrl ssl c (GCM_SET_TAG tag) = ((1, o1), c1)"
    by (metis prod.exhaust_sel)
  have c1: "view c1 = (view_at False key iv aad ct)\<lparr>expected_tag := Some tag\<rparr>"
    using provider_decrypt(2) [OF assms(1) _ set_tag] assms(3) by simp
  then have dec: "\<not> encrypting (view c1)" by (simp add: view_at_def)
  obtain ok n out c2 where fin: "EVP_DecryptFinal_ex ssl c1 = ((ok, n, out), c2)"
    by (metis prod.exhaust_sel)
  have ok: "tag = auth_tag alg key iv aad ct \<Longrightarrow> ok = 1"
    using assms(2) c1 fin unfolding gcm_healthy_def
    by (metis fst_conv gcm_view.select_convs(6) gcm_view.surjective gcm_view.update_convs(6)
        view_at_simps(9))
  have "ok = 1 \<Longrightarrow> n = 0 \<and> out = [] \<and> tag = auth_tag alg key iv aad ct"
    using provider_decrypt(3) [OF assms(1) dec] fin c1 by simp
  with ok set_tag fin show ?thesis by auto
qed

lemma aes256_gcm_encrypt_returns:
  assumes prov: "gcm_provider ssl view alg" and healthy: "gcm_healthy ssl view alg"
    and key: "length key = 32" and szs: "length p \<le> int_max" "length aad \<le> int_max"
  shows "\<exists>s'. aes256_gcm_encrypt ssl p key nonce aad s =
    (Inr \<lparr>result_ciphertext = gcm_ciphertext alg key nonce p, result_tag = gcm_tag alg key nonce aad p\<rparr>, s')
    \<and> retired s' = retired s"
proof -
  note calls = healthy_calls [OF healthy]
  obtain c s1 where c: "make_aes256_gcm_context ssl s = (Inr c, s1)" using calls(1) by blast
  obtain c1 where c1: "initialize_encrypt_context ssl key nonce c = (Inr (), c1)" using calls(2) by blast
  obtain c2 where c2: "update_aad_impl ssl aad c1 = (Inr (), c2)" using calls(4) szs(2) by blast
  have v2: "view c2 = view_at True key nonce aad []"
    using update_aad_spec [OF prov c2] initialize_encrypt_spec [OF prov key c1] by simp
  obtain c3 where
    c3: "(if int (length p) > 0 then EVP_EncryptUpdate ssl c2 p else ((1, 0, []), c2)) =
      ((1, int (length p), gcm_ciphertext alg key nonce p), c3)" and
    v3: "view c3 = view_at True key nonce aad (gcm_ciphertext alg key nonce p)"
    using healthy_update(1) [OF prov healthy v2, of p] v2
    by (cases "p = []") (auto simp: gcm_ciphertext_def)
  obtain c4 c5 where "EVP_EncryptFinal_ex ssl c3 = ((1, 0, []), c4)" and
    "EVP_CIPHER_CTX_ctrl ssl c4 (GCM_GET_TAG 16) = ((1, gcm_tag alg key nonce aad p), c5)"
    using healthy_encrypt_final [OF prov healthy v3] by (auto simp: gcm_tag_def)
  then have "aes256_gcm_encrypt ssl p key nonce aad s =
    (Inr \<lparr>result_ciphertext = gcm_ciphertext alg key nonce p, result_tag = gcm_tag alg key nonce aad p\<rparr>, s1)"
    using szs(1)
    by (simp add: aes256_gcm_encrypt_def int_size_def mlift_def mreturn_def mbind_def Let_def c c1 c2 c3
        provider_tag_length [OF prov] del: of_nat_0_less_iff)
  with make_context_result [OF c] show ?thesis by blast
qed

text \<open>
  Decryption under a healthy provider: the plaintext when the tag is right; otherwise an
  authentication failure, and the buffer it releases has been wiped.
\<close>

lemma aes256_gcm_decrypt_returns:
  assumes prov: "gcm_provider ssl view alg" and healthy: "gcm_healthy ssl view alg"
    and key: "length key = 32" and szs: "length ct \<le> int_max" "length aad \<le> int_max"
    and tag: "length tag = 16"
  shows "\<exists>s'. aes256_gcm_decrypt ssl ct tag key nonce aad s =
    (if tag = auth_tag alg key nonce aad ct then (Inr (gcm_ciphertext alg key nonce ct), s')
     else (Inl authentication_failure, s')) \<and> releases_wiped s s'"
proof -
  note calls = healthy_calls [OF healthy]
  obtain c s1 where c: "make_aes256_gcm_context ssl s = (Inr c, s1)" using calls(1) by blast
  then have m: "mon_error (make_aes256_gcm_context ssl) f s = (Inr c, s1)" for f
    by (simp add: mon_error_Inr_iff)
  obtain c1 where c1: "initialize_decrypt_context ssl key nonce c = (Inr (), c1)" using calls(3) by blast
  obtain c2 where c2: "update_aad_impl ssl aad c1 = (Inr (), c2)" using calls(4) szs(2) by blast
  have v2: "view c2 = view_at False key nonce aad []"
    using update_aad_spec [OF prov c2] initialize_decrypt_spec [OF prov key c1] by simp
  obtain c3 where
    c3: "(if int (length ct) > 0 then EVP_DecryptUpdate ssl c2 ct else ((1, 0, []), c2)) =
      ((1, int (length ct), gcm_ciphertext alg key nonce ct), c3)" and
    v3: "view c3 = view_at False key nonce aad ct"
    using healthy_update(2) [OF prov healthy v2, of ct] v2
    by (cases "ct = []") (auto simp: gcm_ciphertext_def)
  obtain o1 c4 ok n out c5 where c4: "EVP_CIPHER_CTX_ctrl ssl c3 (GCM_SET_TAG tag) = ((1, o1), c4)" and
    c5: "EVP_DecryptFinal_ex ssl c4 = ((ok, n, out), c5)" and
    ok: "if tag = auth_tag alg key nonce aad ct then ok = 1 \<and> n = 0 \<and> out = [] else ok \<noteq> 1"
    using healthy_decrypt_final [OF prov healthy v3, of tag] by blast
  have s1: "releases_wiped s s1"
    using make_context_result [OF c] by (simp add: releases_wiped_same)
  have small: "(int_max < length ct) = False" using szs(1) by simp
  have run: "aes256_gcm_decrypt ssl ct tag key nonce aad s =
      (if ok \<noteq> 1
       then (Inl authentication_failure, retire (secure_wipe (overlay (gcm_ciphertext alg key nonce ct) (length ct) out)) s1)
       else if n \<noteq> 0
       then (Inl gcm_failure, retire (overlay (gcm_ciphertext alg key nonce ct) (length ct) out) s1)
       else (Inr (overlay (gcm_ciphertext alg key nonce ct) (length ct) out), s1))"
    using c3 by (cases "ct = []") (simp_all add: aes256_gcm_decrypt_def int_size_def mlift_def
        mreturn_def mbind_def Let_def release_and_throw_def m c1 c2 c4 c5 tag small)
  show ?thesis
  proof (cases "tag = auth_tag alg key nonce aad ct")
    case True
    with ok run have "aes256_gcm_decrypt ssl ct tag key nonce aad s =
        (Inr (gcm_ciphertext alg key nonce ct), s1)" by simp
    with True s1 show ?thesis by auto
  next
    case False
    with ok run obtain buf where "aes256_gcm_decrypt ssl ct tag key nonce aad s =
        (Inl authentication_failure, retire (secure_wipe buf) s1)" by auto
    with False s1 show ?thesis by (auto intro: releases_wiped_retire)
  qed
qed

subsection \<open>Streaming contexts: errors and totality\<close>

text \<open>
  For any provider: how the member functions of a context that is not null may end. None of
  them meets a null pointer, and only a failed decryption update releases a buffer.
\<close>

lemma encrypt_context_result:
  "Aes256GcmEncryptContext ssl key nonce s = (r, s') \<Longrightarrow>
     retired s' = retired s \<and> (case r of Inl e \<Rightarrow> e = gcm_failure | Inr x \<Rightarrow> x \<noteq> None)"
  using make_context_result [of ssl s] plain_error_init(1)
  by (cases r) (fastforce simp: Aes256GcmEncryptContext_def mbind_def mreturn_def mthrow_def
      split: prod.splits sum.splits)+

lemma decrypt_context_result:
  "Aes256GcmDecryptContext ssl key nonce s = (r, s') \<Longrightarrow>
     retired s' = retired s \<and> (case r of Inl e \<Rightarrow> e = gcm_failure | Inr x \<Rightarrow> x \<noteq> None)"
  using make_context_result [of ssl s] plain_error_init(2)
  by (cases r) (fastforce simp: Aes256GcmDecryptContext_def mbind_def mreturn_def mthrow_def
      split: prod.splits sum.splits)+

lemma context_update_aad_result:
  "context_update_aad ssl aad (Some c, s) = (r, (x, s')) \<Longrightarrow>
     s' = s \<and> x \<noteq> None \<and> (\<forall>e. r = Inl e \<longrightarrow> plain_error e)"
  by (auto simp: context_update_aad_def with_impl_def dest: plain_error_update_aad split: prod.splits)

lemma encrypt_update_result:
  "encrypt_context_update ssl p (Some c, s) = (r, (x, s')) \<Longrightarrow>
     s' = s \<and> x \<noteq> None \<and> (case r of Inl e \<Rightarrow> plain_error e | Inr out \<Rightarrow> length out = length p)"
  by (auto simp: encrypt_context_update_def with_impl_def int_size_def split: prod.splits if_splits)

lemma encrypt_finalize_result:
  "encrypt_context_finalize ssl (Some c, s) = (r, (x, s')) \<Longrightarrow>
     s' = s \<and> (case r of Inl e \<Rightarrow> e = gcm_failure \<and> x \<noteq> None | Inr tag \<Rightarrow> x = None \<and> length tag = 16)"
  by (auto simp: encrypt_context_finalize_def with_impl_def split: prod.splits if_splits sum.splits)

lemma decrypt_update_result:
  "decrypt_context_update ssl ct (Some c, s) = (r, (x, s')) \<Longrightarrow>
     x \<noteq> None \<and> (case r of Inl e \<Rightarrow> plain_error e | Inr out \<Rightarrow> s' = s \<and> length out = length ct)"
  by (auto simp: decrypt_context_update_def int_size_def Let_def split: prod.splits if_splits)

lemma decrypt_finalize_result:
  "decrypt_context_finalize ssl tag (Some c, s) = (r, (x, s')) \<Longrightarrow>
     s' = s \<and> (case r of Inl e \<Rightarrow> plain_error e \<or> e = aead_authentication_failure | Inr out \<Rightarrow> x = None)"
  by (auto simp: decrypt_context_finalize_def split: prod.splits if_splits)

text \<open>With a healthy provider.\<close>

lemma encrypt_context_returns:
  assumes "gcm_provider ssl view alg" and "gcm_healthy ssl view alg" and "length key = 32"
  shows "\<exists>c s'. Aes256GcmEncryptContext ssl key nonce s = (Inr (Some c), s') \<and>
    retired s' = retired s \<and> view c = view_at True key nonce [] []"
proof -
  obtain c s1 where c: "make_aes256_gcm_context ssl s = (Inr c, s1)"
    using healthy_calls(1) [OF assms(2)] by blast
  obtain c1 where c1: "initialize_encrypt_context ssl key nonce c = (Inr (), c1)"
    using healthy_calls(2) [OF assms(2)] by blast
  have "Aes256GcmEncryptContext ssl key nonce s = (Inr (Some c1), s1)"
    by (simp add: Aes256GcmEncryptContext_def mbind_def c c1 mreturn_def)
  with initialize_encrypt_spec [OF assms(1,3) c1] make_context_result [OF c] show ?thesis by auto
qed

lemma decrypt_context_returns:
  assumes "gcm_provider ssl view alg" and "gcm_healthy ssl view alg" and "length key = 32"
  shows "\<exists>c s'. Aes256GcmDecryptContext ssl key nonce s = (Inr (Some c), s') \<and>
    retired s' = retired s \<and> view c = view_at False key nonce [] []"
proof -
  obtain c s1 where c: "make_aes256_gcm_context ssl s = (Inr c, s1)"
    using healthy_calls(1) [OF assms(2)] by blast
  obtain c1 where c1: "initialize_decrypt_context ssl key nonce c = (Inr (), c1)"
    using healthy_calls(3) [OF assms(2)] by blast
  have "Aes256GcmDecryptContext ssl key nonce s = (Inr (Some c1), s1)"
    by (simp add: Aes256GcmDecryptContext_def mbind_def c c1 mreturn_def)
  with initialize_decrypt_spec [OF assms(1,3) c1] make_context_result [OF c] show ?thesis by auto
qed

lemma context_update_aad_returns:
  assumes "gcm_provider ssl view alg" and "gcm_healthy ssl view alg" and "length aad \<le> int_max"
    and "view c = view_at enc key iv a []"
  shows "\<exists>c'. context_update_aad ssl aad (Some c, s) = (Inr (), (Some c', s)) \<and>
    view c' = view_at enc key iv (a @ aad) []"
proof -
  obtain c' where c': "update_aad_impl ssl aad c = (Inr (), c')"
    using healthy_calls(4) [OF assms(2,3)] by blast
  with update_aad_spec [OF assms(1) c' assms(4)] show ?thesis
    by (simp add: context_update_aad_def with_impl_def)
qed

lemma encrypt_update_returns:
  assumes "gcm_provider ssl view alg" and "gcm_healthy ssl view alg" and "length p \<le> int_max"
    and "view c = view_at True key iv aad ct"
  shows "\<exists>c'. encrypt_context_update ssl p (Some c, s) =
      (Inr (stream_xor (keystream alg key iv) (length ct) p), (Some c', s)) \<and>
    view c' = view_at True key iv aad (ct @ stream_xor (keystream alg key iv) (length ct) p)"
  using healthy_update(1) [OF assms(1,2,4), of p] assms(3,4)
  by (cases "p = []") (auto simp: encrypt_context_update_def int_size_def with_impl_def)

lemma encrypt_finalize_returns:
  assumes "gcm_provider ssl view alg" and "gcm_healthy ssl view alg"
    and "view c = view_at True key iv aad ct"
  shows "encrypt_context_finalize ssl (Some c, s) = (Inr (auth_tag alg key iv aad ct), (None, s))"
  using healthy_encrypt_final [OF assms] provider_tag_length(1) [OF assms(1)]
  by (auto simp: encrypt_context_finalize_def with_impl_def)

lemma decrypt_update_returns:
  assumes "gcm_provider ssl view alg" and "gcm_healthy ssl view alg" and "length d \<le> int_max"
    and "view c = view_at False key iv aad ct"
  shows "\<exists>c'. decrypt_context_update ssl d (Some c, s) =
      (Inr (stream_xor (keystream alg key iv) (length ct) d), (Some c', s)) \<and>
    view c' = view_at False key iv aad (ct @ d)"
  using healthy_update(2) [OF assms(1,2,4), of d] assms(3,4)
  by (cases "d = []") (auto simp: decrypt_context_update_def int_size_def)

lemma decrypt_finalize_returns:
  assumes "gcm_provider ssl view alg" and "gcm_healthy ssl view alg"
    and "view c = view_at False key iv aad ct" and "length tag = 16"
  shows "decrypt_context_finalize ssl tag (Some c, s) =
    ((if tag = auth_tag alg key iv aad ct then Inr [] else Inl aead_authentication_failure), (None, s))"
  using healthy_decrypt_final [OF assms(1-3), of tag] assms(4)
  by (auto simp: decrypt_context_finalize_def split: if_splits)

lemma random_bytes_returns:
  assumes "gcm_healthy ssl view alg"
  shows "\<exists>out s'. random_bytes ssl n s = (Inr out, s') \<and> length out = n \<and> retired s' = retired s"
proof -
  have "\<exists>out s'. fill_random ssl False n s = (Inr out, s')"
  proof (induction n arbitrary: s rule: less_induct)
    case (less n)
    show ?case
    proof (cases "n > 0")
      case True
      let ?chunk = "min n int_max"
      have "fst (fst (RAND_bytes ssl ?chunk (provider s))) = 1"
        using assms unfolding gcm_healthy_def by blast
      then obtain bs o' where "RAND_bytes ssl ?chunk (provider s) = ((1, bs), o')"
        by (metis prod.exhaust_sel)
      then have call: "on_provider ((if False then RAND_priv_bytes else RAND_bytes) ssl ?chunk) s =
          (Inr (1, bs) :: (int \<times> bytes) result, s\<lparr>provider := o'\<rparr>)"
        by (simp add: on_provider_def)
      have "n - ?chunk < n" using True by (simp add: int_max_def)
      from less.IH [OF this, of "s\<lparr>provider := o'\<rparr>"] fill_random_step [OF True call]
      show ?thesis by auto
    next
      case False
      then show ?thesis by (simp add: fill_random.simps [of ssl False 0 s])
    qed
  qed
  then show ?thesis
    using fill_random_result [where ssl = ssl and secret = False and n = n and s = s] by (auto simp: random_bytes_def mreturn_def)
qed

subsection \<open>Digest, MAC and key derivation\<close>

lemma key_derivation_results:
  "sha256 ssl input s = (r, s') \<Longrightarrow> retired s' = retired s \<and>
     (case r of Inl e \<Rightarrow> e = sha256_failure | Inr d \<Rightarrow> length d = 32)"
  "hkdf_sha256 ssl km salt info n s = (r', s') \<Longrightarrow> retired s' = retired s \<and>
     (case r' of Inl e \<Rightarrow> e = hkdf_failure | Inr d \<Rightarrow> length d = n)"
  "hmac_sha256 ssl key input s = (r'', s') \<Longrightarrow> retired s' = retired s \<and>
     (case r'' of Inl e \<Rightarrow> e = hmac_failure | Inr d \<Rightarrow> length d = 32)"
  by (auto simp: sha256_def hkdf_sha256_def hmac_sha256_def mbind_def mthrow_def mreturn_def Let_def
      split: prod.splits sum.splits option.splits if_splits dest!: on_provider_retired)

lemma scrypt_key_result:
  "scrypt_key ssl password salt ps s = (r, s') \<Longrightarrow> releases_wiped s s' \<and>
     (case r of Inl e \<Rightarrow> code_of e = Some backend_failure | Inr k \<Rightarrow> length k = 32 \<and> retired s' = retired s)"
  by (auto simp: scrypt_key_def mbind_def mthrow_def mreturn_def mmodify_def
      split: prod.splits sum.splits if_splits dest!: on_provider_retired
      intro: releases_wiped_retire releases_wiped_same)

subsection \<open>Properties\<close>

text \<open>
  Authenticated decryption. When \<open>aes256_gcm_decrypt\<close> returns \<open>p\<close>, the ciphertext and the tag it was
  given are the ones AES-256-GCM assigns to \<open>p\<close> under this key, nonce and associated data, so no
  other ciphertext, tag or associated data can yield plaintext.
\<close>

theorem aes256_gcm_decrypt_authenticates:
  assumes "gcm_provider ssl view alg" and "length key = 32"
    and "aes256_gcm_decrypt ssl ct tag key nonce aad s = (Inr p, s')"
  shows "ct = gcm_ciphertext alg key nonce p \<and> tag = gcm_tag alg key nonce aad p"
  using aes256_gcm_decrypt_spec [OF assms] by (simp add: gcm_tag_def)

lemma aes256_gcm_decrypt_authenticates_witness:
  "gcm_ciphertext toy_alg (replicate 32 1) (replicate 12 2) [7, 8] = [63, 49] \<and>
   gcm_tag toy_alg (replicate 32 1) (replicate 12 2) [5] [7, 8] = replicate 16 183"
proof -
  have "fst (aes256_gcm_decrypt toy_ssl [63, 49] (replicate 16 183) (replicate 32 1) (replicate 12 2) [5]
      \<lparr>provider = 0, retired = []\<rparr>) = Inr [7, 8]"
    by code_simp
  then obtain s' where run: "aes256_gcm_decrypt toy_ssl [63, 49] (replicate 16 183) (replicate 32 1)
      (replicate 12 2) [5] \<lparr>provider = 0, retired = []\<rparr> = (Inr [7, 8], s')"
    by (metis prod.exhaust_sel)
  have "length (replicate 32 (1 :: byte)) = 32" by simp
  from aes256_gcm_decrypt_authenticates [OF toy_provider this run] show ?thesis by simp
qed

end
