(* ===== verification/Codec.thy ===== *)
theory Codec
  imports Errors
begin

section \<open>The interface of an encoder and its decoder\<close>

text \<open>
  Several components of the library are a pair of an encoder and a strict decoder: hex, Base64,
  Base64URL, the big-endian integers, the record headers and the two file headers. They share one
  contract. \<open>valid\<close> is the set of values the encoder is used on, and a decoded value is valid.
  A \<open>codec\<close> decodes what it encodes; a \<open>canonical_codec\<close> moreover accepts nothing else than what
  its encoder writes.
\<close>

locale codec =
  fixes valid :: "'a \<Rightarrow> bool"
    and encode :: "'a \<Rightarrow> exn + 's"
    and decode :: "'s \<Rightarrow> exn + 'a"
  assumes decode_encode: "valid x \<Longrightarrow> encode x = Inr s \<Longrightarrow> decode s = Inr x"
    and decode_valid: "decode s = Inr x \<Longrightarrow> valid x"
begin

lemma encode_injective:
  assumes "valid x" and "valid y" and "encode x = Inr s" and "encode y = Inr s"
  shows "x = y"
proof -
  from assms(1,3) have "decode s = Inr x" by (rule decode_encode)
  moreover from assms(2,4) have "decode s = Inr y" by (rule decode_encode)
  ultimately show ?thesis by simp
qed

lemma rejected_not_encoded:
  assumes "decode s = Inl e" and "valid x"
  shows "encode x \<noteq> Inr s"
  using assms decode_encode by fastforce

end

locale canonical_codec = codec +
  assumes encode_decode: "decode s = Inr x \<Longrightarrow> encode x = Inr s"
begin

lemma decode_iff: "decode s = Inr x \<longleftrightarrow> valid x \<and> encode x = Inr s"
  using decode_encode encode_decode decode_valid by blast

lemma decode_injective: "decode s = Inr x \<Longrightarrow> decode s' = Inr x \<Longrightarrow> s = s'"
  by (auto dest!: encode_decode)

end

end
