(* ===== verification/File_Format.thy ===== *)
theory File_Format
  imports Backend_Correct Codec
begin

section \<open>The sealed file formats\<close>

text \<open>
  \<open>src/file_crypto.cpp\<close> and the constants and structures of \<open>src/file_detail.hpp\<close>. A sealed file is a
  header (\<open>SKF1\<close>, sealed under a key, or \<open>SKP1\<close>, under a password) and a sequence of chunks. A chunk is a
  record header (index, size, final flag), the ciphertext and the tag; its nonce is the nonce prefix
  of the file with the chunk index, its associated data the file header, the record header and the
  associated data of the caller.
\<close>

unbundle bit_operations_syntax

definition kMagic :: bytes where "kMagic = map byte_of_char ''SKF1''"
definition kPasswordMagic :: bytes where "kPasswordMagic = map byte_of_char ''SKP1''"
definition kVersion :: byte where "kVersion = 0x01"
definition kAlgorithm :: byte where "kAlgorithm = 0x01"
definition kPasswordCipherAes256Gcm :: byte where "kPasswordCipherAes256Gcm = 0x01"
definition kPasswordKdfScrypt :: byte where "kPasswordKdfScrypt = 0x01"
definition kPasswordFlagsNone :: byte where "kPasswordFlagsNone = 0x00"
definition kScryptN :: u32 where "kScryptN = 32768"
definition kScryptR :: u32 where "kScryptR = 8"
definition kScryptP :: u32 where "kScryptP = 1"
definition kScryptMaxMemory :: u64 where "kScryptMaxMemory = 64 * 1024 * 1024"

definition kChunkSize :: u32 where "kChunkSize = 1024 * 1024"
definition kHeaderSize :: nat where "kHeaderSize = 4 + 1 + 1 + 4 + 32 + 8"
definition kPasswordHeaderSize :: nat where
  "kPasswordHeaderSize = 4 + 1 + 1 + 1 + 1 + 4 + 32 + 8 + 4 + 4 + 4"
definition kSaltSize :: nat where "kSaltSize = 32"
definition kNoncePrefixSize :: nat where "kNoncePrefixSize = 8"
definition kNonceSize :: nat where "kNonceSize = 12"
definition kTagSize :: nat where "kTagSize = 16"
definition kRecordHeaderSize :: nat where "kRecordHeaderSize = 4 + 4 + 1"
definition kNotFinal :: byte where "kNotFinal = 0x00"
definition kFinal :: byte where "kFinal = 0x01"

definition file_packet_error :: exn where
  "file_packet_error = Error invalid_packet ''Invalid file sealing packet''"

subsection \<open>Big-endian integers\<close>

text \<open>Four bytes stored at a position of a buffer, and read from a view of four bytes.\<close>

definition store_u32_be :: "bytes \<Rightarrow> nat \<Rightarrow> u32 \<Rightarrow> bytes" where
  "store_u32_be output pos value =
     overlay output pos
       [ucast (drop_bit 24 value AND 0xff), ucast (drop_bit 16 value AND 0xff),
        ucast (drop_bit 8 value AND 0xff), ucast (value AND 0xff)]"

definition read_u32_be :: "bytes \<Rightarrow> u32" where
  "read_u32_be input =
     push_bit 24 (ucast (input ! 0)) OR push_bit 16 (ucast (input ! 1)) OR
     push_bit 8 (ucast (input ! 2)) OR ucast (input ! 3)"

text \<open>\<open>data.subspan<pos, n>()\<close>\<close>

definition subspan :: "nat \<Rightarrow> nat \<Rightarrow> bytes \<Rightarrow> bytes" where
  "subspan pos n data = take n (drop pos data)"

subsection \<open>File headers\<close>

record FileHeader =
  fh_serialized :: bytes
  fh_salt :: bytes
  fh_nonce_prefix :: bytes

record PasswordFileHeader =
  ph_serialized :: bytes
  ph_salt :: bytes
  ph_nonce_prefix :: bytes
  ph_scrypt_n :: u32
  ph_scrypt_r :: u32
  ph_scrypt_p :: u32

definition make_header :: "('o, 'c) openssl \<Rightarrow> ('o runtime, exn, FileHeader) action" where
  "make_header ssl =
     (let serialized = overlay (replicate kHeaderSize 0) 0 kMagic;
          serialized = serialized[4 := kVersion, 5 := kAlgorithm];
          serialized = store_u32_be serialized 6 kChunkSize
      in mbind (random_bytes ssl kSaltSize) (\<lambda>salt.
         mbind (random_bytes ssl kNoncePrefixSize) (\<lambda>nonce_prefix.
           let salt = overlay (replicate kSaltSize 0) 0 salt;
               nonce_prefix = overlay (replicate kNoncePrefixSize 0) 0 nonce_prefix
           in mreturn \<lparr>fh_serialized = overlay (overlay serialized 10 salt) 42 nonce_prefix,
                fh_salt = salt, fh_nonce_prefix = nonce_prefix\<rparr>)))"

definition parse_header :: "bytes \<Rightarrow> FileHeader result" where
  "parse_header data =
     (if take 4 data \<noteq> kMagic \<or> data ! 4 \<noteq> kVersion \<or> data ! 5 \<noteq> kAlgorithm then Inl file_packet_error
      else if read_u32_be (subspan 6 4 data) \<noteq> kChunkSize then Inl file_packet_error
      else Inr \<lparr>fh_serialized = data, fh_salt = take 32 (drop 10 data), fh_nonce_prefix = drop 42 data\<rparr>)"

definition make_password_header :: "('o, 'c) openssl \<Rightarrow> ('o runtime, exn, PasswordFileHeader) action" where
  "make_password_header ssl =
     (let serialized = overlay (replicate kPasswordHeaderSize 0) 0 kPasswordMagic;
          serialized = serialized[4 := kVersion, 5 := kPasswordCipherAes256Gcm, 6 := kPasswordKdfScrypt,
            7 := kPasswordFlagsNone];
          serialized = store_u32_be serialized 8 kChunkSize
      in mbind (random_bytes ssl kSaltSize) (\<lambda>salt.
         mbind (random_bytes ssl kNoncePrefixSize) (\<lambda>nonce_prefix.
           let salt = overlay (replicate kSaltSize 0) 0 salt;
               nonce_prefix = overlay (replicate kNoncePrefixSize 0) 0 nonce_prefix;
               serialized = overlay (overlay serialized 12 salt) 44 nonce_prefix;
               serialized = store_u32_be serialized 52 kScryptN;
               serialized = store_u32_be serialized 56 kScryptR;
               serialized = store_u32_be serialized 60 kScryptP
           in mreturn \<lparr>ph_serialized = serialized, ph_salt = salt, ph_nonce_prefix = nonce_prefix,
                ph_scrypt_n = kScryptN, ph_scrypt_r = kScryptR, ph_scrypt_p = kScryptP\<rparr>)))"

definition parse_password_header :: "bytes \<Rightarrow> PasswordFileHeader result" where
  "parse_password_header data =
     (if take 4 data \<noteq> kPasswordMagic \<or> data ! 4 \<noteq> kVersion \<or> data ! 5 \<noteq> kPasswordCipherAes256Gcm \<or>
         data ! 6 \<noteq> kPasswordKdfScrypt \<or> data ! 7 \<noteq> kPasswordFlagsNone then Inl file_packet_error
      else if read_u32_be (subspan 8 4 data) \<noteq> kChunkSize then Inl file_packet_error
      else
        let header = \<lparr>ph_serialized = data, ph_salt = take 32 (drop 12 data),
              ph_nonce_prefix = take 8 (drop 44 data), ph_scrypt_n = read_u32_be (subspan 52 4 data),
              ph_scrypt_r = read_u32_be (subspan 56 4 data), ph_scrypt_p = read_u32_be (subspan 60 4 data)\<rparr>
        in if ph_scrypt_n header \<noteq> kScryptN \<or> ph_scrypt_r header \<noteq> kScryptR \<or> ph_scrypt_p header \<noteq> kScryptP
           then Inl file_packet_error else Inr header)"

subsection \<open>File keys\<close>

definition derive_file_key ::
  "('o, 'c) openssl \<Rightarrow> bytes \<Rightarrow> FileHeader \<Rightarrow> ('o runtime, exn, bytes) action" where
  "derive_file_key ssl master_key header =
     (let info = map byte_of_char ''anosecurekit file sealing v1''
      in mbind (hkdf_sha256 ssl master_key (fh_salt header) info 32) (\<lambda>okm.
           wipe_on_exit okm (mreturn (overlay (replicate 32 0) 0 (take 32 okm)))))"

definition require_non_empty_password :: "bytes \<Rightarrow> unit result" where
  "require_non_empty_password password =
     (if password = [] then Inl (Error invalid_input ''password must not be empty'') else Inr ())"

definition derive_password_file_key ::
  "('o, 'c) openssl \<Rightarrow> bytes \<Rightarrow> PasswordFileHeader \<Rightarrow> ('o runtime, exn, bytes) action" where
  "derive_password_file_key ssl password header =
     mbind (mlift (require_non_empty_password password)) (\<lambda>_.
       scrypt_key ssl password (ph_salt header)
         \<lparr>sp_n = ucast (ph_scrypt_n header), sp_r = ph_scrypt_r header, sp_p = ph_scrypt_p header,
          sp_max_memory = kScryptMaxMemory\<rparr>)"

subsection \<open>Chunks\<close>

record RecordHeader =
  rh_serialized :: bytes
  rh_index :: u32
  rh_plaintext_size :: u32
  rh_final_flag :: byte

definition make_nonce :: "bytes \<Rightarrow> u32 \<Rightarrow> bytes" where
  "make_nonce nonce_prefix chunk_index =
     store_u32_be (overlay (replicate kNonceSize 0) 0 nonce_prefix) kNoncePrefixSize chunk_index"

definition make_record_header :: "u32 \<Rightarrow> u32 \<Rightarrow> byte \<Rightarrow> RecordHeader" where
  "make_record_header index plaintext_size final_flag =
     (let serialized = store_u32_be (replicate kRecordHeaderSize 0) 0 index;
          serialized = store_u32_be serialized 4 plaintext_size
      in \<lparr>rh_serialized = serialized[8 := final_flag], rh_index = index, rh_plaintext_size = plaintext_size,
          rh_final_flag = final_flag\<rparr>)"

definition parse_record_header :: "bytes \<Rightarrow> RecordHeader result" where
  "parse_record_header data =
     (let r = \<lparr>rh_serialized = data, rh_index = read_u32_be (subspan 0 4 data),
            rh_plaintext_size = read_u32_be (subspan 4 4 data), rh_final_flag = data ! 8\<rparr>
      in if rh_final_flag r \<noteq> kNotFinal \<and> rh_final_flag r \<noteq> kFinal then Inl file_packet_error
         else if rh_plaintext_size r > kChunkSize then Inl file_packet_error
         else Inr r)"

definition make_chunk_aad :: "bytes \<Rightarrow> RecordHeader \<Rightarrow> bytes \<Rightarrow> bytes" where
  "make_chunk_aad serialized_header r caller_aad = serialized_header @ rh_serialized r @ caller_aad"

definition encrypt_chunk ::
  "('o, 'c) openssl \<Rightarrow> bytes \<Rightarrow> bytes \<Rightarrow> bytes \<Rightarrow> bytes \<Rightarrow> ('o runtime, exn, bytes \<times> bytes) action" where
  "encrypt_chunk ssl plaintext file_key nonce aad =
     mbind (aes256_gcm_encrypt ssl plaintext file_key nonce aad) (\<lambda>r.
       mreturn (result_ciphertext r, overlay (replicate kTagSize 0) 0 (result_tag r)))"

definition decrypt_chunk ::
  "('o, 'c) openssl \<Rightarrow> bytes \<Rightarrow> bytes \<Rightarrow> bytes \<Rightarrow> bytes \<Rightarrow> bytes \<Rightarrow> ('o runtime, exn, bytes) action" where
  "decrypt_chunk ssl ciphertext tag file_key nonce aad =
     aes256_gcm_decrypt ssl ciphertext tag file_key nonce aad"

subsection \<open>Big-endian integers are a codec\<close>

definition u32_be :: "u32 \<Rightarrow> bytes" where
  "u32_be v = [ucast (drop_bit 24 v AND 0xff), ucast (drop_bit 16 v AND 0xff),
     ucast (drop_bit 8 v AND 0xff), ucast (v AND 0xff)]"

lemma length_u32_be [simp]: "length (u32_be v) = 4"
  by (simp add: u32_be_def)

lemma store_u32_be_eq: "store_u32_be buf pos v = overlay buf pos (u32_be v)"
  by (simp add: store_u32_be_def u32_be_def)

lemma length_store_u32_be [simp]: "length (store_u32_be buf pos v) = length buf"
  by (simp add: store_u32_be_eq)

lemma read_u32_be_u32_be [simp]: "read_u32_be (u32_be v) = v"
proof (rule bit_word_eqI)
  fix n assume n: "n < LENGTH(32)"
  then consider "n < 8" | "8 \<le> n" "n < 16" | "16 \<le> n" "n < 24" | "24 \<le> n" "n < 32"
    by fastforce
  then show "bit (read_u32_be (u32_be v)) n = bit v n"
    by cases (auto simp: read_u32_be_def u32_be_def bit_simps mask_simps)
qed

lemma byte_high_bits:
  "\<not> bit (b :: byte) (8 + n)" "\<not> bit b (16 + n)" "\<not> bit b (24 + n)"
  by (auto dest: bit_imp_le_length)

lemma u32_be_read [simp]:
  assumes "length bs = 4"
  shows "u32_be (read_u32_be bs) = bs"
proof -
  obtain a b c d where bs: "bs = [a, b, c, d]"
    using assms by (auto simp: length_Suc_conv numeral_eq_Suc)
  show ?thesis
    unfolding bs read_u32_be_def u32_be_def
    by (auto intro!: bit_word_eqI simp: bit_simps mask_simps byte_high_bits)
qed

lemma u32_be_inject [simp]: "u32_be v = u32_be w \<longleftrightarrow> v = w"
  by (metis read_u32_be_u32_be)

interpretation u32c: canonical_codec "\<lambda>_. True" "\<lambda>v. Inr (u32_be v)"
  "\<lambda>bs. if length bs = 4 then Inr (read_u32_be bs) else Inl file_packet_error"
  by unfold_locales (auto split: if_splits)

subsection \<open>Record headers\<close>

lemma header_constants [simp]:
  "length kMagic = 4" "length kPasswordMagic = 4" "kHeaderSize = 50" "kPasswordHeaderSize = 64"
  "kSaltSize = 32" "kNoncePrefixSize = 8" "kNonceSize = 12" "kTagSize = 16" "kRecordHeaderSize = 9"
  "unat kChunkSize = 1048576"
  by (simp_all add: kMagic_def kPasswordMagic_def kHeaderSize_def kPasswordHeaderSize_def kSaltSize_def
      kNoncePrefixSize_def kNonceSize_def kTagSize_def kRecordHeaderSize_def kChunkSize_def)

lemma flag_constants [simp]: "kNotFinal = 0" "kFinal = 1"
  by (simp_all add: kNotFinal_def kFinal_def)

definition record_bytes :: "u32 \<Rightarrow> u32 \<Rightarrow> byte \<Rightarrow> bytes" where
  "record_bytes index plaintext_size final_flag = u32_be index @ u32_be plaintext_size @ [final_flag]"

lemma length_record_bytes [simp]: "length (record_bytes i n f) = 9"
  by (simp add: record_bytes_def)

lemma make_record_header_eq:
  "make_record_header i n f =
     \<lparr>rh_serialized = record_bytes i n f, rh_index = i, rh_plaintext_size = n, rh_final_flag = f\<rparr>"
  by (simp add: make_record_header_def record_bytes_def store_u32_be_eq overlay_def u32_be_def)

definition valid_record :: "RecordHeader \<Rightarrow> bool" where
  "valid_record r \<longleftrightarrow> r = make_record_header (rh_index r) (rh_plaintext_size r) (rh_final_flag r) \<and>
     rh_final_flag r \<in> {kNotFinal, kFinal} \<and> rh_plaintext_size r \<le> kChunkSize"

text \<open>A record header as it is read from a stream: nine bytes, then the parser.\<close>

definition decode_record :: "bytes \<Rightarrow> RecordHeader result" where
  "decode_record data =
     (if length data \<noteq> kRecordHeaderSize then Inl file_packet_error else parse_record_header data)"

lemma record_bytes_of_parts:
  assumes "length data = 9"
  shows "record_bytes (read_u32_be (subspan 0 4 data)) (read_u32_be (subspan 4 4 data)) (data ! 8) = data"
proof -
  have "length (subspan 0 4 data) = 4" "length (subspan 4 4 data) = 4"
    using assms by (simp_all add: subspan_def)
  moreover have "[data ! 8] = drop 8 data"
    using assms by (simp add: Cons_nth_drop_Suc [symmetric])
  moreover have "subspan 0 4 data @ subspan 4 4 data @ drop 8 data = data"
    by (simp add: subspan_def) (metis append_take_drop_id drop_drop numeral_plus_numeral semiring_norm(2) semiring_norm(6))
  ultimately show ?thesis by (simp add: record_bytes_def)
qed

lemma parse_record_bytes:
  assumes "f \<in> {kNotFinal, kFinal}" and "n \<le> kChunkSize"
  shows "parse_record_header (record_bytes i n f) = Inr (make_record_header i n f)"
  using assms
  by (auto simp: parse_record_header_def make_record_header_eq record_bytes_def subspan_def nth_append)

lemma decode_record_valid: "decode_record data = Inr r \<Longrightarrow> valid_record r \<and> rh_serialized r = data"
  using record_bytes_of_parts [of data]
  by (auto simp: decode_record_def parse_record_header_def valid_record_def make_record_header_eq
      Let_def split: if_splits)

interpretation recordc: canonical_codec valid_record "\<lambda>r. Inr (rh_serialized r)" decode_record
proof
  fix r s assume r: "valid_record r" and s: "Inr (rh_serialized r) = (Inr s :: bytes result)"
  have "r = make_record_header (rh_index r) (rh_plaintext_size r) (rh_final_flag r)"
    using r by (simp add: valid_record_def)
  then have "s = record_bytes (rh_index r) (rh_plaintext_size r) (rh_final_flag r)"
    using s by (metis RecordHeader.select_convs(1) make_record_header_eq sum.inject(2))
  then show "decode_record s = Inr r"
    using r parse_record_bytes by (simp add: decode_record_def valid_record_def)
qed (use decode_record_valid in blast)+

text \<open>
  Record headers are a canonical encoding. Nine bytes parse to a record exactly when they are what
  \<open>make_record_header\<close> writes for its index, size and flag, the flag is one of the two flags, and the
  size is at most a chunk.
\<close>

theorem record_header_exact:
  "decode_record data = Inr r \<longleftrightarrow>
     r = make_record_header (rh_index r) (rh_plaintext_size r) (rh_final_flag r) \<and> rh_serialized r = data \<and>
     (rh_final_flag r = kNotFinal \<or> rh_final_flag r = kFinal) \<and> unat (rh_plaintext_size r) \<le> 1048576"
  using recordc.decode_iff [of data r] header_constants(10)
  by (auto simp: valid_record_def word_le_nat_alt)

subsection \<open>File headers are codecs\<close>

definition header_bytes :: "bytes \<Rightarrow> bytes \<Rightarrow> bytes" where
  "header_bytes salt nonce_prefix =
     kMagic @ [kVersion, kAlgorithm] @ u32_be kChunkSize @ salt @ nonce_prefix"

definition valid_header :: "FileHeader \<Rightarrow> bool" where
  "valid_header h \<longleftrightarrow> length (fh_salt h) = 32 \<and> length (fh_nonce_prefix h) = 8 \<and>
     fh_serialized h = header_bytes (fh_salt h) (fh_nonce_prefix h)"

definition decode_header :: "bytes \<Rightarrow> FileHeader result" where
  "decode_header data = (if length data \<noteq> kHeaderSize then Inl file_packet_error else parse_header data)"

definition password_header_bytes :: "bytes \<Rightarrow> bytes \<Rightarrow> bytes" where
  "password_header_bytes salt nonce_prefix =
     kPasswordMagic @ [kVersion, kPasswordCipherAes256Gcm, kPasswordKdfScrypt, kPasswordFlagsNone] @
     u32_be kChunkSize @ salt @ nonce_prefix @ u32_be kScryptN @ u32_be kScryptR @ u32_be kScryptP"

definition valid_password_header :: "PasswordFileHeader \<Rightarrow> bool" where
  "valid_password_header h \<longleftrightarrow> length (ph_salt h) = 32 \<and> length (ph_nonce_prefix h) = 8 \<and>
     ph_scrypt_n h = kScryptN \<and> ph_scrypt_r h = kScryptR \<and> ph_scrypt_p h = kScryptP \<and>
     ph_serialized h = password_header_bytes (ph_salt h) (ph_nonce_prefix h)"

definition decode_password_header :: "bytes \<Rightarrow> PasswordFileHeader result" where
  "decode_password_header data =
     (if length data \<noteq> kPasswordHeaderSize then Inl file_packet_error else parse_password_header data)"

lemma length_header_bytes [simp]:
  "length (header_bytes salt np) = 18 - 8 + length salt + length np"
  "length (password_header_bytes salt np) = 24 + length salt + length np"
  by (simp_all add: header_bytes_def password_header_bytes_def)

lemma list_split:
  "k \<le> length xs \<Longrightarrow> xs = take k xs @ drop k xs"
  by simp

text \<open>A buffer of known size as the concatenation of its fields.\<close>

lemma fields:
  "xs = take 4 xs @ subspan 4 k xs @ drop (4 + k) xs"
  "drop n xs = subspan n k xs @ drop (n + k) xs"
proof -
  show "drop n xs = subspan n k xs @ drop (n + k) xs" for n k
    unfolding subspan_def by (metis add.commute append_take_drop_id drop_drop)
  from this [of 4 k] show "xs = take 4 xs @ subspan 4 k xs @ drop (4 + k) xs"
    by (metis append_take_drop_id)
qed

lemma length_subspan [simp]: "pos + n \<le> length xs \<Longrightarrow> length (subspan pos n xs) = n"
  by (simp add: subspan_def)

lemma subspan_append:
  "length xs \<le> pos \<Longrightarrow> subspan pos n (xs @ ys) = subspan (pos - length xs) n ys"
  "pos + n \<le> length xs \<Longrightarrow> subspan pos n (xs @ ys) = subspan pos n xs"
  by (simp_all add: subspan_def)

lemma subspan_all: "length xs = n \<Longrightarrow> subspan 0 n (xs @ ys) = xs"
  by (simp add: subspan_def)

lemma subspan_2: "6 \<le> length xs \<Longrightarrow> subspan 4 2 xs = [xs ! 4, xs ! 5]"
  by (simp add: subspan_def Cons_nth_drop_Suc [symmetric] numeral_eq_Suc)

lemma subspan_4: "8 \<le> length xs \<Longrightarrow> subspan 4 4 xs = [xs ! 4, xs ! 5, xs ! 6, xs ! 7]"
  by (simp add: subspan_def Cons_nth_drop_Suc [symmetric] numeral_eq_Suc)

lemma parse_header_bytes:
  assumes "length salt = 32" and "length np = 8"
  shows "parse_header (header_bytes salt np) =
    Inr \<lparr>fh_serialized = header_bytes salt np, fh_salt = salt, fh_nonce_prefix = np\<rparr>"
  using assms
  by (simp add: parse_header_def header_bytes_def subspan_def nth_append)

lemma decode_header_valid:
  assumes "decode_header data = Inr h"
  shows "valid_header h \<and> fh_serialized h = data"
proof -
  from assms have len: "length data = 50" and magic: "take 4 data = kMagic"
    and flags: "data ! 4 = kVersion" "data ! 5 = kAlgorithm"
    and chunk: "read_u32_be (subspan 6 4 data) = kChunkSize"
    and h: "h = \<lparr>fh_serialized = data, fh_salt = take 32 (drop 10 data), fh_nonce_prefix = drop 42 data\<rparr>"
    by (auto simp: decode_header_def parse_header_def split: if_splits)
  have "u32_be kChunkSize = subspan 6 4 data"
    using chunk len u32_be_read [of "subspan 6 4 data"] by simp
  moreover have "data = take 4 data @ subspan 4 2 data @ subspan 6 4 data @ subspan 10 32 data @ drop 42 data"
    using fields(1) [of data 2] fields(2) [of 6 data 4] fields(2) [of 10 data 32] by simp
  ultimately have "data = header_bytes (subspan 10 32 data) (drop 42 data)"
    using magic flags subspan_2 [of data] len by (simp add: header_bytes_def)
  then show ?thesis using h len by (simp add: valid_header_def subspan_def)
qed

interpretation headerc: canonical_codec valid_header "\<lambda>h. Inr (fh_serialized h)" decode_header
proof
  fix h s assume h: "valid_header h" and s: "Inr (fh_serialized h) = (Inr s :: bytes result)"
  from h parse_header_bytes [of "fh_salt h" "fh_nonce_prefix h"] s show "decode_header s = Inr h"
    by (cases h) (auto simp: valid_header_def decode_header_def)
qed (use decode_header_valid in blast)+

lemma parse_password_header_bytes:
  assumes "length salt = 32" and "length np = 8"
  shows "parse_password_header (password_header_bytes salt np) =
    Inr \<lparr>ph_serialized = password_header_bytes salt np, ph_salt = salt, ph_nonce_prefix = np,
      ph_scrypt_n = kScryptN, ph_scrypt_r = kScryptR, ph_scrypt_p = kScryptP\<rparr>"
  using assms
  by (simp add: parse_password_header_def password_header_bytes_def subspan_def nth_append)

lemma decode_password_header_valid:
  assumes "decode_password_header data = Inr h"
  shows "valid_password_header h \<and> ph_serialized h = data"
proof -
  from assms have len: "length data = 64" and magic: "take 4 data = kPasswordMagic"
    and flags: "data ! 4 = kVersion" "data ! 5 = kPasswordCipherAes256Gcm"
      "data ! 6 = kPasswordKdfScrypt" "data ! 7 = kPasswordFlagsNone"
    and nums: "read_u32_be (subspan 8 4 data) = kChunkSize" "read_u32_be (subspan 52 4 data) = kScryptN"
      "read_u32_be (subspan 56 4 data) = kScryptR" "read_u32_be (subspan 60 4 data) = kScryptP"
    and h: "h = \<lparr>ph_serialized = data, ph_salt = subspan 12 32 data, ph_nonce_prefix = subspan 44 8 data,
      ph_scrypt_n = kScryptN, ph_scrypt_r = kScryptR, ph_scrypt_p = kScryptP\<rparr>"
    by (auto simp: decode_password_header_def parse_password_header_def Let_def subspan_def split: if_splits)
  have "u32_be kChunkSize = subspan 8 4 data" "u32_be kScryptN = subspan 52 4 data"
    "u32_be kScryptR = subspan 56 4 data" "u32_be kScryptP = subspan 60 4 data"
    using nums len u32_be_read [of "subspan 8 4 data"] u32_be_read [of "subspan 52 4 data"]
      u32_be_read [of "subspan 56 4 data"] u32_be_read [of "subspan 60 4 data"] by simp_all
  moreover have "data = take 4 data @ subspan 4 4 data @ subspan 8 4 data @ subspan 12 32 data @
      subspan 44 8 data @ subspan 52 4 data @ subspan 56 4 data @ subspan 60 4 data"
    using fields(1) [of data 4] fields(2) [of 8 data 4] fields(2) [of 12 data 32] fields(2) [of 44 data 8]
      fields(2) [of 52 data 4] fields(2) [of 56 data 4] fields(2) [of 60 data 4] len by simp
  ultimately have "data = password_header_bytes (subspan 12 32 data) (subspan 44 8 data)"
    using magic flags subspan_4 [of data] len by (simp add: password_header_bytes_def)
  then show ?thesis using h len by (simp add: valid_password_header_def)
qed

interpretation pheaderc: canonical_codec valid_password_header "\<lambda>h. Inr (ph_serialized h)" decode_password_header
proof
  fix h s assume h: "valid_password_header h" and s: "Inr (ph_serialized h) = (Inr s :: bytes result)"
  from h parse_password_header_bytes [of "ph_salt h" "ph_nonce_prefix h"] s
  show "decode_password_header s = Inr h"
    by (cases h) (auto simp: valid_password_header_def decode_password_header_def)
qed (use decode_password_header_valid in blast)+

subsection \<open>New headers\<close>

text \<open>The successive writes into the 50 bytes of a header.\<close>

lemma header_layout:
  assumes "length salt = 32" and "length np = 8"
  shows "overlay (overlay (store_u32_be ((overlay (replicate 50 0) 0 kMagic)[4 := kVersion, 5 := kAlgorithm])
      6 kChunkSize) 10 salt) 42 np = header_bytes salt np"
proof -
  let ?h = "kMagic @ [kVersion, kAlgorithm]"
  have "overlay (replicate 50 0) 0 kMagic = kMagic @ [0, 0] @ replicate 44 0"
    by (simp add: overlay_def numeral_eq_Suc)
  then have "(overlay (replicate 50 0) 0 kMagic)[4 := kVersion, 5 := kAlgorithm] = ?h @ replicate 44 0"
    by (simp add: list_update_append)
  then show ?thesis
    using assms by (simp add: store_u32_be_eq overlay_zeros header_bytes_def del: append_assoc)
qed

lemma make_header_result:
  assumes "make_header ssl s = (r, s')"
  shows "retired s' = retired s \<and> (case r of Inl e \<Rightarrow> code_of e = Some backend_failure | Inr h \<Rightarrow> valid_header h)"
proof -
  obtain r1 s1 where 1: "random_bytes ssl 32 s = (r1, s1)" by fastforce
  note res1 = random_bytes_result [OF 1]
  show ?thesis
  proof (cases r1)
    case (Inl e)
    with assms 1 res1 show ?thesis
      by (auto simp: make_header_def mbind_def Let_def)
  next
    case (Inr salt)
    then have salt: "length salt = 32" and s1: "retired s1 = retired s"
      using random_bytes_result [OF 1] by simp_all
    obtain r2 s2 where 2: "random_bytes ssl 8 s1 = (r2, s2)" by fastforce
    show ?thesis
    proof (cases r2)
      case (Inl e)
      with assms 1 2 Inr s1 random_bytes_result [OF 2] show ?thesis
        by (auto simp: make_header_def mbind_def Let_def)
    next
      case Inr2: (Inr np)
      then have np: "length np = 8" and s2: "retired s2 = retired s"
        using random_bytes_result [OF 2] s1 by simp_all
      have "r = Inr \<lparr>fh_serialized = header_bytes salt np, fh_salt = salt, fh_nonce_prefix = np\<rparr> \<and> s' = s2"
        using assms 1 2 Inr Inr2 salt np
        by (simp add: make_header_def mbind_def mreturn_def Let_def header_layout)
      with s2 salt np show ?thesis by (simp add: valid_header_def)
    qed
  qed
qed

text \<open>The successive writes into the 64 bytes of a password header.\<close>

lemma password_header_layout:
  assumes "length salt = 32" and "length np = 8"
  shows "store_u32_be (store_u32_be (store_u32_be (overlay (overlay
      (store_u32_be ((overlay (replicate 64 0) 0 kPasswordMagic)[4 := kVersion, 5 := kPasswordCipherAes256Gcm,
         6 := kPasswordKdfScrypt, 7 := kPasswordFlagsNone]) 8 kChunkSize) 12 salt) 44 np)
      52 kScryptN) 56 kScryptR) 60 kScryptP = password_header_bytes salt np"
proof -
  let ?h = "kPasswordMagic @ [kVersion, kPasswordCipherAes256Gcm, kPasswordKdfScrypt, kPasswordFlagsNone]"
  have "overlay (replicate 64 0) 0 kPasswordMagic = kPasswordMagic @ [0, 0, 0, 0] @ replicate 56 0"
    by (simp add: overlay_def numeral_eq_Suc)
  then have "(overlay (replicate 64 0) 0 kPasswordMagic)[4 := kVersion, 5 := kPasswordCipherAes256Gcm,
      6 := kPasswordKdfScrypt, 7 := kPasswordFlagsNone] = ?h @ replicate 56 0"
    by (simp add: list_update_append)
  then show ?thesis
    using assms
    by (simp add: store_u32_be_eq overlay_zeros password_header_bytes_def del: append_assoc)
qed

lemma make_password_header_result:
  assumes "make_password_header ssl s = (r, s')"
  shows "retired s' = retired s \<and> (case r of Inl e \<Rightarrow> code_of e = Some backend_failure | Inr h \<Rightarrow> valid_password_header h)"
proof -
  obtain r1 s1 where 1: "random_bytes ssl 32 s = (r1, s1)" by fastforce
  note res1 = random_bytes_result [OF 1]
  show ?thesis
  proof (cases r1)
    case (Inl e)
    with assms 1 res1 show ?thesis
      by (auto simp: make_password_header_def mbind_def Let_def)
  next
    case (Inr salt)
    then have salt: "length salt = 32" and s1: "retired s1 = retired s"
      using random_bytes_result [OF 1] by simp_all
    obtain r2 s2 where 2: "random_bytes ssl 8 s1 = (r2, s2)" by fastforce
    show ?thesis
    proof (cases r2)
      case (Inl e)
      with assms 1 2 Inr s1 random_bytes_result [OF 2] show ?thesis
        by (auto simp: make_password_header_def mbind_def Let_def)
    next
      case Inr2: (Inr np)
      then have np: "length np = 8" and s2: "retired s2 = retired s"
        using random_bytes_result [OF 2] s1 by simp_all
      have "r = Inr \<lparr>ph_serialized = password_header_bytes salt np, ph_salt = salt,
          ph_nonce_prefix = np, ph_scrypt_n = kScryptN, ph_scrypt_r = kScryptR, ph_scrypt_p = kScryptP\<rparr> \<and> s' = s2"
        using assms 1 2 Inr Inr2 salt np
        by (simp add: make_password_header_def mbind_def mreturn_def Let_def password_header_layout)
      with s2 salt np show ?thesis by (simp add: valid_password_header_def)
    qed
  qed
qed

text \<open>
  C39: The headers of files are canonical encodings. Fifty bytes parse to a header exactly when they are magic, version,
  algorithm and chunk size followed by the salt and the nonce prefix the header reports; 64 bytes parse as the header
  of a password file exactly when also the cipher, the KDF, the flags and the three scrypt parameters have their fixed
  values. Every header that the code makes parses back to itself, and making one fails only as a backend failure.
\<close>

theorem file_headers_exact:
  "(decode_header data = Inr h \<longleftrightarrow> valid_header h \<and> fh_serialized h = data) \<and>
   (decode_password_header data = Inr ph \<longleftrightarrow> valid_password_header ph \<and> ph_serialized ph = data) \<and>
   (case make_header ssl s of
      (Inl e, s') \<Rightarrow> code_of e = Some backend_failure
    | (Inr made, s') \<Rightarrow> decode_header (fh_serialized made) = Inr made) \<and>
   (case make_password_header ssl s of
      (Inl e, s') \<Rightarrow> code_of e = Some backend_failure
    | (Inr made, s') \<Rightarrow> decode_password_header (ph_serialized made) = Inr made)"
proof (intro conjI)
  show "decode_header data = Inr h \<longleftrightarrow> valid_header h \<and> fh_serialized h = data"
    using headerc.decode_iff [of data h] by simp
  show "decode_password_header data = Inr ph \<longleftrightarrow> valid_password_header ph \<and> ph_serialized ph = data"
    using pheaderc.decode_iff [of data ph] by simp
  obtain r s1 where r: "make_header ssl s = (r, s1)" by fastforce
  from make_header_result [OF this] headerc.decode_encode r
  show "case make_header ssl s of (Inl e, s') \<Rightarrow> code_of e = Some backend_failure
    | (Inr made, s') \<Rightarrow> decode_header (fh_serialized made) = Inr made"
    by (cases r) simp_all
  obtain r' s2 where r': "make_password_header ssl s = (r', s2)" by fastforce
  from make_password_header_result [OF this] pheaderc.decode_encode r'
  show "case make_password_header ssl s of (Inl e, s') \<Rightarrow> code_of e = Some backend_failure
    | (Inr made, s') \<Rightarrow> decode_password_header (ph_serialized made) = Inr made"
    by (cases r') simp_all
qed

subsection \<open>Nonces and chunks\<close>

lemma make_nonce_eq: "length np = 8 \<Longrightarrow> make_nonce np i = np @ u32_be i"
  by (simp add: make_nonce_def store_u32_be_eq overlay_def)

lemma make_nonce_injective:
  assumes "length np = 8" and "length np' = 8"
  shows "make_nonce np i = make_nonce np' j \<longleftrightarrow> np = np' \<and> i = j"
  using assms by (simp add: make_nonce_eq)

text \<open>What a chunk is on the wire.\<close>

definition final_flag :: "bool \<Rightarrow> byte" where
  "final_flag final = (if final then kFinal else kNotFinal)"

definition sealed_chunk ::
  "gcm_alg \<Rightarrow> bytes \<Rightarrow> bytes \<Rightarrow> bytes \<Rightarrow> bytes \<Rightarrow> u32 \<Rightarrow> bytes \<Rightarrow> bool \<Rightarrow> bytes" where
  "sealed_chunk alg key header np aad i p final =
     (let rec_bytes = record_bytes i (word_of_nat (length p)) (final_flag final);
          nonce = np @ u32_be i
      in rec_bytes @ gcm_ciphertext alg key nonce p @ gcm_tag alg key nonce (header @ rec_bytes @ aad) p)"

lemma derive_file_key_result:
  assumes "derive_file_key ssl key h s = (r, s')"
  shows "releases_wiped s s' \<and> (case r of Inl e \<Rightarrow> code_of e = Some backend_failure | Inr k \<Rightarrow> length k = 32)"
proof -
  obtain r0 t where 0: "hkdf_sha256 ssl key (fh_salt h) (map byte_of_char ''anosecurekit file sealing v1'') 32 s = (r0, t)"
    by fastforce
  from key_derivation_results(2) [OF 0] have t: "retired t = retired s" and
    r0: "case r0 of Inl e \<Rightarrow> e = hkdf_failure | Inr d \<Rightarrow> length d = 32" by auto
  show ?thesis
  proof (cases r0)
    case (Inl e)
    with assms 0 have "r = Inl e" "s' = t"
      by (auto simp: derive_file_key_def mbind_def Let_def split: prod.splits)
    with t r0 Inl show ?thesis by (simp add: releases_wiped_same hkdf_failure_def)
  next
    case (Inr okm)
    with assms 0 r0 have "r = Inr okm" "s' = retire (replicate (length okm) 0) t"
      by (auto simp: derive_file_key_def mbind_def Let_def wipe_on_exit_def mreturn_def overlay_def split: prod.splits)
    with t r0 Inr show ?thesis
      by (simp add: releases_wiped_same releases_wiped_retire)
  qed
qed

lemma derive_password_file_key_result:
  "derive_password_file_key ssl password h s = (r, s') \<Longrightarrow> releases_wiped s s' \<and>
     (case r of Inl e \<Rightarrow> code_of e \<in> {Some backend_failure, Some invalid_input} | Inr k \<Rightarrow> length k = 32)"
  by (auto simp: derive_password_file_key_def mbind_def mlift_def require_non_empty_password_def
      split: if_splits sum.splits dest!: scrypt_key_result)

end
