(* ===== verification/Streams.thy ===== *)
theory Streams
  imports File_Format
begin

section \<open>Byte streams and sinks\<close>

text \<open>
  What \<open>src/file_io.cpp\<close> uses of \<open>std::istream\<close> and \<open>std::ostream\<close>, with the state bits of the standard
  library, and its functions \<open>read_exact\<close>, \<open>reject_trailing_data\<close> and \<open>write_all\<close>. The payload loops are
  templates over the kind of output; what they need of it is the interface \<open>output_sink\<close>.
\<close>

subsection \<open>Input streams\<close>

text \<open>
  \<open>remaining\<close> is what the stream buffer will still deliver; after that it reports end of file, or, when
  \<open>broken\<close>, fails (an I/O error, which the stream turns into \<open>badbit\<close>).
\<close>

record istream =
  remaining :: bytes
  broken :: bool
  eofbit :: bool
  failbit :: bool
  badbit :: bool

definition istream_good :: "istream \<Rightarrow> bool" where
  "istream_good s \<longleftrightarrow> \<not> eofbit s \<and> \<not> failbit s \<and> \<not> badbit s"

definition istream_fail :: "istream \<Rightarrow> bool" where
  "istream_fail s \<longleftrightarrow> failbit s \<or> badbit s"

text \<open>
  \<open>in.read(buffer, n)\<close>: the bytes read; their number is \<open>gcount()\<close>. On a stream that is not good the
  sentry sets \<open>failbit\<close> and nothing is read. An error of the buffer sets \<open>badbit\<close> with a count of zero.
\<close>

definition istream_read :: "nat \<Rightarrow> istream \<Rightarrow> bytes \<times> istream" where
  "istream_read n s =
     (if \<not> istream_good s then ([], s\<lparr>failbit := True\<rparr>)
      else if n \<le> length (remaining s) then (take n (remaining s), s\<lparr>remaining := drop n (remaining s)\<rparr>)
      else if broken s then ([], s\<lparr>remaining := [], badbit := True\<rparr>)
      else (remaining s, s\<lparr>remaining := [], eofbit := True, failbit := True\<rparr>))"

text \<open>\<open>in.peek()\<close>: the next byte, or \<open>None\<close> for the end-of-file value.\<close>

definition istream_peek :: "istream \<Rightarrow> byte option \<times> istream" where
  "istream_peek s =
     (if \<not> istream_good s then (None, s\<lparr>failbit := True\<rparr>)
      else case remaining s of
        b # _ \<Rightarrow> (Some b, s)
      | [] \<Rightarrow> if broken s then (None, s\<lparr>badbit := True\<rparr>) else (None, s\<lparr>eofbit := True\<rparr>))"

definition read_failed :: exn where
  "read_failed = Error backend_failure ''File read failed''"

text \<open>Both readers end with the same look at the state bits.\<close>

definition read_error :: "istream \<Rightarrow> bool" where
  "read_error s \<longleftrightarrow> badbit s \<or> (\<not> eofbit s \<and> istream_fail s)"

text \<open>\<open>read_exact\<close>: the bytes when all were read, \<open>None\<close> for the result \<open>false\<close>.\<close>

definition read_exact :: "nat \<Rightarrow> (istream, exn, bytes option) action" where
  "read_exact n s =
     (case istream_read n s of (data, s') \<Rightarrow>
        if length data = n then (Inr (Some data), s')
        else if read_error s' then (Inl read_failed, s')
        else (Inr None, s'))"

definition reject_trailing_data :: "(istream, exn, unit) action" where
  "reject_trailing_data s =
     (case istream_read 1 s of (data, s') \<Rightarrow>
        if length data \<noteq> 0 then (Inl file_packet_error, s')
        else if read_error s' then (Inl read_failed, s')
        else (Inr (), s'))"

text \<open>A stream that has just been opened on \<open>data\<close>.\<close>

definition fresh_istream :: "bytes \<Rightarrow> istream" where
  "fresh_istream data = \<lparr>remaining = data, broken = False, eofbit = False, failbit = False, badbit = False\<rparr>"

subsection \<open>Output streams\<close>

text \<open>\<open>room\<close> is what the stream buffer still takes before it fails; \<open>None\<close> when it never does.\<close>

record ostream =
  written :: bytes
  room :: "nat option"
  out_failed :: bool

definition ostream_write :: "bytes \<Rightarrow> ostream \<Rightarrow> ostream" where
  "ostream_write data s =
     (if out_failed s then s
      else case room s of
        None \<Rightarrow> s\<lparr>written := written s @ data\<rparr>
      | Some r \<Rightarrow>
          if length data \<le> r then s\<lparr>written := written s @ data, room := Some (r - length data)\<rparr>
          else s\<lparr>written := written s @ take r data, room := Some 0, out_failed := True\<rparr>)"

definition write_failed :: exn where
  "write_failed = Error backend_failure ''File write failed''"

definition write_all :: "bytes \<Rightarrow> (ostream, exn, unit) action" where
  "write_all data s = (let s' = ostream_write data s in (if out_failed s' then Inl write_failed else Inr (), s'))"

subsection \<open>Reading\<close>

lemma istream_read_enough:
  assumes "istream_good s" and "remaining s = data @ rest" and "length data = n"
  shows "istream_read n s = (data, s\<lparr>remaining := rest\<rparr>)"
  using assms by (simp add: istream_read_def)

lemma read_exact_enough:
  assumes "istream_good s" and "remaining s = data @ rest" and "length data = n"
  shows "read_exact n s = (Inr (Some data), s\<lparr>remaining := rest\<rparr>)"
  using assms by (simp add: read_exact_def istream_read_enough)

lemma read_exact_Some:
  assumes "read_exact n s = (Inr (Some data), s')"
  shows "length data = n \<and> remaining s = data @ remaining s' \<and> broken s' = broken s \<and>
    (n > 0 \<longrightarrow> istream_good s \<and> s' = s\<lparr>remaining := remaining s'\<rparr>)"
  using assms
  by (auto simp: read_exact_def istream_read_def split: if_splits)

lemma read_exact_good:
  "read_exact n s = (Inr (Some data), s') \<Longrightarrow> istream_good s \<Longrightarrow> istream_good s' \<and> s' = s\<lparr>remaining := remaining s'\<rparr>"
  by (auto simp: read_exact_def istream_read_def istream_good_def split: if_splits)

lemma reject_trailing_data_Inr:
  assumes "reject_trailing_data s = (Inr (), s')" and "istream_good s"
  shows "remaining s = [] \<and> \<not> broken s \<and> remaining s' = []"
  using assms
  by (auto simp: reject_trailing_data_def istream_read_def read_error_def Suc_le_eq split: if_splits)

lemma reject_trailing_data_end:
  assumes "istream_good s" and "remaining s = []" and "\<not> broken s"
  shows "\<exists>s'. reject_trailing_data s = (Inr (), s')"
  using assms by (simp add: reject_trailing_data_def istream_read_def read_error_def istream_good_def)

lemma fresh_istream_simps [simp]:
  "remaining (fresh_istream data) = data" "\<not> broken (fresh_istream data)" "istream_good (fresh_istream data)"
  by (simp_all add: fresh_istream_def istream_good_def)

lemma istream_good_remaining [simp]: "istream_good (s\<lparr>remaining := r\<rparr>) = istream_good s"
  by (simp add: istream_good_def)

lemma code_of_stream_errors [simp]:
  "code_of read_failed = Some backend_failure" "code_of write_failed = Some backend_failure"
  by (simp_all add: read_failed_def write_failed_def)

subsection \<open>The interface of an output\<close>

text \<open>
  \<open>put\<close> is the write operation of the output and \<open>content\<close> what has been accepted so far. A write
  that returns has accepted all its bytes, in order; one that throws reports a backend failure and
  has accepted the first of them. \<open>ok\<close> is the invariant of the output.
\<close>

locale output_sink =
  fixes put :: "bytes \<Rightarrow> ('out, exn, unit) action"
    and content :: "'out \<Rightarrow> bytes"
    and ok :: "'out \<Rightarrow> bool"
  assumes write_returned: "ok out \<Longrightarrow> put data out = (Inr u, out') \<Longrightarrow> content out' = content out @ data \<and> ok out'"
    and write_threw: "ok out \<Longrightarrow> put data out = (Inl e, out') \<Longrightarrow>
      code_of e = Some backend_failure \<and> ok out' \<and> (\<exists>accepted rest. data = accepted @ rest \<and> content out' = content out @ accepted)"
begin

text \<open>Whatever happens, a write only appends.\<close>

lemma write_appends:
  assumes "ok out" and "put data out = (r, out')"
  shows "ok out' \<and> (\<exists>more. content out' = content out @ more)"
  using assms write_returned write_threw by (cases r) blast+

end

text \<open>A sink with a state in which no write fails.\<close>

locale reliable_sink = output_sink put content ok
  for put :: "bytes \<Rightarrow> ('out, exn, unit) action" and content :: "'out \<Rightarrow> bytes" and ok :: "'out \<Rightarrow> bool" +
  fixes reliable :: "'out \<Rightarrow> bool"
  assumes reliable_ok: "reliable out \<Longrightarrow> ok out"
    and reliable_returns: "reliable out \<Longrightarrow> \<exists>out'. put data out = (Inr (), out') \<and> reliable out'"

lemma write_all_cases:
  assumes "write_all data s = (r, s')"
  shows "case r of Inr u \<Rightarrow> written s' = written s @ data
    | Inl e \<Rightarrow> e = write_failed \<and> (\<exists>accepted rest. data = accepted @ rest \<and> written s' = written s @ accepted)"
proof -
  have parts: "\<exists>rest. data = take n data @ rest" for n by (metis append_take_drop_id)
  show ?thesis
    using assms parts
    by (cases "out_failed s"; cases "room s")
      (auto simp: write_all_def ostream_write_def Let_def split: if_splits)
qed

definition ostream_reliable :: "ostream \<Rightarrow> bool" where
  "ostream_reliable s \<longleftrightarrow> room s = None \<and> \<not> out_failed s"

interpretation ostr: reliable_sink write_all written "\<lambda>_. True" ostream_reliable
proof
  fix out out' :: ostream and data u
  assume "write_all data out = (Inr u, out')"
  from write_all_cases [OF this] show "written out' = written out @ data \<and> True" by simp
next
  fix out out' :: ostream and data e
  assume "write_all data out = (Inl e, out')"
  from write_all_cases [OF this]
  show "code_of e = Some backend_failure \<and> True \<and>
      (\<exists>accepted rest. data = accepted @ rest \<and> written out' = written out @ accepted)" by auto
next
  fix out :: ostream and data
  assume "ostream_reliable out"
  then show "\<exists>out'. write_all data out = (Inr (), out') \<and> ostream_reliable out'"
    by (simp add: ostream_reliable_def write_all_def ostream_write_def Let_def)
qed simp

end
