(* ===== verification/File_Payload.thy ===== *)
theory File_Payload
  imports Streams
begin

section \<open>Sealing and opening a payload\<close>

text \<open>
  The two loops of \<open>src/file.cpp\<close>: \<open>seal_stream_payload\<close> reads chunks of the input, encrypts them and
  writes them, \<open>open_file_payload\<close> reads chunks, checks them, decrypts them and writes the plaintext. The
  state of a loop is the input stream, the output and the runtime; the output is a parameter, given
  by its write operation, as in the template.
\<close>

record ('out, 'o) transfer =
  source :: istream
  sink :: 'out
  crypto :: "'o runtime"

definition on_source :: "(istream \<Rightarrow> 'a \<times> istream) \<Rightarrow> (('out, 'o) transfer, exn, 'a) action" where
  "on_source f s = (case f (source s) of (x, i) \<Rightarrow> (Inr x, s\<lparr>source := i\<rparr>))"

definition source_action :: "(istream, exn, 'a) action \<Rightarrow> (('out, 'o) transfer, exn, 'a) action" where
  "source_action m = mzoom source (\<lambda>i s. s\<lparr>source := i\<rparr>) m"

definition sink_action :: "('out, exn, 'a) action \<Rightarrow> (('out, 'o) transfer, exn, 'a) action" where
  "sink_action m = mzoom sink (\<lambda>out s. s\<lparr>sink := out\<rparr>) m"

definition crypto_action :: "('o runtime, exn, 'a) action \<Rightarrow> (('out, 'o) transfer, exn, 'a) action" where
  "crypto_action m = mzoom crypto (\<lambda>c s. s\<lparr>crypto := c\<rparr>) m"

text \<open>A scope with a local buffer guarded by \<open>wipe_on_exit\<close>.\<close>

definition wipe_after :: "bytes \<Rightarrow> (('out, 'o) transfer, exn, 'a) action \<Rightarrow> (('out, 'o) transfer, exn, 'a) action" where
  "wipe_after buf m s =
     (case m s of (r, s') \<Rightarrow> (r, s'\<lparr>crypto := retire (secure_wipe buf) (crypto s')\<rparr>))"

type_synonym 'out put = "bytes \<Rightarrow> ('out, exn, unit) action"

subsection \<open>Sealing\<close>

text \<open>
  Whether the chunk is the last one: it is shorter than a chunk, or the input ends right after it.
\<close>

definition seal_is_final :: "u32 \<Rightarrow> (('out, 'o) transfer, exn, bool) action" where
  "seal_is_final plaintext_size =
     (let is_final = plaintext_size < kChunkSize
      in if is_final then mreturn True
         else mbind (on_source istream_peek) (\<lambda>next.
           if next = None
           then mbind (mget (\<lambda>s. badbit (source s))) (\<lambda>bad.
             if bad then mthrow read_failed else mreturn True)
           else mreturn False))"

text \<open>One turn of the loop; the result is \<open>wrote_final\<close>. A byte count is never negative here.\<close>

definition seal_chunk ::
  "('o, 'c) openssl \<Rightarrow> 'out put \<Rightarrow> bytes \<Rightarrow> bytes \<Rightarrow> bytes \<Rightarrow> bytes \<Rightarrow> u32 \<Rightarrow>
     (('out, 'o) transfer, exn, bool) action" where
  "seal_chunk ssl put serialized_header nonce_prefix file_key aad chunk_index =
     mbind (on_source (istream_read (unat kChunkSize))) (\<lambda>data.
     mbind (mget (\<lambda>s. \<not> eofbit (source s) \<and> istream_fail (source s))) (\<lambda>failed.
     if failed then mthrow read_failed
     else
       let plaintext_size = word_of_nat (length data)
       in mbind (seal_is_final plaintext_size) (\<lambda>is_final.
         let r = make_record_header chunk_index plaintext_size (if is_final then kFinal else kNotFinal);
             nonce = make_nonce nonce_prefix chunk_index;
             chunk_aad = make_chunk_aad serialized_header r aad
         in mbind (crypto_action (encrypt_chunk ssl data file_key nonce chunk_aad)) (\<lambda>(ciphertext, tag).
            mbind (sink_action (put (rh_serialized r))) (\<lambda>_.
            mbind (sink_action (put ciphertext)) (\<lambda>_.
            mbind (sink_action (put tag)) (\<lambda>_.
            mreturn is_final)))))))"

subsection \<open>Opening\<close>

text \<open>\<open>if (!read_exact(in, ...)) throw_invalid_packet();\<close>\<close>

definition read_or_reject :: "nat \<Rightarrow> (istream, exn, bytes) action" where
  "read_or_reject n = mbind (read_exact n) (\<lambda>data.
     case data of None \<Rightarrow> mthrow file_packet_error | Some d \<Rightarrow> mreturn d)"

text \<open>
  One turn of the loop; the result is \<open>saw_final\<close>. The plaintext is wiped when the turn ends, however
  it ends.
\<close>

definition open_chunk ::
  "('o, 'c) openssl \<Rightarrow> 'out put \<Rightarrow> bytes \<Rightarrow> bytes \<Rightarrow> bytes \<Rightarrow> bytes \<Rightarrow> u32 \<Rightarrow>
     (('out, 'o) transfer, exn, bool) action" where
  "open_chunk ssl put serialized_header nonce_prefix file_key aad expected_index =
     mbind (source_action (read_or_reject kRecordHeaderSize)) (\<lambda>record_bytes.
     mbind (mlift (parse_record_header record_bytes)) (\<lambda>r.
     mbind (mguard (rh_index r = expected_index) file_packet_error) (\<lambda>_.
     mbind (mguard (\<not> (rh_final_flag r = kNotFinal \<and> rh_plaintext_size r \<noteq> kChunkSize)) file_packet_error) (\<lambda>_.
     mbind (source_action (read_or_reject (unat (rh_plaintext_size r)))) (\<lambda>ciphertext.
     mbind (source_action (read_or_reject kTagSize)) (\<lambda>tag.
     mbind (if rh_final_flag r = kFinal then source_action reject_trailing_data else mreturn ()) (\<lambda>_.
     let nonce = make_nonce nonce_prefix (rh_index r);
         chunk_aad = make_chunk_aad serialized_header r aad
     in mbind (crypto_action (decrypt_chunk ssl ciphertext tag file_key nonce chunk_aad)) (\<lambda>plaintext.
          wipe_after plaintext
            (mbind (sink_action (put plaintext)) (\<lambda>_. mreturn (rh_final_flag r = kFinal)))))))))))"

subsection \<open>Every turn that is not the last consumes input\<close>

lemma on_source_iff:
  "on_source f s = (r, s') \<longleftrightarrow> (\<exists>x i. f (source s) = (x, i) \<and> r = Inr x \<and> s' = s\<lparr>source := i\<rparr>)"
  by (auto simp: on_source_def split: prod.split)

lemma source_action_iff:
  "source_action m s = (r, s') \<longleftrightarrow> (\<exists>i. m (source s) = (r, i) \<and> s' = s\<lparr>source := i\<rparr>)"
  by (auto simp: source_action_def mzoom_eq_iff)

lemma sink_action_iff:
  "sink_action m s = (r, s') \<longleftrightarrow> (\<exists>out. m (sink s) = (r, out) \<and> s' = s\<lparr>sink := out\<rparr>)"
  by (auto simp: sink_action_def mzoom_eq_iff)

lemma crypto_action_iff:
  "crypto_action m s = (r, s') \<longleftrightarrow> (\<exists>c. m (crypto s) = (r, c) \<and> s' = s\<lparr>crypto := c\<rparr>)"
  by (auto simp: crypto_action_def mzoom_eq_iff)

lemma wipe_after_iff:
  "wipe_after buf m s = (r, s') \<longleftrightarrow>
     (\<exists>t. m s = (r, t) \<and> s' = t\<lparr>crypto := retire (replicate (length buf) 0) (crypto t)\<rparr>)"
  by (auto simp: wipe_after_def split: prod.split)

lemma mlift_iff: "mlift x s = (r, s') \<longleftrightarrow> r = x \<and> s' = s"
  by (auto simp: mlift_def)

lemmas transfer_iffs = on_source_iff source_action_iff sink_action_iff crypto_action_iff
  wipe_after_iff mlift_iff

lemma mget_Inr_iff: "mget f s = (r, s') \<longleftrightarrow> r = Inr (f s) \<and> s' = s"
  by (auto simp: mget_def)

lemma read_or_reject_Inr_iff:
  "read_or_reject n i = (Inr d, i') \<longleftrightarrow> read_exact n i = (Inr (Some d), i')"
  by (auto simp: read_or_reject_def mbind_Inr_iff mthrow_def mreturn_def split: option.splits)

lemma read_or_reject_error:
  "read_or_reject n i = (Inl e, i') \<Longrightarrow> code_of e \<in> {Some invalid_packet, Some backend_failure}"
  by (auto simp: read_or_reject_def mbind_Inl_iff mthrow_def mreturn_def read_exact_def
      file_packet_error_def split: option.splits prod.splits if_splits)

lemma chunk_size_nonzero: "unat kChunkSize > 0"
  by simp

text \<open>
  A chunk that is not final was read in full, and the input went on after it.
\<close>

lemma seal_is_final_cases:
  assumes "seal_is_final n s = (Inr final, s')"
  shows "sink s' = sink s \<and> crypto s' = crypto s \<and> remaining (source s') = remaining (source s) \<and>
    (if final then n < kChunkSize \<and> s' = s \<or> n \<ge> kChunkSize \<and> (istream_good (source s) \<longrightarrow> remaining (source s) = [] \<and> \<not> broken (source s))
     else n \<ge> kChunkSize \<and> s' = s \<and> istream_good (source s) \<and> remaining (source s) \<noteq> [])"
  using assms
  by (auto simp: seal_is_final_def Let_def action_iffs on_source_iff mget_Inr_iff mthrow_def
      istream_peek_def split: if_splits list.splits)

lemma seal_chunk_consumes:
  assumes "seal_chunk ssl put hdr np key aad idx s = (Inr False, s')"
  shows "length (remaining (source s')) < length (remaining (source s))"
proof -
  from assms obtain data i s1 where
    r: "istream_read (unat kChunkSize) (source s) = (data, i)" and
    f: "seal_is_final (word_of_nat (length data)) (s\<lparr>source := i\<rparr>) = (Inr False, s1)" and
    s': "source s' = source s1"
    by (auto simp: seal_chunk_def Let_def action_iffs transfer_iffs mget_Inr_iff mthrow_def split: if_splits prod.splits)
  from seal_is_final_cases [OF f] have "(word_of_nat (length data) :: u32) \<ge> kChunkSize" and s1: "source s1 = i"
    by auto
  then have "length data \<noteq> 0" by (auto simp: kChunkSize_def)
  then have "length (remaining i) < length (remaining (source s))"
    using r by (auto simp: istream_read_def split: if_splits)
  with s' s1 show ?thesis by simp
qed

text \<open>A turn of the opening loop that returns, taken apart.\<close>

lemma cond_action_iff:
  "(if c then m else mreturn ()) s = (Inr u, s') \<longleftrightarrow> c \<and> m s = (Inr u, s') \<or> \<not> c \<and> s' = s"
  by (simp add: mreturn_Inr_iff)

definition chunk_turn ::
  "('o, 'c) openssl \<Rightarrow> 'out put \<Rightarrow> bytes \<Rightarrow> bytes \<Rightarrow> bytes \<Rightarrow> bytes \<Rightarrow> u32 \<Rightarrow> ('out, 'o) transfer \<Rightarrow>
     bytes \<Rightarrow> RecordHeader \<Rightarrow> bytes \<Rightarrow> bytes \<Rightarrow> bytes \<Rightarrow> istream \<Rightarrow> istream \<Rightarrow> istream \<Rightarrow> istream \<Rightarrow>
     unit result \<Rightarrow> 'out \<Rightarrow> 'o runtime \<Rightarrow> bool" where
  "chunk_turn ssl put hdr np key aad idx s rb r ct tag p i1 i2 i3 i4 res out c \<longleftrightarrow>
     read_exact 9 (source s) = (Inr (Some rb), i1) \<and> parse_record_header rb = Inr r \<and> rh_index r = idx \<and>
     (rh_final_flag r = 0 \<longrightarrow> rh_plaintext_size r = kChunkSize) \<and>
     read_exact (unat (rh_plaintext_size r)) i1 = (Inr (Some ct), i2) \<and>
     read_exact 16 i2 = (Inr (Some tag), i3) \<and>
     (rh_final_flag r = 1 \<and> reject_trailing_data i3 = (Inr (), i4) \<or> rh_final_flag r \<noteq> 1 \<and> i4 = i3) \<and>
     decrypt_chunk ssl ct tag key (make_nonce np idx) (make_chunk_aad hdr r aad) (crypto s) = (Inr p, c) \<and>
     put p (sink s) = (res, out)"

lemma open_chunk_Inr_iff:
  "open_chunk ssl put hdr np key aad idx s = (Inr b, s') \<longleftrightarrow>
     (\<exists>rb r ct tag p i1 i2 i3 i4 out c.
       chunk_turn ssl put hdr np key aad idx s rb r ct tag p i1 i2 i3 i4 (Inr ()) out c \<and>
       b = (rh_final_flag r = 1) \<and>
       s' = s\<lparr>source := i4, sink := out, crypto := retire (replicate (length p) 0) c\<rparr>)"
  (is "?run = ?turn")
proof
  assume ?run
  then obtain rb i1 r ct i2 tag i3 i4 p c out where
    "read_exact 9 (source s) = (Inr (Some rb), i1)" "Inr r = parse_record_header rb" "rh_index r = idx"
    "rh_final_flag r = 0 \<longrightarrow> rh_plaintext_size r = kChunkSize"
    "read_exact (unat (rh_plaintext_size r)) i1 = (Inr (Some ct), i2)"
    "read_exact 16 i2 = (Inr (Some tag), i3)"
    "rh_final_flag r = 1 \<and> reject_trailing_data i3 = (Inr (), i4) \<or> rh_final_flag r \<noteq> 1 \<and> i4 = i3"
    "decrypt_chunk ssl ct tag key (make_nonce np idx) (make_chunk_aad hdr r aad) (crypto s) = (Inr p, c)"
    "put p (sink s) = (Inr (), out)" "b = (rh_final_flag r = 1)"
    "s' = s\<lparr>source := i4, sink := out, crypto := retire (replicate (length p) 0) c\<rparr>"
    by (auto simp: open_chunk_def Let_def action_iffs transfer_iffs cond_action_iff read_or_reject_Inr_iff
        simp del: if_split)
  then show ?turn unfolding chunk_turn_def by metis
next
  assume ?turn
  then show ?run
    by (auto simp: chunk_turn_def open_chunk_def Let_def action_iffs transfer_iffs cond_action_iff
        read_or_reject_Inr_iff simp del: if_split)
qed

lemma open_chunk_consumes:
  assumes "open_chunk ssl put hdr np key aad idx s = (Inr b, s')"
  shows "length (remaining (source s')) < length (remaining (source s))"
proof -
  have mono: "length (remaining i') \<le> length (remaining i)" if "read_exact n i = (Inr (Some d), i')" for n i d i'
    using read_exact_Some [OF that] by simp
  have trail: "length (remaining i') \<le> length (remaining i)" if "reject_trailing_data i = (Inr (), i')" for i i'
    using that by (auto simp: reject_trailing_data_def istream_read_def split: if_splits)
  from assms obtain rb r ct tag p i1 i2 i3 i4 out c where
    turn: "chunk_turn ssl put hdr np key aad idx s rb r ct tag p i1 i2 i3 i4 (Inr ()) out c" and
    s': "s' = s\<lparr>source := i4, sink := out, crypto := retire (replicate (length p) 0) c\<rparr>"
    unfolding open_chunk_Inr_iff by blast
  note t = turn [unfolded chunk_turn_def]
  have "length (remaining i1) < length (remaining (source s))" using read_exact_Some t by fastforce
  moreover have "length (remaining i2) \<le> length (remaining i1)" "length (remaining i3) \<le> length (remaining i2)"
    using mono t by blast+
  moreover have "length (remaining i4) \<le> length (remaining i3)" using trail t by blast
  ultimately show ?thesis using s' by simp
qed

subsection \<open>The loops\<close>

text \<open>
  The index is a 32-bit integer. The guard at its largest value keeps it from wrapping, so no nonce is
  used twice. Each loop ends because a turn that does not end it consumes input.
\<close>

definition too_large :: exn where
  "too_large = Error invalid_input ''file is too large to seal''"

function seal_loop ::
  "('o, 'c) openssl \<Rightarrow> 'out put \<Rightarrow> bytes \<Rightarrow> bytes \<Rightarrow> bytes \<Rightarrow> bytes \<Rightarrow> u32 \<Rightarrow>
     (('out, 'o) transfer, exn, unit) action" where
  "seal_loop ssl put serialized_header nonce_prefix file_key aad chunk_index s =
     (case seal_chunk ssl put serialized_header nonce_prefix file_key aad chunk_index s of
        (Inl e, s') \<Rightarrow> (Inl e, s')
      | (Inr wrote_final, s') \<Rightarrow>
          if chunk_index = - 1 \<and> \<not> wrote_final then (Inl too_large, s')
          else if wrote_final then (Inr (), s')
          else seal_loop ssl put serialized_header nonce_prefix file_key aad (chunk_index + 1) s')"
  by pat_completeness auto
termination
  by (relation "measure (\<lambda>(ssl, put, hdr, np, key, aad, idx, s). length (remaining (source s)))")
    (auto dest: sym [THEN seal_chunk_consumes])

function open_loop ::
  "('o, 'c) openssl \<Rightarrow> 'out put \<Rightarrow> bytes \<Rightarrow> bytes \<Rightarrow> bytes \<Rightarrow> bytes \<Rightarrow> u32 \<Rightarrow>
     (('out, 'o) transfer, exn, unit) action" where
  "open_loop ssl put serialized_header nonce_prefix file_key aad expected_index s =
     (case open_chunk ssl put serialized_header nonce_prefix file_key aad expected_index s of
        (Inl e, s') \<Rightarrow> (Inl e, s')
      | (Inr saw_final, s') \<Rightarrow>
          if expected_index = - 1 \<and> \<not> saw_final then (Inl file_packet_error, s')
          else if saw_final then (Inr (), s')
          else open_loop ssl put serialized_header nonce_prefix file_key aad (expected_index + 1) s')"
  by pat_completeness auto
termination
  by (relation "measure (\<lambda>(ssl, put, hdr, np, key, aad, idx, s). length (remaining (source s)))")
    (auto dest: sym [THEN open_chunk_consumes])

declare seal_loop.simps [simp del] open_loop.simps [simp del]

definition seal_stream_payload ::
  "('o, 'c) openssl \<Rightarrow> 'out put \<Rightarrow> bytes \<Rightarrow> bytes \<Rightarrow> bytes \<Rightarrow> bytes \<Rightarrow>
     (('out, 'o) transfer, exn, unit) action" where
  "seal_stream_payload ssl put serialized_header nonce_prefix file_key aad =
     mbind (sink_action (put serialized_header)) (\<lambda>_.
       seal_loop ssl put serialized_header nonce_prefix file_key aad 0)"

definition open_file_payload ::
  "('o, 'c) openssl \<Rightarrow> 'out put \<Rightarrow> bytes \<Rightarrow> bytes \<Rightarrow> bytes \<Rightarrow> bytes \<Rightarrow>
     (('out, 'o) transfer, exn, unit) action" where
  "open_file_payload ssl put serialized_header nonce_prefix file_key aad =
     open_loop ssl put serialized_header nonce_prefix file_key aad 0"

subsection \<open>Specification\<close>

text \<open>
  The bytes of a list of chunks, the last one marked final. \<open>file_chunks\<close> is how sealing splits a
  plaintext: all chunks but the last are full, and the last is empty only for an empty plaintext.
\<close>

fun chunk_body ::
  "gcm_alg \<Rightarrow> bytes \<Rightarrow> bytes \<Rightarrow> bytes \<Rightarrow> bytes \<Rightarrow> u32 \<Rightarrow> bytes list \<Rightarrow> bytes" where
  "chunk_body alg key hdr np aad idx [] = []"
| "chunk_body alg key hdr np aad idx [p] = sealed_chunk alg key hdr np aad idx p True"
| "chunk_body alg key hdr np aad idx (p # q # ps) =
     sealed_chunk alg key hdr np aad idx p False @ chunk_body alg key hdr np aad (idx + 1) (q # ps)"

function file_chunks :: "bytes \<Rightarrow> bytes list" where
  "file_chunks p =
     (if length p \<le> unat kChunkSize then [p] else take (unat kChunkSize) p # file_chunks (drop (unat kChunkSize) p))"
  by pat_completeness auto
termination
  by (relation "measure length") auto

declare file_chunks.simps [simp del]

lemma file_chunks_nonempty [simp]: "file_chunks p \<noteq> []"
  by (subst file_chunks.simps) simp

lemma concat_file_chunks [simp]: "concat (file_chunks p) = p"
proof (induction p rule: file_chunks.induct)
  case (1 p)
  then show ?case by (subst file_chunks.simps) simp
qed

lemma file_chunks_short: "length p \<le> 1048576 \<Longrightarrow> file_chunks p = [p]"
  by (subst file_chunks.simps) simp

lemma file_chunks_long: "length p > 1048576 \<Longrightarrow> file_chunks p = take 1048576 p # file_chunks (drop 1048576 p)"
  by (subst file_chunks.simps) simp

text \<open>All chunks but the last are full and the last is at most full.\<close>

fun well_chunked :: "bytes list \<Rightarrow> bool" where
  "well_chunked [] = False"
| "well_chunked [p] = (length p \<le> unat kChunkSize)"
| "well_chunked (p # q # ps) = (length p = unat kChunkSize \<and> well_chunked (q # ps))"

lemma chunk_body_Cons:
  "ps \<noteq> [] \<Longrightarrow> chunk_body alg key hdr np aad idx (p # ps) =
     sealed_chunk alg key hdr np aad idx p False @ chunk_body alg key hdr np aad (idx + 1) ps"
  "ps \<noteq> [] \<Longrightarrow> well_chunked (p # ps) = (length p = unat kChunkSize \<and> well_chunked ps)"
  by (cases ps; simp)+

lemma well_chunked_file_chunks: "well_chunked (file_chunks p)"
proof (induction p rule: file_chunks.induct)
  case (1 p)
  then show ?case by (subst file_chunks.simps) (auto simp: chunk_body_Cons)
qed

definition file_body ::
  "gcm_alg \<Rightarrow> bytes \<Rightarrow> bytes \<Rightarrow> bytes \<Rightarrow> bytes \<Rightarrow> u32 \<Rightarrow> bytes \<Rightarrow> bytes" where
  "file_body alg key hdr np aad idx p = chunk_body alg key hdr np aad idx (file_chunks p)"

lemma file_body_short:
  "length p \<le> 1048576 \<Longrightarrow> file_body alg key hdr np aad idx p = sealed_chunk alg key hdr np aad idx p True"
  by (simp add: file_body_def file_chunks_short)

lemma file_body_long:
  "length p > 1048576 \<Longrightarrow> file_body alg key hdr np aad idx p =
     sealed_chunk alg key hdr np aad idx (take 1048576 p) False @
     file_body alg key hdr np aad (idx + 1) (drop 1048576 p)"
  by (simp add: file_body_def file_chunks_long chunk_body_Cons)

text \<open>The number of chunks, without building them.\<close>

definition chunk_count :: "bytes \<Rightarrow> nat" where
  "chunk_count p = (if p = [] then 1 else (length p + 1048575) div 1048576)"

lemma chunk_count_short: "length p \<le> 1048576 \<Longrightarrow> chunk_count p = 1"
  by (cases "length p") (auto simp: chunk_count_def)

lemma chunk_count_long: "length p > 1048576 \<Longrightarrow> chunk_count p = Suc (chunk_count (drop 1048576 p))"
  by (auto simp: chunk_count_def)

lemma length_file_chunks: "length (file_chunks p) = chunk_count p"
proof (induction p rule: file_chunks.induct)
  case (1 p)
  then show ?case
    by (cases "length p \<le> 1048576") (simp_all add: file_chunks_short file_chunks_long chunk_count_short chunk_count_long)
qed

subsection \<open>One chunk\<close>

lemma encrypt_chunk_spec:
  assumes "gcm_provider ssl view alg" and "length key = 32"
    and "encrypt_chunk ssl p key nonce aad c = (Inr (ct, tag), c')"
  shows "ct = gcm_ciphertext alg key nonce p \<and> tag = gcm_tag alg key nonce aad p \<and> retired c' = retired c"
proof -
  from assms(3) obtain r where r: "aes256_gcm_encrypt ssl p key nonce aad c = (Inr r, c')" and
    ct: "ct = result_ciphertext r" and tag: "tag = overlay (replicate 16 0) 0 (result_tag r)"
    by (auto simp: encrypt_chunk_def mbind_Inr_iff mreturn_Inr_iff)
  have "length (result_tag r) = 16"
    using aes256_gcm_encrypt_spec(2) [OF assms(1,2) r] provider_tag_length(2) [OF assms(1)] by simp
  then have "tag = result_tag r" using tag by (simp add: overlay_exact)
  with ct aes256_gcm_encrypt_spec [OF assms(1,2) r] show ?thesis by simp
qed

lemma chunk_aad_eq: "make_chunk_aad hdr (make_record_header i n f) aad = hdr @ record_bytes i n f @ aad"
  by (simp add: make_chunk_aad_def make_record_header_eq)

lemma length_sealed_chunk:
  "gcm_provider ssl view alg \<Longrightarrow> length (sealed_chunk alg key hdr np aad i p final) = 25 + length p"
  by (simp add: sealed_chunk_def Let_def provider_tag_length)

lemma small_of_nat: "n \<le> 1048576 \<Longrightarrow> unat (word_of_nat n :: u32) = n"
  by (simp add: unat_of_nat take_bit_eq_mod)

lemma of_nat_less_chunk: "n \<le> 1048576 \<Longrightarrow> (word_of_nat n :: u32) < kChunkSize \<longleftrightarrow> n < 1048576"
  using small_of_nat [of n] header_constants(10) by (simp add: word_less_nat_alt)

text \<open>A turn of the sealing loop that returns, taken apart.\<close>

lemma seal_chunk_Inr:
  assumes "seal_chunk ssl put hdr np key aad idx s = (Inr final, s')"
  shows "\<exists>data i s1 r ct tag c out1 out2 out3.
    istream_read 1048576 (source s) = (data, i) \<and> (eofbit i \<or> \<not> istream_fail i) \<and>
    seal_is_final (word_of_nat (length data)) (s\<lparr>source := i\<rparr>) = (Inr final, s1) \<and>
    r = make_record_header idx (word_of_nat (length data)) (final_flag final) \<and>
    encrypt_chunk ssl data key (make_nonce np idx) (make_chunk_aad hdr r aad) (crypto s1) = (Inr (ct, tag), c) \<and>
    put (rh_serialized r) (sink s1) = (Inr (), out1) \<and> put ct out1 = (Inr (), out2) \<and>
    put tag out2 = (Inr (), out3) \<and> s' = s1\<lparr>crypto := c, sink := out3\<rparr>"
proof -
  from assms obtain data i s1 ct tag c out1 out2 out3 where
    "istream_read 1048576 (source s) = (data, i)" "eofbit i \<or> \<not> istream_fail i"
    "seal_is_final (word_of_nat (length data)) (s\<lparr>source := i\<rparr>) = (Inr final, s1)"
    "encrypt_chunk ssl data key (make_nonce np idx) (make_chunk_aad hdr (make_record_header idx
       (word_of_nat (length data)) (final_flag final)) aad) (crypto s1) = (Inr (ct, tag), c)"
    "put (rh_serialized (make_record_header idx (word_of_nat (length data)) (final_flag final))) (sink s1)
       = (Inr (), out1)" "put ct out1 = (Inr (), out2)" "put tag out2 = (Inr (), out3)"
    "s' = s1\<lparr>crypto := c, sink := out3\<rparr>"
    by (simp add: seal_chunk_def Let_def action_iffs transfer_iffs mget_Inr_iff if_throw_Inr_iff
        final_flag_def del: if_split flag_constants split del: if_split)
      (fastforce simp: action_iffs transfer_iffs split del: if_split)
  then show ?thesis by blast
qed

text \<open>What was read, and whether it was the last chunk.\<close>

lemma seal_input_cases:
  assumes good: "istream_good (source s)"
    and read: "istream_read 1048576 (source s) = (data, i)" and ok: "eofbit i \<or> \<not> istream_fail i"
    and final: "seal_is_final (word_of_nat (length data)) (s\<lparr>source := i\<rparr>) = (Inr final, s1)"
  shows "data = take 1048576 (remaining (source s)) \<and> sink s1 = sink s \<and> crypto s1 = crypto s \<and>
    (if final then length (remaining (source s)) \<le> 1048576 \<and> \<not> broken (source s)
     else length (remaining (source s)) > 1048576 \<and> istream_good (source s1) \<and> broken (source s1) = broken (source s) \<and>
       remaining (source s1) = drop 1048576 (remaining (source s)))"
proof (cases "1048576 \<le> length (remaining (source s))")
  case True
  with good read have data: "data = take 1048576 (remaining (source s))" and
    i: "i = (source s)\<lparr>remaining := drop 1048576 (remaining (source s))\<rparr>"
    by (auto simp: istream_read_def)
  have len: "length data = 1048576" using True data by simp
  have notless: "\<not> (word_of_nat (length data) :: u32) < kChunkSize"
    using of_nat_less_chunk [of "length data"] len by simp
  show ?thesis
    using seal_is_final_cases [OF final] notless good True data i by (auto split: if_splits)
next
  case False
  with good read ok have data: "data = remaining (source s)" and "\<not> broken (source s)"
    by (auto simp: istream_read_def istream_fail_def istream_good_def split: if_splits)
  have "(word_of_nat (length data) :: u32) < kChunkSize"
    using of_nat_less_chunk [of "length data"] False data by simp
  then have "final" "s1 = s\<lparr>source := i\<rparr>"
    using seal_is_final_cases [OF final] by (auto split: if_splits)
  then show ?thesis using data False \<open>\<not> broken (source s)\<close> by auto
qed

context output_sink
begin

text \<open>One turn appends one sealed chunk to the output.\<close>

lemma seal_chunk_spec:
  assumes prov: "gcm_provider ssl view alg" and key: "length key = 32" and np: "length np = 8"
    and good: "istream_good (source s)" and ok: "ok (sink s)"
    and run: "seal_chunk ssl put hdr np key aad idx s = (Inr final, s')"
  shows "content (sink s') = content (sink s) @
      sealed_chunk alg key hdr np aad idx (take 1048576 (remaining (source s))) final \<and> ok (sink s') \<and>
    retired (crypto s') = retired (crypto s) \<and>
    (if final then length (remaining (source s)) \<le> 1048576 \<and> \<not> broken (source s)
     else length (remaining (source s)) > 1048576 \<and> istream_good (source s') \<and>
       broken (source s') = broken (source s) \<and> remaining (source s') = drop 1048576 (remaining (source s)))"
proof -
  from seal_chunk_Inr [OF run] obtain data i s1 r ct tag c out1 out2 out3 where
    read: "istream_read 1048576 (source s) = (data, i)" "eofbit i \<or> \<not> istream_fail i" and
    fin: "seal_is_final (word_of_nat (length data)) (s\<lparr>source := i\<rparr>) = (Inr final, s1)" and
    r: "r = make_record_header idx (word_of_nat (length data)) (final_flag final)" and
    enc: "encrypt_chunk ssl data key (make_nonce np idx) (make_chunk_aad hdr r aad) (crypto s1) = (Inr (ct, tag), c)" and
    w1: "put (rh_serialized r) (sink s1) = (Inr (), out1)" and w2: "put ct out1 = (Inr (), out2)" and
    w3: "put tag out2 = (Inr (), out3)" and s': "s' = s1\<lparr>crypto := c, sink := out3\<rparr>"
    by blast
  note input = seal_input_cases [OF good read fin]
  note ciphertext = encrypt_chunk_spec [OF prov key enc]
  have o1: "content out1 = content (sink s) @ rh_serialized r \<and> ok out1"
    using write_returned [OF _ w1] ok input by simp
  have o2: "content out2 = content out1 @ ct \<and> ok out2" using write_returned [OF _ w2] o1 by simp
  have o3: "content out3 = content out2 @ tag \<and> ok out3" using write_returned [OF _ w3] o2 by simp
  have "sealed_chunk alg key hdr np aad idx data final = rh_serialized r @ ct @ tag"
    using ciphertext np r by (simp add: sealed_chunk_def Let_def make_nonce_eq make_chunk_aad_def make_record_header_eq)
  with o1 o2 o3 input ciphertext s' show ?thesis by simp
qed

text \<open>The loop appends the whole body, when it returns; it has then read an unbroken input to its end.\<close>

lemma seal_loop_spec:
  assumes prov: "gcm_provider ssl view alg" and key: "length key = 32" and np: "length np = 8"
    and good: "istream_good (source s)" and ok: "ok (sink s)"
    and run: "seal_loop ssl put hdr np key aad idx s = (Inr (), s')"
  shows "content (sink s') = content (sink s) @ file_body alg key hdr np aad idx (remaining (source s)) \<and>
    ok (sink s') \<and> retired (crypto s') = retired (crypto s) \<and> \<not> broken (source s) \<and>
    unat idx + chunk_count (remaining (source s)) \<le> 2 ^ 32"
  using good ok run
proof (induction "length (remaining (source s))" arbitrary: idx s rule: less_induct)
  case less
  obtain r1 s1 where turn: "seal_chunk ssl put hdr np key aad idx s = (r1, s1)" by fastforce
  with less.prems(3) obtain final where r1: "r1 = Inr final"
    by (cases r1) (simp_all add: seal_loop.simps [of ssl put hdr np key aad idx s])
  note spec = seal_chunk_spec [OF prov key np less.prems(1,2) turn [unfolded r1]]
  show ?case
  proof (cases final)
    case True
    with less.prems(3) turn r1 have "s1 = s'"
      by (simp add: seal_loop.simps [of ssl put hdr np key aad idx s])
    moreover have "unat idx < 2 ^ 32" using unsigned_less [of idx] by simp
    ultimately show ?thesis
      using spec True by (simp add: file_body_short chunk_count_short)
  next
    case False
    with less.prems(3) turn r1 have idx: "idx \<noteq> - 1" and
      rest: "seal_loop ssl put hdr np key aad (idx + 1) s1 = (Inr (), s')"
      by (simp_all add: seal_loop.simps [of ssl put hdr np key aad idx s] split: if_splits)
    have "length (remaining (source s1)) = length (remaining (source s)) - 1048576"
      and "length (remaining (source s)) > 1048576" using spec False by simp_all
    then have "length (remaining (source s1)) < length (remaining (source s))" by linarith
    from less.hyps [OF this _ _ rest] spec False
    have IH: "content (sink s') = content (sink s1) @ file_body alg key hdr np aad (idx + 1) (remaining (source s1)) \<and>
      ok (sink s') \<and> retired (crypto s') = retired (crypto s1) \<and> \<not> broken (source s1) \<and>
      unat (idx + 1) + chunk_count (remaining (source s1)) \<le> 2 ^ 32" by simp
    have "unat (idx + 1) = Suc (unat idx)"
      using idx by (metis Suc_eq_plus1 add.commute add_eq_0_iff unatSuc)
    with IH spec False show ?thesis
      by (simp add: file_body_long chunk_count_long)
  qed
qed

end

subsection \<open>What the opening loop accepts\<close>

text \<open>A turn that returns has read exactly one sealed chunk.\<close>

lemma chunk_turn_spec:
  assumes prov: "gcm_provider ssl view alg" and key: "length key = 32" and np: "length np = 8"
    and good: "istream_good (source s)"
    and turn: "chunk_turn ssl put hdr np key aad idx s rb r ct tag p i1 i2 i3 i4 res out c"
  defines "final \<equiv> rh_final_flag r = 1"
  shows "remaining (source s) = sealed_chunk alg key hdr np aad idx p final @ remaining i4 \<and>
    retired c = retired (crypto s) \<and> length p \<le> 1048576 \<and>
    (if final then remaining i4 = [] \<and> \<not> broken (source s)
     else length p = 1048576 \<and> istream_good i4 \<and> broken i4 = broken (source s))"
proof -
  note t = turn [unfolded chunk_turn_def]
  have rb: "length rb = 9" "remaining (source s) = rb @ remaining i1" "istream_good i1" "broken i1 = broken (source s)"
    using read_exact_Some read_exact_good t good by blast+
  have ct: "length ct = unat (rh_plaintext_size r)" "remaining i1 = ct @ remaining i2" "istream_good i2"
    "broken i2 = broken i1"
    using read_exact_Some read_exact_good t rb(3) by blast+
  have tag: "length tag = 16" "remaining i2 = tag @ remaining i3" "istream_good i3" "broken i3 = broken i2"
    using read_exact_Some read_exact_good t ct(3) by blast+
  have "decode_record rb = Inr r" using t rb(1) by (simp add: decode_record_def)
  from decode_record_valid [OF this] have r: "valid_record r" "rh_serialized r = rb" by simp_all
  have idx: "rh_index r = idx" using t by blast
  have bytes: "rb = record_bytes idx (rh_plaintext_size r) (rh_final_flag r)"
    using r idx make_record_header_eq unfolding valid_record_def by (metis RecordHeader.select_convs(1))
  have flag: "rh_final_flag r = final_flag final"
    using r(1) by (auto simp: valid_record_def final_flag_def final_def)
  have dec: "aes256_gcm_decrypt ssl ct tag key (make_nonce np idx) (make_chunk_aad hdr r aad) (crypto s) = (Inr p, c)"
    using t by (simp add: decrypt_chunk_def)
  note d = aes256_gcm_decrypt_spec [OF prov key dec]
  have p: "length p = unat (rh_plaintext_size r)" using d(3) ct(1) by simp
  have ct_p: "ct = gcm_ciphertext alg key (make_nonce np idx) p" using d(3) by simp
  have aad: "make_chunk_aad hdr r aad = hdr @ rb @ aad" using r(2) by (simp add: make_chunk_aad_def)
  have "word_of_nat (length p) = rh_plaintext_size r" using p by simp
  then have chunk: "sealed_chunk alg key hdr np aad idx p final = rb @ ct @ tag"
    using bytes flag ct_p d(2) aad np by (simp add: sealed_chunk_def Let_def gcm_tag_def make_nonce_eq)
  have small: "length p \<le> 1048576"
    using r(1) p header_constants(10) by (simp add: valid_record_def word_le_nat_alt)
  show ?thesis
  proof (cases final)
    case True
    then have "reject_trailing_data i3 = (Inr (), i4)" using t by (auto simp: final_def)
    from reject_trailing_data_Inr [OF this tag(3)] True chunk rb ct tag d(4) small show ?thesis
      by (simp add: final_def)
  next
    case False
    then have "i4 = i3" "rh_plaintext_size r = kChunkSize"
      using t r(1) by (auto simp: final_def valid_record_def)
    with False chunk rb ct tag d(4) small p show ?thesis by (simp add: final_def)
  qed
qed

context output_sink
begin

text \<open>
  The loop, when it returns, has read a list of sealed chunks up to the end of an unbroken input and
  appended their plaintext; every plaintext buffer it released had been wiped.
\<close>

lemma open_loop_spec:
  assumes prov: "gcm_provider ssl view alg" and key: "length key = 32" and np: "length np = 8"
    and good: "istream_good (source s)" and ok: "ok (sink s)"
    and run: "open_loop ssl put hdr np key aad idx s = (Inr (), s')"
  shows "\<exists>ps. well_chunked ps \<and> remaining (source s) = chunk_body alg key hdr np aad idx ps \<and>
    content (sink s') = content (sink s) @ concat ps \<and> ok (sink s') \<and>
    releases_wiped (crypto s) (crypto s') \<and> \<not> broken (source s) \<and> unat idx + length ps \<le> 2 ^ 32"
  using good ok run
proof (induction "length (remaining (source s))" arbitrary: idx s rule: less_induct)
  case less
  obtain r1 s1 where turn: "open_chunk ssl put hdr np key aad idx s = (r1, s1)" by fastforce
  with less.prems(3) obtain final where r1: "r1 = Inr final"
    by (cases r1) (simp_all add: open_loop.simps [of ssl put hdr np key aad idx s])
  from turn [unfolded r1 open_chunk_Inr_iff] obtain rb r ct tag p i1 i2 i3 i4 out c where
    t: "chunk_turn ssl put hdr np key aad idx s rb r ct tag p i1 i2 i3 i4 (Inr ()) out c" and
    final: "final = (rh_final_flag r = 1)" and
    s1: "s1 = s\<lparr>source := i4, sink := out, crypto := retire (replicate (length p) 0) c\<rparr>" by blast
  note spec = chunk_turn_spec [OF prov key np less.prems(1) t, folded final]
  have "put p (sink s) = (Inr (), out)" using t by (simp add: chunk_turn_def)
  from write_returned [OF less.prems(2) this]
  have out: "content (sink s1) = content (sink s) @ p" "ok (sink s1)" using s1 by simp_all
  have wiped: "releases_wiped (crypto s) (crypto s1)"
    using s1 spec by (simp add: releases_wiped_retire releases_wiped_same)
  show ?case
  proof (cases final)
    case True
    with less.prems(3) turn r1 have "s1 = s'"
      by (simp add: open_loop.simps [of ssl put hdr np key aad idx s])
    moreover have "unat idx < 2 ^ 32" using unsigned_less [of idx] by simp
    ultimately show ?thesis
      using spec True out wiped by (intro exI [of _ "[p]"]) auto
  next
    case False
    with less.prems(3) turn r1 have idx: "idx \<noteq> - 1" and
      rest: "open_loop ssl put hdr np key aad (idx + 1) s1 = (Inr (), s')"
      by (simp_all add: open_loop.simps [of ssl put hdr np key aad idx s] split: if_splits)
    have shorter: "length (remaining (source s1)) < length (remaining (source s))"
      using open_chunk_consumes [OF turn [unfolded r1]] .
    have "istream_good (source s1)" using spec False s1 by simp
    from less.hyps [OF shorter this out(2) rest] obtain ps where ps: "well_chunked ps"
      "remaining (source s1) = chunk_body alg key hdr np aad (idx + 1) ps"
      "content (sink s') = content (sink s1) @ concat ps" "ok (sink s')"
      "releases_wiped (crypto s1) (crypto s')" "\<not> broken (source s1)" "unat (idx + 1) + length ps \<le> 2 ^ 32"
      by blast
    have "unat (idx + 1) = Suc (unat idx)"
      using idx by (metis Suc_eq_plus1 add.commute add_eq_0_iff unatSuc)
    moreover have "ps \<noteq> []" using ps(1) by (cases ps) auto
    ultimately show ?thesis
      using ps spec False out s1 releases_wiped_trans [OF wiped ps(5)]
      by (intro exI [of _ "p # ps"]) (simp add: chunk_body_Cons)
  qed
qed

end

subsection \<open>Only authenticated plaintext is ever written\<close>

text \<open>
  A turn that fails has written nothing, or it failed while writing the plaintext of a chunk whose tag
  had been checked.
\<close>

lemma mreturn_Inl_iff [simp]: "mreturn x s = (Inl e, s') \<longleftrightarrow> False"
  by (simp add: mreturn_def)

lemma case_release_Inl_iff:
  "(case r of (Inl e, c) \<Rightarrow> release_and_throw buf e | (Inr u, c) \<Rightarrow> f u c) t = (Inl e', s') \<longleftrightarrow>
     (\<exists>c. r = (Inl e', c) \<and> s' = retire buf t) \<or> (\<exists>u c. r = (Inr u, c) \<and> f u c t = (Inl e', s'))"
  "(if b then release_and_throw buf e else m) t = (Inl e', s') \<longleftrightarrow>
     b \<and> e' = e \<and> s' = retire buf t \<or> \<not> b \<and> m t = (Inl e', s')"
  by (auto simp: release_and_throw_def split: prod.split sum.split)

lemma aes256_gcm_decrypt_error:
  "aes256_gcm_decrypt ssl ct tag key nonce aad s = (Inl e, s') \<Longrightarrow> plain_error e \<or> e = authentication_failure"
  by (auto simp: aes256_gcm_decrypt_def action_iffs mlift_def mthrow_def Let_def int_size_Inl_iff
      int_size_Inr_iff case_release_Inl_iff case_call_iff simp del: length_greater_0_conv
      dest: plain_error_init plain_error_update_aad make_context_result split: if_splits)

lemma cond_action_Inl_iff:
  "(if c then m else mreturn ()) s = (Inl e, s') \<longleftrightarrow> c \<and> m s = (Inl e, s')"
  by simp

lemma chunk_turnI:
  "read_exact 9 (source s) = (Inr (Some rb), i1) \<Longrightarrow> parse_record_header rb = Inr r \<Longrightarrow> rh_index r = idx \<Longrightarrow>
   rh_final_flag r = 0 \<longrightarrow> rh_plaintext_size r = kChunkSize \<Longrightarrow>
   read_exact (unat (rh_plaintext_size r)) i1 = (Inr (Some ct), i2) \<Longrightarrow>
   read_exact 16 i2 = (Inr (Some tag), i3) \<Longrightarrow>
   decrypt_chunk ssl ct tag key (make_nonce np idx) (make_chunk_aad hdr r aad) (crypto s) = (Inr p, c) \<Longrightarrow>
   put p (sink s) = (res, out) \<Longrightarrow>
   (rh_final_flag r = 1 \<and> reject_trailing_data i3 = (Inr (), i4) \<or> rh_final_flag r \<noteq> 1 \<and> i4 = i3) \<Longrightarrow>
   \<exists>rb r ct tag p i1 i2 i3 i4 c. chunk_turn ssl put hdr np key aad idx s rb r ct tag p i1 i2 i3 i4 res out c"
  unfolding chunk_turn_def by blast

lemma open_chunk_Inl:
  assumes "open_chunk ssl put hdr np key aad idx s = (Inl e, s')"
  shows "sink s' = sink s \<or>
    (\<exists>rb r ct tag p i1 i2 i3 i4 c.
      chunk_turn ssl put hdr np key aad idx s rb r ct tag p i1 i2 i3 i4 (Inl e) (sink s') c)"
  using assms
  unfolding open_chunk_def Let_def mbind_Inl_iff mbind_Inr_iff transfer_iffs mguard_Inl_iff mguard_Inr_iff
    cond_action_iff cond_action_Inl_iff read_or_reject_Inr_iff
  by (elim disjE exE conjE, simp_all)
    (rule disjI2, rule chunk_turnI, assumption, erule sym, assumption, (simp; fail), assumption,
      assumption, assumption, assumption, (simp; fail))+

text \<open>The input starts with the sealed chunks \<open>ps\<close> in order; the last of them may be the final one.\<close>

fun chunk_prefix ::
  "gcm_alg \<Rightarrow> bytes \<Rightarrow> bytes \<Rightarrow> bytes \<Rightarrow> bytes \<Rightarrow> u32 \<Rightarrow> bytes list \<Rightarrow> bytes" where
  "chunk_prefix alg key hdr np aad idx [] = []"
| "chunk_prefix alg key hdr np aad idx (p # ps) =
     sealed_chunk alg key hdr np aad idx p False @ chunk_prefix alg key hdr np aad (idx + 1) ps"

definition starts_with_chunks ::
  "gcm_alg \<Rightarrow> bytes \<Rightarrow> bytes \<Rightarrow> bytes \<Rightarrow> bytes \<Rightarrow> u32 \<Rightarrow> bytes list \<Rightarrow> bytes \<Rightarrow> bool" where
  "starts_with_chunks alg key hdr np aad idx ps input \<longleftrightarrow>
     input = chunk_body alg key hdr np aad idx ps \<or> (\<exists>rest. input = chunk_prefix alg key hdr np aad idx ps @ rest)"

lemma starts_with_no_chunks: "starts_with_chunks alg key hdr np aad idx [] input"
  by (simp add: starts_with_chunks_def)

lemma starts_with_chunks_Cons:
  assumes "starts_with_chunks alg key hdr np aad (idx + 1) ps rest"
    and "input = sealed_chunk alg key hdr np aad idx p False @ rest"
  shows "starts_with_chunks alg key hdr np aad idx (p # ps) input"
  using assms by (cases ps) (auto simp: starts_with_chunks_def)

context output_sink
begin

lemma open_loop_writes:
  assumes prov: "gcm_provider ssl view alg" and key: "length key = 32" and np: "length np = 8"
    and good: "istream_good (source s)" and ok: "ok (sink s)"
    and run: "open_loop ssl put hdr np key aad idx s = (r0, s')"
  shows "\<exists>ps accepted rest. starts_with_chunks alg key hdr np aad idx ps (remaining (source s)) \<and>
    concat ps = accepted @ rest \<and> content (sink s') = content (sink s) @ accepted \<and> ok (sink s')"
  using good ok run
proof (induction "length (remaining (source s))" arbitrary: idx s rule: less_induct)
  case less
  obtain r1 s1 where turn: "open_chunk ssl put hdr np key aad idx s = (r1, s1)" by fastforce
  show ?case
  proof (cases r1)
    case (Inl e)
    with less.prems(3) turn have s': "s1 = s'"
      by (simp add: open_loop.simps [of ssl put hdr np key aad idx s])
    from open_chunk_Inl [OF turn [unfolded Inl]] show ?thesis
    proof (elim disjE exE)
      assume "sink s1 = sink s"
      with s' less.prems(2) starts_with_no_chunks show ?thesis by (intro exI [of _ "[]"]) auto
    next
      fix rb r ct tag p i1 i2 i3 i4 c
      assume t: "chunk_turn ssl put hdr np key aad idx s rb r ct tag p i1 i2 i3 i4 (Inl e) (sink s1) c"
      from chunk_turn_spec [OF prov key np less.prems(1) t]
      have "starts_with_chunks alg key hdr np aad idx [p] (remaining (source s))"
        by (auto simp: starts_with_chunks_def split: if_splits)
      moreover have "put p (sink s) = (Inl e, sink s1)" using t by (simp add: chunk_turn_def)
      ultimately show ?thesis
        using write_threw [OF less.prems(2)] s' by (metis append.right_neutral concat.simps)
    qed
  next
    case (Inr final)
    from turn [unfolded Inr open_chunk_Inr_iff] obtain rb r ct tag p i1 i2 i3 i4 out c where
      t: "chunk_turn ssl put hdr np key aad idx s rb r ct tag p i1 i2 i3 i4 (Inr ()) out c" and
      final: "final = (rh_final_flag r = 1)" and
      s1: "s1 = s\<lparr>source := i4, sink := out, crypto := retire (replicate (length p) 0) c\<rparr>" by blast
    note spec = chunk_turn_spec [OF prov key np less.prems(1) t, folded final]
    have "put p (sink s) = (Inr (), out)" using t by (simp add: chunk_turn_def)
    from write_returned [OF less.prems(2) this]
    have out: "content (sink s1) = content (sink s) @ p" "ok (sink s1)" using s1 by simp_all
    show ?thesis
    proof (cases "final \<or> idx = - 1")
      case True
      with less.prems(3) turn Inr have "s1 = s'"
        by (auto simp: open_loop.simps [of ssl put hdr np key aad idx s] split: if_splits)
      moreover have "starts_with_chunks alg key hdr np aad idx [p] (remaining (source s))"
        using spec by (auto simp: starts_with_chunks_def split: if_splits)
      ultimately show ?thesis
        using out by (intro exI [of _ "[p]"] exI [of _ p] exI [of _ "[]"]) simp
    next
      case False
      with less.prems(3) turn Inr have
        rest: "open_loop ssl put hdr np key aad (idx + 1) s1 = (r0, s')"
        by (simp add: open_loop.simps [of ssl put hdr np key aad idx s])
      have shorter: "length (remaining (source s1)) < length (remaining (source s))"
        using open_chunk_consumes [OF turn [unfolded Inr]] .
      have "istream_good (source s1)" using spec False s1 by simp
      from less.hyps [OF shorter this out(2) rest] obtain ps accepted tail where ps:
        "starts_with_chunks alg key hdr np aad (idx + 1) ps (remaining (source s1))"
        "concat ps = accepted @ tail" "content (sink s') = content (sink s1) @ accepted" "ok (sink s')"
        by blast
      have "starts_with_chunks alg key hdr np aad idx (p # ps) (remaining (source s))"
        using starts_with_chunks_Cons [OF ps(1)] spec False s1 by simp
      with ps out show ?thesis
        by (intro exI [of _ "p # ps"] exI [of _ "p @ accepted"] exI [of _ tail]) simp
    qed
  qed
qed

end

end
