(* ===== verification/Payload_Returns.thy ===== *)
theory Payload_Returns
  imports File_Payload
begin

section \<open>Sealing and opening a payload succeed\<close>

text \<open>
  \<open>File_Payload\<close> shows what a loop that returned has done. Here: with a healthy provider, an input stream
  that can be read and an output that takes every write, the loops do return.
\<close>

subsection \<open>With a healthy provider and a reliable output the loops return\<close>

lemma decrypt_chunk_returns:
  assumes "gcm_provider ssl view alg" and "gcm_healthy ssl view alg" and "length key = 32"
    and "length p \<le> int_max" and "length aad \<le> int_max"
  shows "\<exists>c'. decrypt_chunk ssl (gcm_ciphertext alg key nonce p) (gcm_tag alg key nonce aad p) key nonce aad c = (Inr p, c')"
proof -
  have ct: "length (gcm_ciphertext alg key nonce p) \<le> int_max" using assms(4) by simp
  from aes256_gcm_decrypt_returns [OF assms(1-3) ct assms(5) provider_tag_length(2)
      [OF assms(1), where key = key and iv = nonce and aad = aad and p = p], where nonce = nonce and s = c]
  show ?thesis by (auto simp: decrypt_chunk_def gcm_tag_def)
qed

lemma encrypt_chunk_returns:
  assumes "gcm_provider ssl view alg" and "gcm_healthy ssl view alg" and "length key = 32"
    and "length p \<le> int_max" and "length aad \<le> int_max"
  shows "\<exists>ct tag c'. encrypt_chunk ssl p key nonce aad c = (Inr (ct, tag), c')"
proof -
  obtain r c' where "aes256_gcm_encrypt ssl p key nonce aad c = (Inr r, c')"
    using aes256_gcm_encrypt_returns [OF assms] by blast
  then show ?thesis by (simp add: encrypt_chunk_def mbind_def mreturn_def)
qed

text \<open>The associated data of a chunk, with the file header and the record header, fits an \<open>int\<close>.\<close>

definition aad_fits :: "bytes \<Rightarrow> bytes \<Rightarrow> bool" where
  "aad_fits hdr aad \<longleftrightarrow> length hdr + 9 + length aad \<le> int_max"

lemma index_succ:
  fixes idx :: u32
  assumes "unat idx + 1 < 2 ^ 32"
  shows "unat (idx + 1) = unat idx + 1" and "idx \<noteq> - 1"
proof -
  show succ: "unat (idx + 1) = unat idx + 1"
    using assms by (simp add: unat_word_ariths)
  show "idx \<noteq> - 1"
  proof
    assume "idx = - 1"
    with succ show False by simp
  qed
qed

lemma chunk_fits: "length p \<le> 1048576 \<Longrightarrow> length p \<le> int_max"
  by (simp add: int_max_def)

lemma seal_read_returns:
  assumes "istream_good (source s)" and "\<not> broken (source s)"
  shows "\<exists>data i final s1. istream_read 1048576 (source s) = (data, i) \<and> (eofbit i \<or> \<not> istream_fail i) \<and>
    seal_is_final (word_of_nat (length data)) (s\<lparr>source := i\<rparr>) = (Inr final, s1) \<and> length data \<le> 1048576"
proof (cases "1048576 \<le> length (remaining (source s))")
  case True
  let ?i = "(source s)\<lparr>remaining := drop 1048576 (remaining (source s))\<rparr>"
  let ?data = "take 1048576 (remaining (source s))"
  have data: "istream_read 1048576 (source s) = (?data, ?i)"
    using True assms by (simp add: istream_read_def)
  have len: "length ?data = 1048576" using True by simp
  have "\<not> (word_of_nat (length ?data) :: u32) < kChunkSize"
    using of_nat_less_chunk [of "length ?data"] len by simp
  then have "\<exists>final s1. seal_is_final (word_of_nat (length ?data)) (s\<lparr>source := ?i\<rparr>) = (Inr final, s1)"
    using assms by (cases "drop 1048576 (remaining (source s))")
      (auto simp: seal_is_final_def Let_def mbind_def on_source_def istream_peek_def mget_def mreturn_def istream_good_def)
  with data len assms show ?thesis by (fastforce simp: istream_good_def istream_fail_def)
next
  case False
  let ?i = "(source s)\<lparr>remaining := [], eofbit := True, failbit := True\<rparr>"
  have data: "istream_read 1048576 (source s) = (remaining (source s), ?i)"
    using False assms by (simp add: istream_read_def)
  have "(word_of_nat (length (remaining (source s))) :: u32) < kChunkSize"
    using of_nat_less_chunk [of "length (remaining (source s))"] False by simp
  then have "seal_is_final (word_of_nat (length (remaining (source s)))) (s\<lparr>source := ?i\<rparr>) = (Inr True, s\<lparr>source := ?i\<rparr>)"
    by (simp add: seal_is_final_def Let_def mreturn_def)
  with data False show ?thesis by fastforce
qed

context reliable_sink
begin

lemma open_chunk_returns:
  assumes prov: "gcm_provider ssl view alg" and healthy: "gcm_healthy ssl view alg" and key: "length key = 32"
    and np: "length np = 8" and aad: "aad_fits hdr aad" and good: "istream_good (source s)"
    and rel: "reliable (sink s)" and p: "length p \<le> 1048576"
    and input: "remaining (source s) = sealed_chunk alg key hdr np aad idx p final @ rest"
    and ends: "if final then rest = [] \<and> \<not> broken (source s) else length p = 1048576"
  shows "\<exists>s'. open_chunk ssl put hdr np key aad idx s = (Inr final, s') \<and> reliable (sink s') \<and>
    content (sink s') = content (sink s) @ p \<and>
    (\<not> final \<longrightarrow> source s' = (source s)\<lparr>remaining := rest\<rparr>)"
proof -
  define r where "r = make_record_header idx (word_of_nat (length p)) (final_flag final)"
  define rb where "rb = record_bytes idx (word_of_nat (length p)) (final_flag final)"
  define ct where "ct = gcm_ciphertext alg key (np @ u32_be idx) p"
  define tag where "tag = gcm_tag alg key (np @ u32_be idx) (hdr @ rb @ aad) p"
  have r: "rh_serialized r = rb" "rh_index r = idx" "rh_plaintext_size r = word_of_nat (length p)"
    "rh_final_flag r = final_flag final"
    by (simp_all add: r_def rb_def make_record_header_eq)
  have size_p: "unat (rh_plaintext_size r) = length p" using p r(3) by (simp add: small_of_nat)
  have flag: "final_flag final \<in> {kNotFinal, kFinal}" "(final_flag final = 1) = final" by (simp_all add: final_flag_def)
  have "(word_of_nat (length p) :: u32) \<le> kChunkSize"
    using p small_of_nat [OF p] header_constants(10) by (simp add: word_le_nat_alt)
  from parse_record_bytes [OF flag(1) this] have parse: "parse_record_header rb = Inr r"
    by (simp add: r_def rb_def)
  have split: "remaining (source s) = rb @ ct @ tag @ rest"
    using input by (simp add: sealed_chunk_def Let_def rb_def ct_def tag_def)
  let ?i1 = "(source s)\<lparr>remaining := ct @ tag @ rest\<rparr>" and ?i2 = "(source s)\<lparr>remaining := tag @ rest\<rparr>"
    and ?i3 = "(source s)\<lparr>remaining := rest\<rparr>"
  have 1: "read_exact 9 (source s) = (Inr (Some rb), ?i1)"
    using good split by (intro read_exact_enough) (simp_all add: rb_def)
  have 2: "read_exact (unat (rh_plaintext_size r)) ?i1 = (Inr (Some ct), ?i2)"
    using read_exact_enough [of ?i1 ct "tag @ rest"] good size_p by (simp add: ct_def)
  have 3: "read_exact 16 ?i2 = (Inr (Some tag), ?i3)"
    using read_exact_enough [of ?i2 tag rest] good provider_tag_length(2) [OF prov] by (simp add: tag_def)
  obtain i4 where 4: "rh_final_flag r = 1 \<and> reject_trailing_data ?i3 = (Inr (), i4) \<or> rh_final_flag r \<noteq> 1 \<and> i4 = ?i3"
    using reject_trailing_data_end [of ?i3] good ends r(4) flag(2) by (cases final) auto
  have full: "rh_final_flag r = 0 \<longrightarrow> rh_plaintext_size r = kChunkSize"
    using ends r flag(2) by (auto simp: final_flag_def kChunkSize_def split: if_splits)
  have aad': "make_chunk_aad hdr r aad = hdr @ rb @ aad" using r(1) by (simp add: make_chunk_aad_def)
  have "length (hdr @ rb @ aad) \<le> int_max" using aad by (simp add: aad_fits_def rb_def)
  from decrypt_chunk_returns [OF prov healthy key chunk_fits [OF p] this] obtain c where
    5: "decrypt_chunk ssl ct tag key (make_nonce np idx) (make_chunk_aad hdr r aad) (crypto s) = (Inr p, c)"
    unfolding ct_def tag_def aad' make_nonce_eq [OF np] by blast
  obtain out where 6: "put p (sink s) = (Inr (), out)" and rel': "reliable out"
    using reliable_returns [OF rel] by blast
  have turn: "chunk_turn ssl put hdr np key aad idx s rb r ct tag p ?i1 ?i2 ?i3 i4 (Inr ()) out c"
    unfolding chunk_turn_def using 1 parse r(2) full 2 3 4 5 6 by blast
  let ?s' = "s\<lparr>source := i4, sink := out, crypto := retire (replicate (length p) 0) c\<rparr>"
  have "open_chunk ssl put hdr np key aad idx s = (Inr final, ?s')"
    by (rule open_chunk_Inr_iff [THEN iffD2], intro exI conjI, rule turn) (simp_all add: r(4) flag(2))
  moreover have "content out = content (sink s) @ p"
    using write_returned [OF reliable_ok [OF rel] 6] by simp
  moreover have "\<not> final \<longrightarrow> i4 = ?i3" using 4 r(4) flag(2) by auto
  ultimately show ?thesis using rel' by (intro exI [of _ ?s']) simp
qed

lemma open_loop_returns:
  assumes prov: "gcm_provider ssl view alg" and healthy: "gcm_healthy ssl view alg" and key: "length key = 32"
    and np: "length np = 8" and aad: "aad_fits hdr aad"
    and good: "istream_good (source s)" and whole: "\<not> broken (source s)" and rel: "reliable (sink s)"
    and ps: "well_chunked ps" and input: "remaining (source s) = chunk_body alg key hdr np aad idx ps"
    and bound: "unat idx + length ps \<le> 2 ^ 32"
  shows "\<exists>s'. open_loop ssl put hdr np key aad idx s = (Inr (), s') \<and>
    content (sink s') = content (sink s) @ concat ps"
  using good whole rel ps input bound
proof (induction ps arbitrary: idx s)
  case (Cons p ps)
  show ?case
  proof (cases "ps = []")
    case True
    with Cons.prems open_chunk_returns [OF prov healthy key np aad Cons.prems(1,3), of p idx True "[]"]
    obtain s' where "open_chunk ssl put hdr np key aad idx s = (Inr True, s')"
      "content (sink s') = content (sink s) @ p" by auto
    then show ?thesis using True by (simp add: open_loop.simps [of ssl put hdr np key aad idx s])
  next
    case False
    let ?rest = "chunk_body alg key hdr np aad (idx + 1) ps"
    have p: "length p = 1048576" "well_chunked ps"
      using Cons.prems(4) False by (simp_all add: chunk_body_Cons)
    have input: "remaining (source s) = sealed_chunk alg key hdr np aad idx p False @ ?rest"
      using Cons.prems(5) False by (simp add: chunk_body_Cons)
    from p(1) have "length p \<le> 1048576" "if False then ?rest = [] \<and> \<not> broken (source s) else length p = 1048576"
      by simp_all
    from open_chunk_returns [OF prov healthy key np aad Cons.prems(1,3) this(1) input this(2)]
    obtain s1 where s1: "open_chunk ssl put hdr np key aad idx s = (Inr False, s1)" "reliable (sink s1)"
      "content (sink s1) = content (sink s) @ p" "source s1 = (source s)\<lparr>remaining := ?rest\<rparr>"
      by blast
    have "length ps > 0" using False by blast
    with Cons.prems(6) have fits: "unat idx + 1 < 2 ^ 32" by (simp del: length_greater_0_conv)
    have bound: "unat (idx + 1) + length ps \<le> 2 ^ 32"
      using Cons.prems(6) index_succ [OF fits] by simp
    have "istream_good (source s1)" "\<not> broken (source s1)" "remaining (source s1) = ?rest"
      using s1(4) Cons.prems(1,2) by simp_all
    from Cons.IH [OF this(1,2) s1(2) p(2) this(3) bound] index_succ [OF fits] s1 show ?thesis
      by (auto simp: open_loop.simps [of ssl put hdr np key aad idx s])
  qed
qed simp

lemma seal_chunk_returns:
  assumes prov: "gcm_provider ssl view alg" and healthy: "gcm_healthy ssl view alg" and key: "length key = 32"
    and aad: "aad_fits hdr aad" and good: "istream_good (source s)" "\<not> broken (source s)" and rel: "reliable (sink s)"
  shows "\<exists>final s'. seal_chunk ssl put hdr np key aad idx s = (Inr final, s') \<and> reliable (sink s')"
proof -
  obtain data i final s1 where
    read: "istream_read 1048576 (source s) = (data, i)" "eofbit i \<or> \<not> istream_fail i" and
    fin: "seal_is_final (word_of_nat (length data)) (s\<lparr>source := i\<rparr>) = (Inr final, s1)" and
    len: "length data \<le> 1048576"
    using seal_read_returns [OF good] by blast
  define r where "r = make_record_header idx (word_of_nat (length data)) (final_flag final)"
  have r': "make_record_header idx (word_of_nat (length data)) (if final then kFinal else kNotFinal) = r"
    by (simp add: r_def final_flag_def)
  have "length (make_chunk_aad hdr r aad) \<le> int_max"
    using aad by (simp add: r_def chunk_aad_eq aad_fits_def)
  from encrypt_chunk_returns [OF prov healthy key chunk_fits [OF len] this] obtain ct tag c where
    enc: "encrypt_chunk ssl data key (make_nonce np idx) (make_chunk_aad hdr r aad) (crypto s1) = (Inr (ct, tag), c)"
    by blast
  have "sink s1 = sink s" using seal_input_cases [OF good(1) read fin] by simp
  with rel have "reliable (sink s1)" by simp
  from reliable_returns [OF this, of "rh_serialized r"] obtain out1 where
    w1: "put (rh_serialized r) (sink s1) = (Inr (), out1)" "reliable out1" by blast
  from reliable_returns [OF w1(2), of ct] obtain out2 where w2: "put ct out1 = (Inr (), out2)" "reliable out2" by blast
  from reliable_returns [OF w2(2), of tag] obtain out3 where w3: "put tag out2 = (Inr (), out3)" "reliable out3" by blast
  have failed: "\<not> (\<not> eofbit i \<and> istream_fail i)" using read(2) by blast
  show ?thesis
    using read(1) failed fin enc w1 w2 w3 unfolding seal_chunk_def
    by (cases "eofbit i") (simp_all add: mbind_def on_source_def mget_def Let_def r' crypto_action_def sink_action_def mzoom_def mreturn_def
        del: flag_constants)
qed

lemma seal_loop_returns:
  assumes prov: "gcm_provider ssl view alg" and healthy: "gcm_healthy ssl view alg" and key: "length key = 32"
    and np: "length np = 8" and aad: "aad_fits hdr aad"
    and good: "istream_good (source s)" and whole: "\<not> broken (source s)" and rel: "reliable (sink s)"
    and bound: "unat idx + chunk_count (remaining (source s)) \<le> 2 ^ 32"
  shows "\<exists>s'. seal_loop ssl put hdr np key aad idx s = (Inr (), s')"
  using good whole rel bound
proof (induction "length (remaining (source s))" arbitrary: idx s rule: less_induct)
  case less
  obtain final s1 where turn: "seal_chunk ssl put hdr np key aad idx s = (Inr final, s1)" "reliable (sink s1)"
    using seal_chunk_returns [OF prov healthy key aad less.prems(1-3)] by blast
  note spec = seal_chunk_spec [OF prov key np less.prems(1) reliable_ok [OF less.prems(3)] turn(1)]
  show ?case
  proof (cases final)
    case True
    then show ?thesis using turn by (simp add: seal_loop.simps [of ssl put hdr np key aad idx s])
  next
    case False
    then have rest: "length (remaining (source s)) > 1048576" "istream_good (source s1)" "\<not> broken (source s1)"
      "remaining (source s1) = drop 1048576 (remaining (source s))"
      using spec less.prems(2) by simp_all
    have shorter: "length (remaining (source s1)) < length (remaining (source s))" using rest by simp
    have count: "chunk_count (remaining (source s)) = Suc (chunk_count (remaining (source s1)))"
      using chunk_count_long [OF rest(1)] rest(4) by simp
    have "chunk_count (remaining (source s1)) > 0"
      using length_file_chunks [of "remaining (source s1)"] file_chunks_nonempty
      by (metis length_greater_0_conv)
    with less.prems(4) count have fits: "unat idx + 1 < 2 ^ 32" by linarith
    then have "unat (idx + 1) + chunk_count (remaining (source s1)) \<le> 2 ^ 32"
      using less.prems(4) count index_succ [OF fits] by simp
    from less.hyps [OF shorter rest(2,3) turn(2) this] index_succ(2) [OF fits] turn(1) False show ?thesis
      by (simp add: seal_loop.simps [of ssl put hdr np key aad idx s])
  qed
qed

end

end
