(* ===== verification/Key_Derivation.thy ===== *)
theory Key_Derivation
  imports Payload_Returns
begin

section \<open>Keys of sealed files\<close>

text \<open>
  What HKDF and scrypt of OpenSSL are documented to do: a call that reports success has computed a
  function of its arguments. With it a file key is a function of the master key, or the password, and the
  header. The two kinds of sealed file, under a key and under a password, share the interface \<open>file_kind\<close>.
\<close>

record kdf_alg =
  hkdf_out :: "nat \<Rightarrow> kdf_param list \<Rightarrow> bytes"
  scrypt_out :: "bytes \<Rightarrow> bytes \<Rightarrow> u64 \<Rightarrow> u64 \<Rightarrow> u64 \<Rightarrow> u64 \<Rightarrow> nat \<Rightarrow> bytes"

definition kdf_provider :: "('o, 'c) openssl \<Rightarrow> kdf_alg \<Rightarrow> bool" where
  "kdf_provider ssl kdf \<longleftrightarrow>
     (\<forall>o1 c o2 n ps out. EVP_KDF_CTX_new ssl o1 = (Some c, o2) \<longrightarrow> EVP_KDF_derive ssl c n ps = (1, out) \<longrightarrow>
        out = hkdf_out kdf n ps) \<and>
     (\<forall>pw salt n r p m len o1 out o2. EVP_PBE_scrypt ssl pw salt n r p m len o1 = ((1, out), o2) \<longrightarrow>
        out = scrypt_out kdf pw salt n r p m len)"

definition kdf_healthy :: "('o, 'c) openssl \<Rightarrow> bool" where
  "kdf_healthy ssl \<longleftrightarrow>
     (\<forall>o1. fst (EVP_KDF_fetch_HKDF ssl o1)) \<and> (\<forall>o1. fst (EVP_KDF_CTX_new ssl o1) \<noteq> None) \<and>
     (\<forall>c n ps. fst (EVP_KDF_derive ssl c n ps) = 1) \<and>
     (\<forall>pw salt n r p m len o1. fst (fst (EVP_PBE_scrypt ssl pw salt n r p m len o1)) = 1)"

definition file_key :: "kdf_alg \<Rightarrow> bytes \<Rightarrow> bytes \<Rightarrow> bytes" where
  "file_key kdf master_key salt =
     fit 32 (hkdf_out kdf 32 (hkdf_params master_key salt (map byte_of_char ''anosecurekit file sealing v1'')))"

definition password_file_key :: "kdf_alg \<Rightarrow> bytes \<Rightarrow> bytes \<Rightarrow> bytes" where
  "password_file_key kdf password salt =
     fit 32 (scrypt_out kdf password salt 32768 8 1 67108864 32)"

lemma hkdf_sha256_value:
  assumes "kdf_provider ssl kdf" and "n \<noteq> 0" and "hkdf_sha256 ssl km salt info n s = (Inr okm, s')"
  shows "okm = fit n (hkdf_out kdf n (hkdf_params km salt info))"
proof -
  have law: "EVP_KDF_CTX_new ssl o1 = (Some c, o2) \<Longrightarrow> fst (EVP_KDF_derive ssl c m ps) = 1 \<Longrightarrow>
      snd (EVP_KDF_derive ssl c m ps) = hkdf_out kdf m ps" for o1 c o2 m ps
    using assms(1) unfolding kdf_provider_def by (metis prod.collapse)
  show ?thesis
    using assms(2,3)
    by (auto simp: hkdf_sha256_def mbind_Inr_iff on_provider_iff mthrow_def mreturn_def case_prod_beta
        split: option.splits if_splits) (metis law)
qed

lemma scrypt_key_value:
  assumes "kdf_provider ssl kdf" and "scrypt_key ssl password salt ps s = (Inr k, s')"
  shows "k = fit 32 (scrypt_out kdf password salt (sp_n ps) (ucast (sp_r ps)) (ucast (sp_p ps)) (sp_max_memory ps) 32)"
proof -
  have law: "EVP_PBE_scrypt ssl pw salt n r p m len o1 = ((1, out), o2) \<Longrightarrow> out = scrypt_out kdf pw salt n r p m len"
    for pw salt n r p m len o1 out o2
    using assms(1) unfolding kdf_provider_def by blast
  show ?thesis
    using assms(2)
    by (auto simp: scrypt_key_def mbind_Inr_iff on_provider_iff mthrow_def mreturn_def
        split: if_splits prod.splits dest!: law)
qed

lemma derive_file_key_value:
  assumes "kdf_provider ssl kdf" and "derive_file_key ssl key h s = (Inr k, s')"
  shows "k = file_key kdf key (fh_salt h)"
proof -
  from assms(2) obtain okm t where
    okm: "hkdf_sha256 ssl key (fh_salt h) (map byte_of_char ''anosecurekit file sealing v1'') 32 s = (Inr okm, t)" and
    k: "k = overlay (replicate 32 0) 0 (take 32 okm)"
    by (auto simp: derive_file_key_def Let_def mbind_Inr_iff wipe_on_exit_iff mreturn_Inr_iff)
  from hkdf_sha256_value [OF assms(1) _ okm] show ?thesis
    by (simp add: k file_key_def overlay_exact)
qed

lemma derive_password_file_key_value:
  assumes "kdf_provider ssl kdf" and "ph_scrypt_n h = kScryptN" and "ph_scrypt_r h = kScryptR"
    and "ph_scrypt_p h = kScryptP" and "derive_password_file_key ssl password h s = (Inr k, s')"
  shows "k = password_file_key kdf password (ph_salt h)"
proof -
  from assms(5) have "scrypt_key ssl password (ph_salt h)
      \<lparr>sp_n = ucast (ph_scrypt_n h), sp_r = ph_scrypt_r h, sp_p = ph_scrypt_p h, sp_max_memory = kScryptMaxMemory\<rparr> s =
      (Inr k, s')"
    by (auto simp: derive_password_file_key_def mbind_Inr_iff mlift_def)
  from scrypt_key_value [OF assms(1) this] assms(2-4) show ?thesis
    by (simp add: password_file_key_def kScryptN_def kScryptR_def kScryptP_def kScryptMaxMemory_def)
qed

lemma hkdf_sha256_returns:
  fixes ssl :: "('o, 'b) openssl"
  assumes "kdf_healthy ssl"
  shows "\<exists>okm s'. hkdf_sha256 ssl km salt info n s = (Inr okm, s')"
proof (cases "n = 0")
  case True
  then show ?thesis by (simp add: hkdf_sha256_def mreturn_def)
next
  case False
  obtain f s1 where f: "on_provider (EVP_KDF_fetch_HKDF ssl) s = (Inr f :: bool result, s1)"
    using on_provider_returns by metis
  obtain c s2 where c: "on_provider (EVP_KDF_CTX_new ssl) s1 = (Inr c :: 'b option result, s2)"
    using on_provider_returns by metis
  have "f" using f assms by (simp add: kdf_healthy_def on_provider_iff) (metis fst_conv)
  have "c \<noteq> None" using c assms by (simp add: kdf_healthy_def on_provider_iff) (metis fst_conv)
  then obtain c' where c': "c = Some c'" by blast
  have "fst (EVP_KDF_derive ssl c' n (hkdf_params km salt info)) = 1"
    using assms by (simp add: kdf_healthy_def)
  with False f c c' \<open>f\<close> show ?thesis
    by (auto simp: hkdf_sha256_def mbind_def mreturn_def split: prod.split)
qed

lemma derive_file_key_returns:
  assumes "kdf_healthy ssl"
  shows "\<exists>k s'. derive_file_key ssl key h s = (Inr k, s')"
proof -
  obtain okm t where
    "hkdf_sha256 ssl key (fh_salt h) (map byte_of_char ''anosecurekit file sealing v1'') 32 s = (Inr okm, t)"
    using hkdf_sha256_returns [OF assms] by metis
  then show ?thesis
    by (simp add: derive_file_key_def Let_def mbind_def wipe_on_exit_def mreturn_def)
qed

lemma derive_password_file_key_returns:
  assumes "kdf_healthy ssl" and "password \<noteq> []"
  shows "\<exists>k s'. derive_password_file_key ssl password h s = (Inr k, s')"
proof -
  have ok: "fst (fst (EVP_PBE_scrypt ssl pw salt n r p m len o1)) = 1" for pw salt n r p m len o1
    using assms(1) by (simp add: kdf_healthy_def)
  show ?thesis
    using assms(2)
    by (simp add: derive_password_file_key_def require_non_empty_password_def mlift_def mbind_def scrypt_key_def
        on_provider_def mreturn_def case_prod_beta ok)
qed

lemma make_header_returns:
  assumes "gcm_healthy ssl view alg"
  shows "\<exists>h s'. make_header ssl s = (Inr h, s')"
proof -
  obtain salt s1 where 1: "random_bytes ssl kSaltSize s = (Inr salt, s1)"
    using random_bytes_returns [OF assms] by blast
  obtain np s2 where 2: "random_bytes ssl kNoncePrefixSize s1 = (Inr np, s2)"
    using random_bytes_returns [OF assms] by blast
  from 1 2 show ?thesis by (simp add: make_header_def Let_def mbind_def mreturn_def)
qed

lemma make_password_header_returns:
  assumes "gcm_healthy ssl view alg"
  shows "\<exists>h s'. make_password_header ssl s = (Inr h, s')"
proof -
  obtain salt s1 where 1: "random_bytes ssl kSaltSize s = (Inr salt, s1)"
    using random_bytes_returns [OF assms] by blast
  obtain np s2 where 2: "random_bytes ssl kNoncePrefixSize s1 = (Inr np, s2)"
    using random_bytes_returns [OF assms] by blast
  from 1 2 show ?thesis by (simp add: make_password_header_def Let_def mbind_def mreturn_def)
qed

end
