(* ===== verification/File_Streams.thy ===== *)
theory File_Streams
  imports Key_Derivation
begin

section \<open>Sealing and opening streams\<close>

text \<open>
  The stream overloads of \<open>seal_file\<close>, \<open>open_file\<close>, \<open>seal_file_with_password\<close> and
  \<open>open_file_with_password\<close> of \<open>src/file.cpp\<close>. They take a \<open>std::ostream\<close>, whose buffer is virtual: \<open>put\<close> is
  what \<open>write_all\<close> does on it. Files sealed under a key and under a password differ in the
  header and in the derivation of the file key; the interface \<open>file_kind\<close> states what both promise, and
  \<open>sealing\<close> combines it with an output. Every property of sealed streams is proved once there.
\<close>

definition seal_file_stream ::
  "('o, 'c) openssl \<Rightarrow> 'out put \<Rightarrow> bytes \<Rightarrow> bytes \<Rightarrow> (('out, 'o) transfer, exn, unit) action" where
  "seal_file_stream ssl put key aad =
     mbind (crypto_action (make_header ssl)) (\<lambda>header.
     mbind (crypto_action (derive_file_key ssl key header)) (\<lambda>file_key.
     wipe_after file_key
       (seal_stream_payload ssl put (fh_serialized header) (fh_nonce_prefix header) file_key aad)))"

definition open_file_stream ::
  "('o, 'c) openssl \<Rightarrow> 'out put \<Rightarrow> bytes \<Rightarrow> bytes \<Rightarrow> (('out, 'o) transfer, exn, unit) action" where
  "open_file_stream ssl put key aad =
     mbind (source_action (read_or_reject kHeaderSize)) (\<lambda>header_bytes.
     mbind (mlift (parse_header header_bytes)) (\<lambda>header.
     mbind (crypto_action (derive_file_key ssl key header)) (\<lambda>file_key.
     wipe_after file_key
       (open_file_payload ssl put (fh_serialized header) (fh_nonce_prefix header) file_key aad))))"

definition seal_file_with_password_stream ::
  "('o, 'c) openssl \<Rightarrow> 'out put \<Rightarrow> bytes \<Rightarrow> bytes \<Rightarrow> (('out, 'o) transfer, exn, unit) action" where
  "seal_file_with_password_stream ssl put password aad =
     mbind (mlift (require_non_empty_password password)) (\<lambda>_.
     mbind (crypto_action (make_password_header ssl)) (\<lambda>header.
     mbind (crypto_action (derive_password_file_key ssl password header)) (\<lambda>file_key.
     wipe_after file_key
       (seal_stream_payload ssl put (ph_serialized header) (ph_nonce_prefix header) file_key aad))))"

definition open_file_with_password_stream ::
  "('o, 'c) openssl \<Rightarrow> 'out put \<Rightarrow> bytes \<Rightarrow> bytes \<Rightarrow> (('out, 'o) transfer, exn, unit) action" where
  "open_file_with_password_stream ssl put password aad =
     mbind (mlift (require_non_empty_password password)) (\<lambda>_.
     mbind (source_action (read_or_reject kPasswordHeaderSize)) (\<lambda>header_bytes.
     mbind (mlift (parse_password_header header_bytes)) (\<lambda>header.
     mbind (crypto_action (derive_password_file_key ssl password header)) (\<lambda>file_key.
     wipe_after file_key
       (open_file_payload ssl put (ph_serialized header) (ph_nonce_prefix header) file_key aad)))))"

subsection \<open>The common course of both kinds\<close>

definition seal_with ::
  "('o, 'c) openssl \<Rightarrow> 'out put \<Rightarrow> ('o runtime, exn, 'h) action \<Rightarrow> ('h \<Rightarrow> bytes) \<Rightarrow> ('h \<Rightarrow> bytes) \<Rightarrow>
     ('h \<Rightarrow> ('o runtime, exn, bytes) action) \<Rightarrow> bytes \<Rightarrow> (('out, 'o) transfer, exn, unit) action" where
  "seal_with ssl put create serialized prefix derive aad =
     mbind (crypto_action create) (\<lambda>header.
     mbind (crypto_action (derive header)) (\<lambda>file_key.
     wipe_after file_key (seal_stream_payload ssl put (serialized header) (prefix header) file_key aad)))"

definition open_with ::
  "('o, 'c) openssl \<Rightarrow> 'out put \<Rightarrow> nat \<Rightarrow> (bytes \<Rightarrow> 'h result) \<Rightarrow> ('h \<Rightarrow> bytes) \<Rightarrow> ('h \<Rightarrow> bytes) \<Rightarrow>
     ('h \<Rightarrow> ('o runtime, exn, bytes) action) \<Rightarrow> bytes \<Rightarrow> (('out, 'o) transfer, exn, unit) action" where
  "open_with ssl put header_size parse serialized prefix derive aad =
     mbind (source_action (read_or_reject header_size)) (\<lambda>header_bytes.
     mbind (mlift (parse header_bytes)) (\<lambda>header.
     mbind (crypto_action (derive header)) (\<lambda>file_key.
     wipe_after file_key (open_file_payload ssl put (serialized header) (prefix header) file_key aad))))"

lemma stream_overloads:
  "seal_file_stream ssl put key aad =
     seal_with ssl put (make_header ssl) fh_serialized fh_nonce_prefix (derive_file_key ssl key) aad"
  "open_file_stream ssl put key aad =
     open_with ssl put 50 parse_header fh_serialized fh_nonce_prefix (derive_file_key ssl key) aad"
  "password \<noteq> [] \<Longrightarrow> seal_file_with_password_stream ssl put password aad =
     seal_with ssl put (make_password_header ssl) ph_serialized ph_nonce_prefix
       (derive_password_file_key ssl password) aad"
  "password \<noteq> [] \<Longrightarrow> open_file_with_password_stream ssl put password aad =
     open_with ssl put 64 parse_password_header ph_serialized ph_nonce_prefix
       (derive_password_file_key ssl password) aad"
  by (simp_all add: seal_file_stream_def open_file_stream_def seal_file_with_password_stream_def
      open_file_with_password_stream_def seal_with_def open_with_def require_non_empty_password_def
      mlift_Inr)

lemma empty_password_refused:
  "seal_file_with_password_stream ssl put [] aad s = (Inl (Error invalid_input ''password must not be empty''), s)"
  "open_file_with_password_stream ssl put [] aad s = (Inl (Error invalid_input ''password must not be empty''), s)"
  by (simp_all add: seal_file_with_password_stream_def open_file_with_password_stream_def
      require_non_empty_password_def mbind_def mlift_def)

subsection \<open>The interface of a kind of sealed file\<close>

text \<open>
  \<open>ready\<close> is what the kind needs to derive keys (a password that is not empty).
\<close>

locale file_kind =
  fixes ssl :: "('o, 'c) openssl" and kdf :: kdf_alg
    and create :: "('o runtime, exn, 'h) action"
    and header_size :: nat
    and parse :: "bytes \<Rightarrow> 'h result"
    and serialized prefix :: "'h \<Rightarrow> bytes"
    and derive :: "'h \<Rightarrow> ('o runtime, exn, bytes) action"
    and valid :: "'h \<Rightarrow> bool"
    and key_of :: "'h \<Rightarrow> bytes"
    and ready :: bool
  assumes created: "create s = (r, s') \<Longrightarrow> retired s' = retired s \<and>
      (case r of Inl e \<Rightarrow> code_of e = Some backend_failure | Inr h \<Rightarrow> valid h)"
    and parsed: "length data = header_size \<Longrightarrow> parse data = Inr h \<Longrightarrow> valid h \<and> serialized h = data"
    and parses: "valid h \<Longrightarrow> length (serialized h) = header_size \<and> parse (serialized h) = Inr h \<and> length (prefix h) = 8"
    and not_parsed: "parse data = Inl e \<Longrightarrow> e = file_packet_error"
    and derived: "derive h s = (k, s') \<Longrightarrow> releases_wiped s s' \<and>
      (case k of Inl e \<Rightarrow> code_of e \<in> {Some backend_failure, Some invalid_input} | Inr k' \<Rightarrow> length k' = 32)"
    and derived_value: "kdf_provider ssl kdf \<Longrightarrow> valid h \<Longrightarrow> derive h s = (Inr k', s') \<Longrightarrow> k' = key_of h"
    and create_returns: "gcm_healthy ssl view alg \<Longrightarrow> \<exists>h s'. create s = (Inr h, s')"
    and derive_returns: "kdf_healthy ssl \<Longrightarrow> ready \<Longrightarrow> \<exists>k' s'. derive h s = (Inr k', s')"

text \<open>What a sealed file is: the header and the chunks under the key that belongs to it.\<close>

definition sealed_file :: "gcm_alg \<Rightarrow> bytes \<Rightarrow> bytes \<Rightarrow> bytes \<Rightarrow> bytes \<Rightarrow> bytes list \<Rightarrow> bytes" where
  "sealed_file alg key hdr np aad ps = hdr @ chunk_body alg key hdr np aad 0 ps"

locale sealing = output_sink put content ok + file_kind ssl kdf create header_size parse serialized prefix derive valid key_of ready
  for put :: "'out put" and content :: "'out \<Rightarrow> bytes" and ok :: "'out \<Rightarrow> bool"
    and ssl :: "('o, 'c) openssl" and kdf :: kdf_alg and create :: "('o runtime, exn, 'h) action" and header_size :: nat
    and parse :: "bytes \<Rightarrow> 'h result" and serialized prefix :: "'h \<Rightarrow> bytes"
    and derive :: "'h \<Rightarrow> ('o runtime, exn, bytes) action" and valid :: "'h \<Rightarrow> bool" and key_of :: "'h \<Rightarrow> bytes"
    and ready :: bool
begin

lemma seal_with_spec:
  assumes prov: "gcm_provider ssl view alg" and kdf: "kdf_provider ssl kdf"
    and good: "istream_good (source s)" and ok: "ok (sink s)"
    and run: "seal_with ssl put create serialized prefix derive aad s = (Inr (), s')"
  shows "\<exists>h. valid h \<and> ok (sink s') \<and>
    content (sink s') = content (sink s) @
      sealed_file alg (key_of h) (serialized h) (prefix h) aad (file_chunks (remaining (source s))) \<and>
    \<not> broken (source s) \<and> chunk_count (remaining (source s)) \<le> 2 ^ 32 \<and> releases_wiped (crypto s) (crypto s')"
proof -
  from run obtain h c1 k c2 out t where
    h: "create (crypto s) = (Inr h, c1)" and k: "derive h c1 = (Inr k, c2)" and
    out: "put (serialized h) (sink s) = (Inr (), out)" and
    loop: "seal_loop ssl put (serialized h) (prefix h) k aad 0 (s\<lparr>crypto := c2, sink := out\<rparr>) = (Inr (), t)" and
    s': "s' = t\<lparr>crypto := retire (replicate (length k) 0) (crypto t)\<rparr>"
    by (auto simp: seal_with_def seal_stream_payload_def action_iffs transfer_iffs)
  have valid: "valid h" and c1: "retired c1 = retired (crypto s)" using created [OF h] by simp_all
  have key: "length k = 32" "k = key_of h" and c2: "releases_wiped c1 c2"
    using derived [OF k] derived_value [OF kdf valid k] by simp_all
  have written: "content out = content (sink s) @ serialized h \<and> ok out"
    using write_returned [OF ok out] .
  have np: "length (prefix h) = 8" using parses [OF valid] by simp
  from seal_loop_spec [OF prov key(1) np _ _ loop] good written
  have loop': "content (sink t) = content out @ file_body alg k (serialized h) (prefix h) aad 0 (remaining (source s))"
    "ok (sink t)" "retired (crypto t) = retired c2" "\<not> broken (source s)" "chunk_count (remaining (source s)) \<le> 2 ^ 32"
    by simp_all
  have "releases_wiped (crypto s) c2" using c1 c2 releases_wiped_same releases_wiped_trans by blast
  then have "releases_wiped (crypto s) (crypto t)" using loop'(3) releases_wiped_same releases_wiped_trans by blast
  then have "releases_wiped (crypto s) (crypto s')" using s' by (simp add: releases_wiped_retire)
  with valid written loop' key s' show ?thesis
    by (intro exI [of _ h]) (simp add: sealed_file_def file_body_def)
qed

lemma open_with_Inr:
  assumes "open_with ssl put header_size parse serialized prefix derive aad s = (Inr (), s')" and "istream_good (source s)"
  shows "\<exists>h i k c t. valid h \<and> remaining (source s) = serialized h @ remaining i \<and> istream_good i \<and>
    broken i = broken (source s) \<and> derive h (crypto s) = (Inr k, c) \<and>
    open_loop ssl put (serialized h) (prefix h) k aad 0 (s\<lparr>source := i, crypto := c\<rparr>) = (Inr (), t) \<and>
    s' = t\<lparr>crypto := retire (replicate (length k) 0) (crypto t)\<rparr>"
proof -
  from assms(1) obtain data i h k c t where
    data: "read_exact header_size (source s) = (Inr (Some data), i)" and h: "Inr h = parse data" and
    rest: "derive h (crypto s) = (Inr k, c)"
    "open_loop ssl put (serialized h) (prefix h) k aad 0 (s\<lparr>source := i, crypto := c\<rparr>) = (Inr (), t)"
    "s' = t\<lparr>crypto := retire (replicate (length k) 0) (crypto t)\<rparr>"
    by (auto simp: open_with_def open_file_payload_def action_iffs transfer_iffs read_or_reject_Inr_iff)
  have "valid h" "serialized h = data" using parsed [OF _ h [symmetric]] read_exact_Some [OF data] by blast+
  moreover have "remaining (source s) = data @ remaining i" "istream_good i" "broken i = broken (source s)"
    using read_exact_Some [OF data] read_exact_good [OF data assms(2)] by simp_all
  ultimately show ?thesis using rest by blast
qed

lemma open_with_spec:
  assumes prov: "gcm_provider ssl view alg" and kdf: "kdf_provider ssl kdf"
    and good: "istream_good (source s)" and ok: "ok (sink s)"
    and run: "open_with ssl put header_size parse serialized prefix derive aad s = (Inr (), s')"
  shows "\<exists>h ps. valid h \<and> well_chunked ps \<and> ok (sink s') \<and>
    remaining (source s) = sealed_file alg (key_of h) (serialized h) (prefix h) aad ps \<and>
    content (sink s') = content (sink s) @ concat ps \<and>
    \<not> broken (source s) \<and> length ps \<le> 2 ^ 32 \<and> releases_wiped (crypto s) (crypto s')"
proof -
  from open_with_Inr [OF run good] obtain h i k c t where
    h: "valid h" "remaining (source s) = serialized h @ remaining i" "istream_good i" "broken i = broken (source s)" and
    k: "derive h (crypto s) = (Inr k, c)" and
    loop: "open_loop ssl put (serialized h) (prefix h) k aad 0 (s\<lparr>source := i, crypto := c\<rparr>) = (Inr (), t)" and
    s': "s' = t\<lparr>crypto := retire (replicate (length k) 0) (crypto t)\<rparr>"
    by blast
  have key: "length k = 32" "k = key_of h" and c: "releases_wiped (crypto s) c"
    using derived [OF k] derived_value [OF kdf h(1) k] by simp_all
  have np: "length (prefix h) = 8" using parses [OF h(1)] by simp
  have start: "istream_good (source (s\<lparr>source := i, crypto := c\<rparr>))" "ok (sink (s\<lparr>source := i, crypto := c\<rparr>))"
    using h(3) ok by simp_all
  from open_loop_spec [OF prov key(1) np start loop] obtain ps where
    ps: "well_chunked ps" "remaining i = chunk_body alg k (serialized h) (prefix h) aad 0 ps"
    "content (sink t) = content (sink s) @ concat ps" "ok (sink t)" "releases_wiped c (crypto t)" "\<not> broken i" "length ps \<le> 2 ^ 32"
    by auto
  have "releases_wiped (crypto s) (crypto t)" using c ps(5) releases_wiped_trans by blast
  then have "releases_wiped (crypto s) (crypto s')" using s' by (simp add: releases_wiped_retire)
  with h ps key s' show ?thesis
    by (intro exI [of _ h] exI [of _ ps]) (simp add: sealed_file_def)
qed

text \<open>
  However the run ends, what it has appended to the output is the beginning of the plaintext of sealed
  chunks, all under the file's key, with which the input starts.
\<close>

lemma open_with_writes:
  assumes prov: "gcm_provider ssl view alg" and kdf: "kdf_provider ssl kdf"
    and good: "istream_good (source s)" and ok: "ok (sink s)"
    and run: "open_with ssl put header_size parse serialized prefix derive aad s = (r, s')"
  shows "ok (sink s') \<and> (\<exists>accepted. content (sink s') = content (sink s) @ accepted \<and>
    (accepted = [] \<or> (\<exists>h input ps rest. valid h \<and> remaining (source s) = serialized h @ input \<and>
       starts_with_chunks alg (key_of h) (serialized h) (prefix h) aad 0 ps input \<and> concat ps = accepted @ rest)))"
proof -
  have "sink s' = sink s \<or> (\<exists>data i h k c r0 t. read_exact header_size (source s) = (Inr (Some data), i) \<and>
      Inr h = parse data \<and> derive h (crypto s) = (Inr k, c) \<and>
      open_loop ssl put (serialized h) (prefix h) k aad 0 (s\<lparr>source := i, crypto := c\<rparr>) = (r0, t) \<and> sink s' = sink t)"
    using run
    by (cases r) (auto simp: open_with_def open_file_payload_def action_iffs transfer_iffs read_or_reject_Inr_iff,
      blast+)
  then show ?thesis
  proof (elim disjE exE conjE)
    assume "sink s' = sink s"
    with ok show ?thesis by simp
  next
    fix data i h k c r0 t
    assume data: "read_exact header_size (source s) = (Inr (Some data), i)" and h: "Inr h = parse data"
      and k: "derive h (crypto s) = (Inr k, c)" and sink: "sink s' = sink t"
      and loop: "open_loop ssl put (serialized h) (prefix h) k aad 0 (s\<lparr>source := i, crypto := c\<rparr>) = (r0, t)"
    have valid: "valid h" "serialized h = data"
      using parsed [OF _ h [symmetric]] read_exact_Some [OF data] by blast+
    have input: "remaining (source s) = serialized h @ remaining i" "istream_good i"
      using read_exact_Some [OF data] read_exact_good [OF data good] valid by simp_all
    have key: "length k = 32" "k = key_of h"
      using derived [OF k] derived_value [OF kdf valid(1) k] by simp_all
    have np: "length (prefix h) = 8" using parses [OF valid(1)] by simp
    have start: "istream_good (source (s\<lparr>source := i, crypto := c\<rparr>))" "ok (sink (s\<lparr>source := i, crypto := c\<rparr>))"
      using input ok by simp_all
    from open_loop_writes [OF prov key(1) np start loop] obtain ps accepted rest where
      "starts_with_chunks alg k (serialized h) (prefix h) aad 0 ps (remaining i)" "concat ps = accepted @ rest"
      "content (sink t) = content (sink s) @ accepted" "ok (sink t)"
      by auto
    with sink input valid key show ?thesis by auto
  qed
qed

end

subsection \<open>When nothing else fails\<close>

locale reliable_sealing = sealing put content ok ssl kdf create header_size parse serialized prefix derive valid key_of ready +
    reliable_sink put content ok reliable
  for put :: "'out put" and content :: "'out \<Rightarrow> bytes" and ok :: "'out \<Rightarrow> bool"
    and ssl :: "('o, 'c) openssl" and kdf :: kdf_alg and create :: "('o runtime, exn, 'h) action" and header_size :: nat
    and parse :: "bytes \<Rightarrow> 'h result" and serialized prefix :: "'h \<Rightarrow> bytes"
    and derive :: "'h \<Rightarrow> ('o runtime, exn, bytes) action" and valid :: "'h \<Rightarrow> bool" and key_of :: "'h \<Rightarrow> bytes"
    and ready :: bool and reliable :: "'out \<Rightarrow> bool"
begin

lemma seal_with_returns:
  assumes prov: "gcm_provider ssl view alg" and healthy: "gcm_healthy ssl view alg" and kdfs: "kdf_healthy ssl" "ready"
    and good: "istream_good (source s)" "\<not> broken (source s)" and rel: "reliable (sink s)"
    and aad: "length aad \<le> int_max - 9 - header_size" "header_size \<le> 1000"
    and small: "chunk_count (remaining (source s)) \<le> 2 ^ 32"
  shows "\<exists>s'. seal_with ssl put create serialized prefix derive aad s = (Inr (), s')"
proof -
  obtain h c1 where h: "create (crypto s) = (Inr h, c1)" using create_returns [OF healthy] by blast
  then have valid: "valid h" using created by fastforce
  obtain k c2 where k: "derive h c1 = (Inr k, c2)" using derive_returns [OF kdfs] by blast
  then have key: "length k = 32" using derived by fastforce
  obtain out where out: "put (serialized h) (sink s) = (Inr (), out)" "reliable out"
    using reliable_returns [OF rel] by blast
  have fits: "aad_fits (serialized h) aad"
    using aad parses [OF valid] by (simp add: aad_fits_def int_max_def)
  have np: "length (prefix h) = 8" using parses [OF valid] by simp
  let ?s = "s\<lparr>crypto := c2, sink := out\<rparr>"
  have "istream_good (source ?s)" "\<not> broken (source ?s)" "reliable (sink ?s)"
    "unat (0 :: u32) + chunk_count (remaining (source ?s)) \<le> 2 ^ 32"
    using good out small by simp_all
  from seal_loop_returns [OF prov healthy key np fits this] obtain t where
    "seal_loop ssl put (serialized h) (prefix h) k aad 0 ?s = (Inr (), t)" by blast
  with h k out show ?thesis
    by (simp add: seal_with_def seal_stream_payload_def mbind_def crypto_action_def sink_action_def mzoom_def wipe_after_def)
qed

lemma open_with_returns:
  assumes prov: "gcm_provider ssl view alg" and healthy: "gcm_healthy ssl view alg"
    and kdf: "kdf_provider ssl kdf" and kdfs: "kdf_healthy ssl" "ready"
    and good: "istream_good (source s)" "\<not> broken (source s)" and rel: "reliable (sink s)"
    and aad: "length aad \<le> int_max - 9 - header_size" "header_size \<le> 1000"
    and valid: "valid h" and ps: "well_chunked ps" "length ps \<le> 2 ^ 32"
    and input: "remaining (source s) = sealed_file alg (key_of h) (serialized h) (prefix h) aad ps"
  shows "\<exists>s'. open_with ssl put header_size parse serialized prefix derive aad s = (Inr (), s') \<and>
    content (sink s') = content (sink s) @ concat ps"
proof -
  note p = parses [OF valid]
  obtain k c where k: "derive h (crypto s) = (Inr k, c)" using derive_returns [OF kdfs] by blast
  have key: "length k = 32" "k = key_of h" using derived [OF k] derived_value [OF kdf valid k] by simp_all
  let ?i = "(source s)\<lparr>remaining := chunk_body alg k (serialized h) (prefix h) aad 0 ps\<rparr>"
  have head: "read_exact header_size (source s) = (Inr (Some (serialized h)), ?i)"
    using input p good key by (intro read_exact_enough) (simp_all add: sealed_file_def)
  have fits: "aad_fits (serialized h) aad" using aad p by (simp add: aad_fits_def int_max_def)
  let ?s = "s\<lparr>source := ?i, crypto := c\<rparr>"
  have "istream_good (source ?s)" "\<not> broken (source ?s)" "reliable (sink ?s)"
    "remaining (source ?s) = chunk_body alg k (serialized h) (prefix h) aad 0 ps" "unat (0 :: u32) + length ps \<le> 2 ^ 32"
    using good rel ps(2) by simp_all
  from open_loop_returns [OF prov healthy key(1) _ fits this(1-3) ps(1) this(4,5)] p obtain t where
    t: "open_loop ssl put (serialized h) (prefix h) k aad 0 ?s = (Inr (), t)" "content (sink t) = content (sink s) @ concat ps"
    by auto
  have "read_or_reject header_size (source s) = (Inr (serialized h), ?i)"
    using head by (simp add: read_or_reject_Inr_iff)
  with p k t show ?thesis
    by (simp add: open_with_def open_file_payload_def mbind_def source_action_def crypto_action_def mzoom_def wipe_after_def
        mlift_def)
qed

text \<open>What opening accepts, and that it accepts what sealing has written.\<close>

lemma open_with_exact:
  assumes prov: "gcm_provider ssl view alg" and healthy: "gcm_healthy ssl view alg"
    and kdf: "kdf_provider ssl kdf" and kdfs: "kdf_healthy ssl" "ready"
    and good: "istream_good (source s)" "\<not> broken (source s)" and rel: "reliable (sink s)"
    and aad: "length aad \<le> int_max - 9 - header_size" "header_size \<le> 1000"
  shows "(\<exists>s'. open_with ssl put header_size parse serialized prefix derive aad s = (Inr (), s')) \<longleftrightarrow>
    (\<exists>h ps. valid h \<and> well_chunked ps \<and> length ps \<le> 2 ^ 32 \<and>
       remaining (source s) = sealed_file alg (key_of h) (serialized h) (prefix h) aad ps)"
proof
  assume "\<exists>s'. open_with ssl put header_size parse serialized prefix derive aad s = (Inr (), s')"
  with open_with_spec [OF prov kdf good(1) reliable_ok [OF rel]] show "\<exists>h ps. valid h \<and> well_chunked ps \<and>
    length ps \<le> 2 ^ 32 \<and> remaining (source s) = sealed_file alg (key_of h) (serialized h) (prefix h) aad ps" by blast
next
  assume "\<exists>h ps. valid h \<and> well_chunked ps \<and> length ps \<le> 2 ^ 32 \<and>
    remaining (source s) = sealed_file alg (key_of h) (serialized h) (prefix h) aad ps"
  with open_with_returns [OF prov healthy kdf kdfs good rel aad]
  show "\<exists>s'. open_with ssl put header_size parse serialized prefix derive aad s = (Inr (), s')" by blast
qed

lemma sealed_then_opened:
  assumes prov: "gcm_provider ssl view alg" and healthy: "gcm_healthy ssl view alg"
    and kdf: "kdf_provider ssl kdf" and kdfs: "kdf_healthy ssl" "ready"
    and good: "istream_good (source s)" "\<not> broken (source s)" and rel: "reliable (sink s)"
    and aad: "length aad \<le> int_max - 9 - header_size" "header_size \<le> 1000"
    and small: "chunk_count (remaining (source s)) \<le> 2 ^ 32"
  shows "\<exists>s1 sealed. seal_with ssl put create serialized prefix derive aad s = (Inr (), s1) \<and>
    content (sink s1) = content (sink s) @ sealed \<and>
    (\<forall>t. istream_good (source t) \<longrightarrow> \<not> broken (source t) \<longrightarrow> remaining (source t) = sealed \<longrightarrow> reliable (sink t) \<longrightarrow>
       (\<exists>t'. open_with ssl put header_size parse serialized prefix derive aad t = (Inr (), t') \<and>
          content (sink t') = content (sink t) @ remaining (source s)))"
proof -
  from seal_with_returns [OF prov healthy kdfs good rel aad small] obtain s1 where
    s1: "seal_with ssl put create serialized prefix derive aad s = (Inr (), s1)" by blast
  from seal_with_spec [OF prov kdf good(1) reliable_ok [OF rel] s1] obtain h where
    h: "valid h" "content (sink s1) = content (sink s) @
      sealed_file alg (key_of h) (serialized h) (prefix h) aad (file_chunks (remaining (source s)))" by blast
  have "length (file_chunks (remaining (source s))) \<le> 2 ^ 32" using small by (simp add: length_file_chunks)
  from open_with_returns [OF prov healthy kdf kdfs _ _ _ aad h(1) well_chunked_file_chunks this]
  have opens: "\<exists>t'. open_with ssl put header_size parse serialized prefix derive aad t = (Inr (), t') \<and>
      content (sink t') = content (sink t) @ remaining (source s)"
    if "istream_good (source t)" "\<not> broken (source t)" "reliable (sink t)" "remaining (source t) =
      sealed_file alg (key_of h) (serialized h) (prefix h) aad (file_chunks (remaining (source s)))" for t
    using that by simp
  show ?thesis
    by (rule exI, rule exI, intro conjI, rule s1, rule h(2)) (intro allI impI opens)
qed

end

subsection \<open>Both kinds, on streams\<close>

interpretation keyed: file_kind ssl kdf "make_header ssl" 50 parse_header fh_serialized fh_nonce_prefix
  "derive_file_key ssl key" valid_header "\<lambda>h. file_key kdf key (fh_salt h)" True
  for ssl :: "('o, 'c) openssl" and kdf :: kdf_alg and key :: bytes
proof
  show "retired s' = retired s \<and> (case r of Inl e \<Rightarrow> code_of e = Some backend_failure | Inr h \<Rightarrow> valid_header h)"
    if "make_header ssl s = (r, s')" for s r s'
    using make_header_result [OF that] .
  show "valid_header h \<and> fh_serialized h = data" if "length data = 50" "parse_header data = Inr h" for data h
    using that decode_header_valid [of data h] by (simp add: decode_header_def)
  show "length (fh_serialized h) = 50 \<and> parse_header (fh_serialized h) = Inr h \<and> length (fh_nonce_prefix h) = 8"
    if "valid_header h" for h
    using that parse_header_bytes [of "fh_salt h" "fh_nonce_prefix h"] by (cases h) (auto simp: valid_header_def)
  show "e = file_packet_error" if "parse_header data = Inl e" for data e
    using that by (auto simp: parse_header_def split: if_splits)
  show "releases_wiped s s' \<and> (case k of Inl e \<Rightarrow> code_of e \<in> {Some backend_failure, Some invalid_input}
      | Inr k' \<Rightarrow> length k' = 32)" if "derive_file_key ssl key h s = (k, s')" for h s k s'
    using derive_file_key_result [OF that] by (auto split: sum.splits)
  show "k' = file_key kdf key (fh_salt h)"
    if "kdf_provider ssl kdf" "valid_header h" "derive_file_key ssl key h s = (Inr k', s')" for h s k' s'
    using derive_file_key_value [OF that(1,3)] .
  show "\<exists>h s'. make_header ssl s = (Inr h, s')" if "gcm_healthy ssl view alg" for s view alg
    using make_header_returns [OF that] .
  show "\<exists>k' s'. derive_file_key ssl key h s = (Inr k', s')" if "kdf_healthy ssl" for h s
    using derive_file_key_returns [OF that] .
qed

interpretation pass: file_kind ssl kdf "make_password_header ssl" 64 parse_password_header ph_serialized ph_nonce_prefix
  "derive_password_file_key ssl password" valid_password_header "\<lambda>h. password_file_key kdf password (ph_salt h)"
  "password \<noteq> []"
  for ssl :: "('o, 'c) openssl" and kdf :: kdf_alg and password :: bytes
proof
  show "retired s' = retired s \<and> (case r of Inl e \<Rightarrow> code_of e = Some backend_failure | Inr h \<Rightarrow> valid_password_header h)"
    if "make_password_header ssl s = (r, s')" for s r s'
    using make_password_header_result [OF that] .
  show "valid_password_header h \<and> ph_serialized h = data"
    if "length data = 64" "parse_password_header data = Inr h" for data h
    using that decode_password_header_valid [of data h] by (simp add: decode_password_header_def)
  show "length (ph_serialized h) = 64 \<and> parse_password_header (ph_serialized h) = Inr h \<and> length (ph_nonce_prefix h) = 8"
    if "valid_password_header h" for h
    using that parse_password_header_bytes [of "ph_salt h" "ph_nonce_prefix h"]
    by (cases h) (auto simp: valid_password_header_def)
  show "e = file_packet_error" if "parse_password_header data = Inl e" for data e
    using that by (auto simp: parse_password_header_def Let_def split: if_splits)
  show "releases_wiped s s' \<and> (case k of Inl e \<Rightarrow> code_of e \<in> {Some backend_failure, Some invalid_input}
      | Inr k' \<Rightarrow> length k' = 32)" if "derive_password_file_key ssl password h s = (k, s')" for h s k s'
    using derive_password_file_key_result [OF that] .
  show "k' = password_file_key kdf password (ph_salt h)"
    if "kdf_provider ssl kdf" "valid_password_header h" "derive_password_file_key ssl password h s = (Inr k', s')" for h s k' s'
    using derive_password_file_key_value [OF that(1) _ _ _ that(3)] that(2) by (simp add: valid_password_header_def)
  show "\<exists>h s'. make_password_header ssl s = (Inr h, s')" if "gcm_healthy ssl view alg" for s view alg
    using make_password_header_returns [OF that] .
  show "\<exists>k' s'. derive_password_file_key ssl password h s = (Inr k', s')" if "kdf_healthy ssl" "password \<noteq> []" for h s
    using derive_password_file_key_returns [OF that] .
qed

interpretation keyed_stream: reliable_sealing write_all written "\<lambda>_. True" ssl kdf "make_header ssl" 50 parse_header
  fh_serialized fh_nonce_prefix "derive_file_key ssl key" valid_header "\<lambda>h. file_key kdf key (fh_salt h)" True
  ostream_reliable
  for ssl :: "('o, 'c) openssl" and kdf :: kdf_alg and key :: bytes
  by unfold_locales

interpretation pass_stream: reliable_sealing write_all written "\<lambda>_. True" ssl kdf "make_password_header ssl" 64
  parse_password_header ph_serialized ph_nonce_prefix "derive_password_file_key ssl password" valid_password_header
  "\<lambda>h. password_file_key kdf password (ph_salt h)" "password \<noteq> []" ostream_reliable
  for ssl :: "('o, 'c) openssl" and kdf :: kdf_alg and password :: bytes
  by unfold_locales

end
