(* ===== verification/Aead_Internal.thy ===== *)
theory Aead_Internal
  imports Codec "HOL-Library.Code_Target_Numeral"
begin

section \<open>The format of an SKT1 packet\<close>

text \<open>
  \<open>src/aead_internal.hpp\<close>: the constants of the packet format, the size limit of an update, and the
  construction and the checks of a packet prefix. A packet is a 5-byte header (magic \<open>SKT1\<close> and a
  version), a 12-byte nonce, the ciphertext and a 16-byte tag. The prefix (header and nonce) is a
  canonical codec of nonces.
\<close>

definition kPacketMagic :: bytes where
  "kPacketMagic = map byte_of_char ''SKT1''"

definition kPacketVersion :: byte where
  "kPacketVersion = 0x01"

definition kPacketHeaderSize :: nat where
  "kPacketHeaderSize = length kPacketMagic + 1"

definition kPacketNonceSize :: nat where
  "kPacketNonceSize = 12"

definition kPrefixSize :: nat where
  "kPrefixSize = kPacketHeaderSize + kPacketNonceSize"

definition kPacketTagSize :: nat where
  "kPacketTagSize = 16"

definition kOverhead :: nat where
  "kOverhead = kPrefixSize + kPacketTagSize"

definition packet_error :: exn where
  "packet_error = Error invalid_packet ''Invalid AEAD packet''"

definition check_update_size :: "nat \<Rightarrow> string \<Rightarrow> unit result" where
  "check_update_size sz name =
     (if sz > int_max then Inl (Error invalid_input (name @ '' exceeds backend update limit''))
      else Inr ())"

definition make_packet_header :: bytes where
  "make_packet_header =
     (overlay (replicate kPacketHeaderSize 0) 0 kPacketMagic)[length kPacketMagic := kPacketVersion]"

definition make_packet_prefix :: "bytes \<Rightarrow> bytes result" where
  "make_packet_prefix nonce =
     (if length nonce \<noteq> kPacketNonceSize
      then Inl (Error backend_failure ''AES-256-GCM operation failed'')
      else Inr (overlay (overlay (replicate kPrefixSize 0) 0 make_packet_header)
                  kPacketHeaderSize nonce))"

definition require_valid_prefix :: "bytes \<Rightarrow> unit result" where
  "require_valid_prefix packet_prefix =
     (if length packet_prefix \<noteq> kPrefixSize then Inl packet_error
      else if take (length kPacketMagic) packet_prefix \<noteq> kPacketMagic then Inl packet_error
      else if packet_prefix ! length kPacketMagic \<noteq> kPacketVersion then Inl packet_error
      else Inr ())"

definition require_valid_packet :: "bytes \<Rightarrow> unit result" where
  "require_valid_packet packet =
     (if length packet < kOverhead then Inl packet_error
      else require_valid_prefix (take kPrefixSize packet))"

text \<open>The nonce of a prefix: the last 12 bytes, once the prefix is valid.\<close>

definition prefix_nonce :: "bytes \<Rightarrow> bytes result" where
  "prefix_nonce packet_prefix =
     rbind (require_valid_prefix packet_prefix)
       (\<lambda>_. Inr (drop (length packet_prefix - kPacketNonceSize) packet_prefix))"

subsection \<open>Sizes and shapes\<close>

lemma packet_sizes [simp]:
  "length kPacketMagic = 4" "kPacketHeaderSize = 5" "kPacketNonceSize = 12" "kPrefixSize = 17"
  "kPacketTagSize = 16" "kOverhead = 33"
  by (simp_all add: kPacketMagic_def kPacketHeaderSize_def kPacketNonceSize_def kPrefixSize_def
      kPacketTagSize_def kOverhead_def)

lemma make_packet_header_eq: "make_packet_header = kPacketMagic @ [kPacketVersion]"
  by (simp add: make_packet_header_def overlay_def kPacketMagic_def)

lemma length_make_packet_header [simp]: "length make_packet_header = 5"
  by (simp add: make_packet_header_eq)

lemma make_packet_prefix_eq:
  "length nonce = 12 \<Longrightarrow> make_packet_prefix nonce = Inr (make_packet_header @ nonce)"
  by (simp add: make_packet_prefix_def overlay_def)

lemma require_valid_prefix_iff:
  "require_valid_prefix p = Inr () \<longleftrightarrow> length p = 17 \<and> take 5 p = make_packet_header"
proof -
  have "take 5 p = take 4 p @ [p ! 4]" if "length p = 17"
    using that take_Suc_conv_app_nth [of 4 p] by simp
  then show ?thesis
    by (auto simp: require_valid_prefix_def make_packet_header_eq)
qed

lemma require_valid_prefix_error: "require_valid_prefix p = Inl e \<Longrightarrow> e = packet_error"
  by (auto simp: require_valid_prefix_def split: if_splits)

lemma require_valid_packet_error: "require_valid_packet p = Inl e \<Longrightarrow> e = packet_error"
  by (auto simp: require_valid_packet_def dest: require_valid_prefix_error split: if_splits)

lemma require_valid_packet_iff:
  "require_valid_packet p = Inr () \<longleftrightarrow> length p \<ge> 33 \<and> take 5 p = make_packet_header"
  by (auto simp: require_valid_packet_def require_valid_prefix_iff)

lemma unit_result_cases: "(r :: unit result) = Inr () \<or> (\<exists>e. r = Inl e)"
  by (cases r) auto

lemma prefix_nonce_Inr_iff:
  "prefix_nonce p = Inr nonce \<longleftrightarrow> length nonce = 12 \<and> p = make_packet_header @ nonce"
proof
  assume "prefix_nonce p = Inr nonce"
  then have len: "length p = 17" and hd: "take 5 p = make_packet_header" and n: "nonce = drop 5 p"
    by (auto simp: prefix_nonce_def rbind_Inr_iff require_valid_prefix_iff)
  have "p = take 5 p @ drop 5 p" by simp
  with hd n have "p = make_packet_header @ nonce" by simp
  moreover have "length nonce = 12" using len n by simp
  ultimately show "length nonce = 12 \<and> p = make_packet_header @ nonce" by blast
next
  assume "length nonce = 12 \<and> p = make_packet_header @ nonce"
  then show "prefix_nonce p = Inr nonce"
    by (simp add: prefix_nonce_def require_valid_prefix_iff [THEN iffD2])
qed

interpretation prefixc: canonical_codec "\<lambda>nonce. length nonce = 12" make_packet_prefix prefix_nonce
  by unfold_locales
    (auto simp: make_packet_prefix_eq prefix_nonce_Inr_iff make_packet_prefix_def overlay_def
      split: if_splits)

text \<open>
  The packet prefix is a canonical encoding of its nonce: a prefix is accepted, and yields
  \<open>nonce\<close>, exactly when it is what \<open>make_packet_prefix\<close> writes for that 12-byte nonce.
\<close>

theorem packet_prefix_exact:
  "prefix_nonce p = Inr nonce \<longleftrightarrow> length nonce = 12 \<and> make_packet_prefix nonce = Inr p"
  by (rule prefixc.decode_iff)

end
