(* ===== verification/Packet_Stream.thy ===== *)
theory Packet_Stream
  imports Backend_Correct Aead_Internal
begin

section \<open>Packet streams\<close>

text \<open>
  \<open>src/packet_stream.cpp\<close>: \<open>packet_encryptor\<close> and \<open>packet_decryptor\<close>. Each object holds \<open>impl_\<close>, a
  unique pointer that is null once the object has been moved from, and the implementation holds
  the key, the associated data, a pointer to the cipher context and the phase of the protocol
  begin, update*, finalize. A member function is an action on the object and the runtime.
\<close>

datatype packet_stream_phase = ready | active | finished

text \<open>The phases in the order a stream goes through them.\<close>

fun phase_rank :: "packet_stream_phase \<Rightarrow> nat" where
  "phase_rank ready = 0"
| "phase_rank active = 1"
| "phase_rank finished = 2"

instantiation packet_stream_phase :: linorder
begin

definition less_eq_packet_stream_phase :: "packet_stream_phase \<Rightarrow> packet_stream_phase \<Rightarrow> bool" where
  "less_eq_packet_stream_phase p q \<longleftrightarrow> phase_rank p \<le> phase_rank q"

definition less_packet_stream_phase :: "packet_stream_phase \<Rightarrow> packet_stream_phase \<Rightarrow> bool" where
  "less_packet_stream_phase p q \<longleftrightarrow> phase_rank p < phase_rank q"

instance
proof
  fix p q :: packet_stream_phase
  show "p \<le> q \<Longrightarrow> q \<le> p \<Longrightarrow> p = q"
    by (cases p; cases q) (simp_all add: less_eq_packet_stream_phase_def)
qed (auto simp: less_eq_packet_stream_phase_def less_packet_stream_phase_def)

end

text \<open>
  \<open>context\<close> is a pointer to a context object, which holds a pointer itself: \<open>None\<close> is the null
  pointer, \<open>Some None\<close> a context that has been finalized.
\<close>

record 'c packet_impl =
  impl_key :: bytes
  impl_aad :: bytes
  impl_context :: "'c option option"
  impl_phase :: packet_stream_phase

type_synonym ('c, 'o) packet_object = "'c packet_impl option \<times> 'o runtime"

subsection \<open>Construction and destruction\<close>

text \<open>
  When the constructor of \<open>impl\<close> throws, its destructor does not run: the copies of the key and the
  associated data are released as they are.
\<close>

definition new_packet_impl :: "bytes \<Rightarrow> bytes \<Rightarrow> ('o runtime, exn, 'c packet_impl option) action" where
  "new_packet_impl key aad =
     mbind (mon_error (mlift (check_update_size (length aad) ''AAD''))
              (\<lambda>s. retire key (retire aad s)))
       (\<lambda>_. mreturn (Some \<lparr>impl_key = key, impl_aad = aad, impl_context = None, impl_phase = ready\<rparr>))"

definition destroy_packet_impl :: "'c packet_impl option \<Rightarrow> 'o runtime \<Rightarrow> 'o runtime" where
  "destroy_packet_impl obj s =
     (case obj of
        None \<Rightarrow> s
      | Some im \<Rightarrow> retire (secure_wipe (impl_key im)) (retire (secure_wipe (impl_aad im)) s))"

text \<open>Moving out of an object leaves a null pointer; moving in destroys what was there.\<close>

definition move_packet_impl ::
  "'c packet_impl option \<Rightarrow> 'c packet_impl option \<Rightarrow> 'o runtime \<Rightarrow>
     ('c packet_impl option \<times> 'c packet_impl option) \<times> 'o runtime" where
  "move_packet_impl target source s = ((source, None), destroy_packet_impl target s)"

subsection \<open>Parts of the member functions\<close>

text \<open>The check for a moved-from object that every member function starts with.\<close>

definition with_state ::
  "string \<Rightarrow> ('c packet_impl \<times> 'o runtime, exn, 'a) action \<Rightarrow> (('c, 'o) packet_object, exn, 'a) action" where
  "with_state msg m st =
     (case st of
        (None, s) \<Rightarrow> (Inl (Error invalid_input msg), (None, s))
      | (Some im, s) \<Rightarrow> (case m (im, s) of (r, (im', s')) \<Rightarrow> (r, (Some im', s'))))"

definition require_phase ::
  "packet_stream_phase \<Rightarrow> string \<Rightarrow> ('c packet_impl \<times> 'o runtime, exn, unit) action" where
  "require_phase p msg = mbind (mget (\<lambda>(im, s). impl_phase im = p)) (\<lambda>ok.
     mguard ok (Error invalid_input msg))"

definition in_runtime :: "('o runtime, exn, 'a) action \<Rightarrow> ('c packet_impl \<times> 'o runtime, exn, 'a) action" where
  "in_runtime m = mzoom snd (\<lambda>t (im, s). (im, t)) m"

text \<open>\<open>impl_->context->...\<close>: a null \<open>context\<close> would be dereferenced.\<close>

definition in_context ::
  "(('c, 'o) gcm_context, exn, 'a) action \<Rightarrow> ('c packet_impl \<times> 'o runtime, exn, 'a) action" where
  "in_context m st =
     (case st of (im, s) \<Rightarrow>
       (case impl_context im of
          None \<Rightarrow> (Inl (Undefined_behaviour ''null packet context''), st)
        | Some c \<Rightarrow> (case m (c, s) of (r, (c', s')) \<Rightarrow> (r, (im\<lparr>impl_context := Some c'\<rparr>, s')))))"

definition set_context :: "'c option option \<Rightarrow> ('c packet_impl \<times> 'o runtime, exn, unit) action" where
  "set_context c = mmodify (\<lambda>(im, s). (im\<lparr>impl_context := c\<rparr>, s))"

definition set_phase :: "packet_stream_phase \<Rightarrow> ('c packet_impl \<times> 'o runtime, exn, unit) action" where
  "set_phase p = mmodify (\<lambda>(im, s). (im\<lparr>impl_phase := p\<rparr>, s))"

definition close_stream :: "'c packet_impl \<times> 'o runtime \<Rightarrow> 'c packet_impl \<times> 'o runtime" where
  "close_stream st = (case st of (im, s) \<Rightarrow> (im\<lparr>impl_context := None, impl_phase := finished\<rparr>, s))"

subsection \<open>The encryptor\<close>

definition encryptor_begin :: "('o, 'c) openssl \<Rightarrow> (('c, 'o) packet_object, exn, bytes) action" where
  "encryptor_begin ssl = with_state ''packet encryptor has no state''
     (mbind (require_phase ready ''packet encryptor begin() may only be called once'') (\<lambda>_.
      mbind (in_runtime (random_bytes ssl kPacketNonceSize)) (\<lambda>nonce.
      mbind (mget (\<lambda>(im, s). (impl_key im, impl_aad im))) (\<lambda>(key, aad).
      mbind (in_runtime (Aes256GcmEncryptContext ssl key nonce)) (\<lambda>c.
      mbind (set_context (Some c)) (\<lambda>_.
      mbind (in_context (context_update_aad ssl make_packet_header)) (\<lambda>_.
      mbind (in_context (context_update_aad ssl aad)) (\<lambda>_.
      mbind (set_phase active) (\<lambda>_.
      mlift (make_packet_prefix nonce))))))))))"

definition encryptor_update :: "('o, 'c) openssl \<Rightarrow> bytes \<Rightarrow> (('c, 'o) packet_object, exn, bytes) action" where
  "encryptor_update ssl plaintext = with_state ''packet encryptor has no state''
     (mbind (require_phase active ''packet encryptor update() requires begin() before finalize()'') (\<lambda>_.
      in_context (encrypt_context_update ssl plaintext)))"

definition encryptor_finalize :: "('o, 'c) openssl \<Rightarrow> (('c, 'o) packet_object, exn, bytes) action" where
  "encryptor_finalize ssl = with_state ''packet encryptor has no state''
     (mbind (require_phase active ''packet encryptor finalize() requires begin() exactly once'') (\<lambda>_.
      mbind (in_context (encrypt_context_finalize ssl)) (\<lambda>tag.
      mbind (mmodify close_stream) (\<lambda>_. mreturn tag))))"

subsection \<open>The decryptor\<close>

definition decryptor_begin :: "('o, 'c) openssl \<Rightarrow> bytes \<Rightarrow> (('c, 'o) packet_object, exn, unit) action" where
  "decryptor_begin ssl packet_prefix = with_state ''packet decryptor has no state''
     (mbind (require_phase ready ''packet decryptor begin() may only be called once'') (\<lambda>_.
      mbind (mlift (require_valid_prefix packet_prefix)) (\<lambda>_.
      let header = take kPacketHeaderSize packet_prefix;
          nonce = drop (length packet_prefix - kPacketNonceSize) packet_prefix
      in mbind (mget (\<lambda>(im, s). (impl_key im, impl_aad im))) (\<lambda>(key, aad).
      mbind (in_runtime (Aes256GcmDecryptContext ssl key nonce)) (\<lambda>c.
      mbind (set_context (Some c)) (\<lambda>_.
      mbind (in_context (context_update_aad ssl header)) (\<lambda>_.
      mbind (in_context (context_update_aad ssl aad)) (\<lambda>_.
      set_phase active))))))))"

definition decryptor_update :: "('o, 'c) openssl \<Rightarrow> bytes \<Rightarrow> (('c, 'o) packet_object, exn, bytes) action" where
  "decryptor_update ssl ciphertext = with_state ''packet decryptor has no state''
     (mbind (require_phase active ''packet decryptor update() requires begin() before finalize()'') (\<lambda>_.
      in_context (decrypt_context_update ssl ciphertext)))"

text \<open>A tag of a wrong size, or a failed check, ends the stream.\<close>

definition decryptor_finalize :: "('o, 'c) openssl \<Rightarrow> bytes \<Rightarrow> (('c, 'o) packet_object, exn, bytes) action" where
  "decryptor_finalize ssl tag = with_state ''packet decryptor has no state''
     (mbind (require_phase active ''packet decryptor finalize() requires begin() exactly once'') (\<lambda>_.
      if length tag \<noteq> kPacketTagSize
      then mbind (mmodify close_stream) (\<lambda>_. mthrow packet_error)
      else mbind (mon_error (in_context (decrypt_context_finalize ssl tag)) close_stream) (\<lambda>trailing.
        mbind (mmodify close_stream) (\<lambda>_. mreturn trailing))))"

subsection \<open>How a member function may end\<close>

lemma with_state_Some:
  "with_state msg m (Some im, s) = (r, st') \<longleftrightarrow>
     (\<exists>im' s'. m (im, s) = (r, (im', s')) \<and> st' = (Some im', s'))"
  by (auto simp: with_state_def split: prod.split)

lemma with_state_None [simp]: "with_state msg m (None, s) = (Inl (Error invalid_input msg), (None, s))"
  by (simp add: with_state_def)

lemma require_phase_eq:
  "require_phase p msg (im, s) =
     (if impl_phase im = p then Inr () else Inl (Error invalid_input msg), (im, s))"
  by (simp add: require_phase_def mbind_def mget_def mguard_def mreturn_def mthrow_def)

lemma in_runtime_eq: "in_runtime m (im, s) = (case m s of (r, t) \<Rightarrow> (r, (im, t)))"
  by (simp add: in_runtime_def mzoom_def)

lemma in_context_Some [simp]:
  "impl_context im = Some c \<Longrightarrow>
     in_context m (im, s) = (case m (c, s) of (r, (c', s')) \<Rightarrow> (r, (im\<lparr>impl_context := Some c'\<rparr>, s')))"
  by (simp add: in_context_def)

lemma set_simps [simp]:
  "set_context c (im, s) = (Inr (), (im\<lparr>impl_context := c\<rparr>, s))"
  "set_phase p (im, s) = (Inr (), (im\<lparr>impl_phase := p\<rparr>, s))"
  "close_stream (im, s) = (im\<lparr>impl_context := None, impl_phase := finished\<rparr>, s)"
  by (simp_all add: set_context_def set_phase_def close_stream_def mmodify_def)

text \<open>
  The invariant of an object: while the stream is active, its context is not null and has not
  been finalized. \<open>stream_frame\<close>: a call keeps the key and the associated data.
\<close>

definition live_context :: "'c packet_impl \<Rightarrow> bool" where
  "live_context im \<longleftrightarrow> (\<exists>c. impl_context im = Some (Some c))"

definition stream_ok :: "'c packet_impl \<Rightarrow> bool" where
  "stream_ok im \<longleftrightarrow> (impl_phase im = active \<longrightarrow> live_context im)"

definition same_secrets :: "'c packet_impl \<Rightarrow> 'c packet_impl \<Rightarrow> bool" where
  "same_secrets im im' \<longleftrightarrow> impl_key im' = impl_key im \<and> impl_aad im' = impl_aad im"

lemma same_secrets_simps [simp]:
  "same_secrets im im" "same_secrets im (im\<lparr>impl_context := c\<rparr>)"
  "same_secrets im (im\<lparr>impl_phase := p\<rparr>)" "same_secrets im (im\<lparr>impl_context := c, impl_phase := p\<rparr>)"
  by (simp_all add: same_secrets_def)

definition begin_outcome ::
  "'c packet_impl \<Rightarrow> 'o runtime \<Rightarrow> 'a result \<Rightarrow> 'c packet_impl \<Rightarrow> 'o runtime \<Rightarrow> bool" where
  "begin_outcome im s r im' s' \<longleftrightarrow> same_secrets im im' \<and> retired s' = retired s \<and>
     (case r of
        Inl e \<Rightarrow> \<not> is_undefined e \<and> impl_phase im' = impl_phase im \<and> (impl_phase im \<noteq> ready \<longrightarrow> im' = im)
      | Inr _ \<Rightarrow> impl_phase im = ready \<and> impl_phase im' = active \<and> live_context im')"

lemma not_undefined [simp]:
  "\<not> is_undefined gcm_failure" "\<not> is_undefined aead_authentication_failure"
  "\<not> is_undefined packet_error" "\<not> is_undefined tag_size_failure"
  by (simp_all add: gcm_failure_def aead_authentication_failure_def packet_error_def tag_size_failure_def)

lemma plain_error_defined: "plain_error e \<Longrightarrow> \<not> is_undefined e"
  by (cases e) (simp_all add: plain_error_def)

text \<open>Feeding the header and the associated data to a fresh context keeps it alive.\<close>

definition feed_aad ::
  "('o, 'c) openssl \<Rightarrow> bytes \<Rightarrow> bytes \<Rightarrow> ('c packet_impl \<times> 'o runtime, exn, 'a) action \<Rightarrow>
     ('c packet_impl \<times> 'o runtime, exn, 'a) action" where
  "feed_aad ssl header aad m =
     mbind (in_context (context_update_aad ssl header)) (\<lambda>_.
     mbind (in_context (context_update_aad ssl aad)) (\<lambda>_. m))"

lemma feed_aad_cases:
  assumes "feed_aad ssl header aad m (im, s) = (r, (im', s'))" and "live_context im"
  shows "(\<exists>e x. r = Inl e \<and> plain_error e \<and> im' = im\<lparr>impl_context := x\<rparr> \<and> s' = s) \<or>
    (\<exists>x. m (im\<lparr>impl_context := Some (Some x)\<rparr>, s) = (r, (im', s')))"
proof -
  obtain c where c: "impl_context im = Some (Some c)" using assms(2) by (auto simp: live_context_def)
  obtain r1 x1 t1 where 1: "context_update_aad ssl header (Some c, s) = (r1, (x1, t1))"
    by (metis prod.exhaust_sel)
  from context_update_aad_result [OF this] obtain c1 where c1: "t1 = s" "x1 = Some c1" by auto
  obtain r2 x2 t2 where 2: "context_update_aad ssl aad (Some c1, s) = (r2, (x2, t2))"
    by (metis prod.exhaust_sel)
  from context_update_aad_result [OF this] obtain c2 where c2: "t2 = s" "x2 = Some c2" by auto
  show ?thesis
    using assms(1) 1 2 c c1 c2 context_update_aad_result [OF 1] context_update_aad_result [OF 2]
    by (cases r1; cases r2) (auto simp: feed_aad_def mbind_def)
qed

lemma begin_tail_outcome:
  assumes "feed_aad ssl header aad (mbind (set_phase active) (\<lambda>_. mlift out)) (im\<lparr>impl_context := Some (Some c)\<rparr>, s)
      = (r, (im', s'))"
    and "impl_phase im = ready" and "\<And>e. out = Inl e \<Longrightarrow> False"
  shows "begin_outcome im s r im' s'"
proof -
  have "live_context (im\<lparr>impl_context := Some (Some c)\<rparr>)" by (simp add: live_context_def)
  from feed_aad_cases [OF assms(1) this] show ?thesis
    using assms(2,3) plain_error_defined
    by (cases out) (auto simp: begin_outcome_def mbind_def mlift_def live_context_def same_secrets_def)
qed

lemma begin_context_outcome:
  assumes "(case ctor of (Inl e, t) \<Rightarrow> (Inl e, (im, t))
      | (Inr c, t) \<Rightarrow> feed_aad ssl header aad (mbind (set_phase active) (\<lambda>_. mlift out))
          (im\<lparr>impl_context := Some c\<rparr>, t)) = (r, (im', s'))"
    and ctor: "\<And>r t. ctor = (r, t) \<Longrightarrow>
      retired t = retired s \<and> (case r of Inl e \<Rightarrow> e = gcm_failure | Inr x \<Rightarrow> x \<noteq> None)"
    and "impl_phase im = ready" and "\<And>e. out = Inl e \<Longrightarrow> False"
  shows "begin_outcome im s r im' s'"
proof -
  obtain r0 t where r0: "ctor = (r0, t)" by fastforce
  note c = ctor [OF r0]
  show ?thesis
  proof (cases r0)
    case (Inl e)
    with assms(1) r0 c show ?thesis by (auto simp: begin_outcome_def)
  next
    case (Inr x)
    with c obtain y where "r0 = Inr (Some y)" by auto
    with assms(1) r0 begin_tail_outcome [OF _ assms(3,4)] have "begin_outcome im t r im' s'" by auto
    with c show ?thesis by (simp add: begin_outcome_def)
  qed
qed

lemma encryptor_begin_outcome:
  assumes "encryptor_begin ssl (Some im, s) = (r, st')"
  obtains im' s' where "st' = (Some im', s')" and "begin_outcome im s r im' s'"
proof -
  obtain im' s' where st': "st' = (Some im', s')"
    using assms by (auto simp: encryptor_begin_def with_state_Some)
  have "begin_outcome im s r im' s'"
  proof (cases "impl_phase im = ready")
    case False
    with assms st' show ?thesis
      by (auto simp: encryptor_begin_def with_state_Some mbind_def require_phase_eq begin_outcome_def)
  next
    case True
    obtain r0 t where r0: "random_bytes ssl 12 s = (r0, t)" by fastforce
    note rnd = random_bytes_result [OF r0]
    show ?thesis
    proof (cases r0)
      case (Inl e)
      with assms st' True r0 rnd show ?thesis
        by (cases e) (auto simp: encryptor_begin_def with_state_Some mbind_def require_phase_eq in_runtime_eq
            begin_outcome_def)
    next
      case (Inr nonce)
      with rnd have "length nonce = 12" by simp
      then have out: "make_packet_prefix nonce = Inl e \<Longrightarrow> False" for e
        by (simp add: make_packet_prefix_eq)
      have "(case Aes256GcmEncryptContext ssl (impl_key im) nonce t of (Inl e, t) \<Rightarrow> (Inl e, (im, t))
          | (Inr c, t) \<Rightarrow> feed_aad ssl make_packet_header (impl_aad im)
              (mbind (set_phase active) (\<lambda>_. mlift (make_packet_prefix nonce)))
              (im\<lparr>impl_context := Some c\<rparr>, t)) = (r, (im', s'))"
        using assms st' True r0 Inr
        by (auto simp: encryptor_begin_def with_state_Some mbind_def require_phase_eq in_runtime_eq
            feed_aad_def mget_def split: prod.splits sum.splits)
      from begin_context_outcome [OF this encrypt_context_result True out]
      have "begin_outcome im t r im' s'" .
      with rnd show ?thesis by (simp add: begin_outcome_def)
    qed
  qed
  with st' show thesis by (rule that)
qed

lemma decryptor_begin_outcome:
  fixes im :: "'a packet_impl" and s :: "'b runtime"
  assumes "decryptor_begin ssl prefix (Some im, s) = (r, st')"
  obtains im' s' where "st' = (Some im', s')" and "begin_outcome im s r im' s'"
proof -
  obtain im' s' where st': "st' = (Some im', s')"
    using assms by (auto simp: decryptor_begin_def with_state_Some)
  have "begin_outcome im s r im' s'"
  proof (cases "impl_phase im = ready \<and> require_valid_prefix prefix = Inr ()")
    case False
    then consider (phase) "impl_phase im \<noteq> ready"
      | (invalid) "impl_phase im = ready" and "require_valid_prefix prefix = Inl packet_error"
      using unit_result_cases require_valid_prefix_error by metis
    then show ?thesis
    proof cases
      case phase
      with assms st' show ?thesis
        by (auto simp: decryptor_begin_def with_state_Some mbind_def require_phase_eq begin_outcome_def)
    next
      case invalid
      with assms st' have "r = Inl packet_error \<and> im' = im \<and> s' = s"
        by (simp add: decryptor_begin_def with_state_Some mbind_def require_phase_eq mlift_def)
      then show ?thesis by (simp add: begin_outcome_def)
    qed
  next
    case True
    let ?nonce = "drop (length prefix - kPacketNonceSize) prefix"
    have valid: "mlift (require_valid_prefix prefix) = (mreturn () :: ('a packet_impl \<times> 'b runtime, exn, unit) action)"
      using True by (simp add: fun_eq_iff mlift_def mreturn_def)
    have "(case Aes256GcmDecryptContext ssl (impl_key im) ?nonce s of (Inl e, t) \<Rightarrow> (Inl e, (im, t))
        | (Inr c, t) \<Rightarrow> feed_aad ssl (take kPacketHeaderSize prefix) (impl_aad im)
            (mbind (set_phase active) (\<lambda>_. mlift (Inr ())))
            (im\<lparr>impl_context := Some c\<rparr>, t)) = (r, (im', s'))"
      using assms [unfolded decryptor_begin_def valid mbind_return] st' conjunct1 [OF True]
      by (auto simp: with_state_Some mbind_def require_phase_eq in_runtime_eq
          feed_aad_def mget_def mlift_def Let_def split: prod.splits sum.splits)
    then show ?thesis
      by (rule begin_context_outcome)
        (rule decrypt_context_result, assumption, use True in simp, simp)
  qed
  with st' show thesis by (rule that)
qed

text \<open>Update and finalize.\<close>

definition call_outcome ::
  "packet_stream_phase \<Rightarrow> 'c packet_impl \<Rightarrow> 'a result \<Rightarrow> 'c packet_impl \<Rightarrow> bool" where
  "call_outcome next im r im' \<longleftrightarrow> same_secrets im im' \<and>
     (case r of
        Inl e \<Rightarrow> \<not> is_undefined e \<and> (impl_phase im \<noteq> active \<longrightarrow> im' = im) \<and>
          (impl_phase im' = impl_phase im \<and> (impl_phase im = active \<longrightarrow> live_context im') \<or>
           impl_phase im = active \<and> impl_phase im' = finished)
      | Inr _ \<Rightarrow> impl_phase im = active \<and> impl_phase im' = next \<and> (next = active \<longrightarrow> live_context im'))"

lemma encryptor_update_outcome:
  assumes "encryptor_update ssl p (Some im, s) = (r, st')" and "stream_ok im"
  shows "\<exists>im'. st' = (Some im', s) \<and> call_outcome active im r im'"
proof (cases "impl_phase im = active")
  case True
  then obtain c where c: "impl_context im = Some (Some c)"
    using assms(2) by (auto simp: stream_ok_def live_context_def)
  obtain r1 x t where 1: "encrypt_context_update ssl p (Some c, s) = (r1, (x, t))"
    by (metis prod.exhaust_sel)
  from encrypt_update_result [OF 1] show ?thesis
    using assms(1) True c 1 plain_error_defined
    by (cases r1) (auto simp: encryptor_update_def with_state_Some mbind_def require_phase_eq
        call_outcome_def live_context_def)
qed (use assms in \<open>auto simp: encryptor_update_def with_state_Some mbind_def require_phase_eq
      call_outcome_def\<close>)

lemma encryptor_finalize_outcome:
  assumes "encryptor_finalize ssl (Some im, s) = (r, st')" and "stream_ok im"
  shows "\<exists>im'. st' = (Some im', s) \<and> call_outcome finished im r im'"
proof (cases "impl_phase im = active")
  case True
  then obtain c where c: "impl_context im = Some (Some c)"
    using assms(2) by (auto simp: stream_ok_def live_context_def)
  obtain r1 x t where 1: "encrypt_context_finalize ssl (Some c, s) = (r1, (x, t))"
    by (metis prod.exhaust_sel)
  from encrypt_finalize_result [OF 1] show ?thesis
    using assms(1) True c 1
    by (cases r1) (auto simp: encryptor_finalize_def with_state_Some mbind_def require_phase_eq
        call_outcome_def live_context_def mmodify_def mreturn_def same_secrets_def)
qed (use assms in \<open>auto simp: encryptor_finalize_def with_state_Some mbind_def require_phase_eq
      call_outcome_def\<close>)

lemma decryptor_update_outcome:
  assumes "decryptor_update ssl ct (Some im, s) = (r, st')" and "stream_ok im"
  shows "\<exists>im' s'. st' = (Some im', s') \<and> call_outcome active im r im' \<and> (\<forall>out. r = Inr out \<longrightarrow> s' = s)"
proof (cases "impl_phase im = active")
  case True
  then obtain c where c: "impl_context im = Some (Some c)"
    using assms(2) by (auto simp: stream_ok_def live_context_def)
  obtain r1 x t where 1: "decrypt_context_update ssl ct (Some c, s) = (r1, (x, t))"
    by (metis prod.exhaust_sel)
  from decrypt_update_result [OF 1] show ?thesis
    using assms(1) True c 1 plain_error_defined
    by (cases r1) (auto simp: decryptor_update_def with_state_Some mbind_def require_phase_eq
        call_outcome_def live_context_def)
qed (use assms in \<open>auto simp: decryptor_update_def with_state_Some mbind_def require_phase_eq
      call_outcome_def\<close>)

lemma decryptor_finalize_outcome:
  assumes "decryptor_finalize ssl tag (Some im, s) = (r, st')" and "stream_ok im"
  shows "\<exists>im'. st' = (Some im', s) \<and> call_outcome finished im r im' \<and>
    (impl_phase im = active \<longrightarrow> impl_phase im' = finished)"
proof (cases "impl_phase im = active \<and> length tag = 16")
  case True
  then obtain c where c: "impl_context im = Some (Some c)"
    using assms(2) by (auto simp: stream_ok_def live_context_def)
  obtain r1 x t where 1: "decrypt_context_finalize ssl tag (Some c, s) = (r1, (x, t))"
    by (metis prod.exhaust_sel)
  from decrypt_finalize_result [OF 1] show ?thesis
    using assms(1) True c 1 plain_error_defined
    by (cases r1) (auto simp: decryptor_finalize_def with_state_Some mbind_def require_phase_eq
        call_outcome_def mmodify_def mreturn_def mon_error_def same_secrets_def)
next
  case False
  then consider (phase) "impl_phase im \<noteq> active"
    | (tag) "impl_phase im = active" and "length tag \<noteq> 16" by blast
  then show ?thesis
    by cases (use assms in \<open>auto simp: decryptor_finalize_def with_state_Some mbind_def
        require_phase_eq call_outcome_def mmodify_def mthrow_def same_secrets_def\<close>)
qed

subsection \<open>The protocol\<close>

text \<open>
  Any user of a stream is a sequence of calls on one object. \<open>stream_run\<close> relates the object before
  and after such a sequence, with the calls made and what each returned.
\<close>

datatype stream_call = Begin bytes | Update bytes | Finalize bytes

inductive stream_run ::
  "(stream_call \<Rightarrow> 'st \<Rightarrow> bytes result \<times> 'st) \<Rightarrow> 'st \<Rightarrow> (stream_call \<times> bytes result) list \<Rightarrow> 'st \<Rightarrow> bool"
  for call where
  stream_run_nil: "stream_run call st [] st"
| stream_run_step: "call c st = (r, st') \<Longrightarrow> stream_run call st' tr st'' \<Longrightarrow>
    stream_run call st ((c, r) # tr) st''"

inductive_cases stream_run_ConsE: "stream_run call st ((c, r) # tr) st''"

inductive_simps stream_run_simps [simp]:
  "stream_run call st [] st'"
  "stream_run call st ((c, r) # tr) st''"

fun accepted :: "(stream_call \<times> bytes result) list \<Rightarrow> stream_call list" where
  "accepted [] = []"
| "accepted ((c, Inr out) # tr) = c # accepted tr"
| "accepted ((c, Inl e) # tr) = accepted tr"

text \<open>The calls as a program, for concrete runs.\<close>

fun run_calls ::
  "(stream_call \<Rightarrow> 'st \<Rightarrow> bytes result \<times> 'st) \<Rightarrow> stream_call list \<Rightarrow> 'st \<Rightarrow>
     (stream_call \<times> bytes result) list \<times> 'st" where
  "run_calls call [] st = ([], st)"
| "run_calls call (c # cs) st = (case call c st of (r, st') \<Rightarrow>
     (case run_calls call cs st' of (tr, st'') \<Rightarrow> ((c, r) # tr, st'')))"

lemma run_calls_stream_run: "run_calls call cs st = (tr, st') \<Longrightarrow> stream_run call st tr st'"
  by (induction cs arbitrary: st tr) (auto split: prod.splits)

lemma stream_run_of_calls: "stream_run call st (fst (run_calls call cs st)) (snd (run_calls call cs st))"
  by (rule run_calls_stream_run) simp

text \<open>One \<open>begin\<close>, any number of \<open>update\<close>, at most one \<open>finalize\<close>, and nothing after it.\<close>

fun follows_protocol :: "packet_stream_phase \<Rightarrow> stream_call list \<Rightarrow> bool" where
  "follows_protocol p [] = True"
| "follows_protocol ready (Begin d # cs) = follows_protocol active cs"
| "follows_protocol active (Update d # cs) = follows_protocol active cs"
| "follows_protocol active (Finalize d # cs) = follows_protocol finished cs"
| "follows_protocol p cs = False"

lemma follows_finished: "follows_protocol finished cs \<Longrightarrow> cs = []"
  by (cases cs) auto

text \<open>What the encryptor and the decryptor share.\<close>

locale phased_stream =
  fixes call :: "stream_call \<Rightarrow> 'st \<Rightarrow> bytes result \<times> 'st"
    and ok :: "'st \<Rightarrow> bool"
    and phase_at :: "'st \<Rightarrow> packet_stream_phase option"
  assumes call_ok: "ok st \<Longrightarrow> call c st = (r, st') \<Longrightarrow> ok st' \<and> defined r"
    and call_moved_from: "phase_at st = None \<Longrightarrow> call c st = (r, st') \<Longrightarrow> st' = st \<and> (\<exists>e. r = Inl e)"
    and call_error: "ok st \<Longrightarrow> phase_at st = Some p \<Longrightarrow> call c st = (Inl e, st') \<Longrightarrow>
      phase_at st' = Some p \<or> p = active \<and> phase_at st' = Some finished"
    and call_returned: "ok st \<Longrightarrow> phase_at st = Some p \<Longrightarrow> call c st = (Inr out, st') \<Longrightarrow>
      (case c of
         Begin d \<Rightarrow> p = ready \<and> phase_at st' = Some active
       | Update d \<Rightarrow> p = active \<and> phase_at st' = Some active
       | Finalize d \<Rightarrow> p = active \<and> phase_at st' = Some finished)"
begin

lemma run_ok: "stream_run call st tr st' \<Longrightarrow> ok st \<Longrightarrow> ok st' \<and> (\<forall>(c, r) \<in> set tr. defined r)"
  by (induction rule: stream_run.induct) (use call_ok in fastforce)+

lemma run_moved_from:
  "stream_run call st tr st' \<Longrightarrow> phase_at st = None \<Longrightarrow> st' = st \<and> accepted tr = []"
proof (induction rule: stream_run.induct)
  case (stream_run_step c st r st' tr st'')
  with call_moved_from [of st c r st'] show ?case by auto
qed simp

lemma call_phase_mono:
  assumes "ok st" and "phase_at st = Some p" and "call c st = (r, st')"
  obtains q where "phase_at st' = Some q" and "p \<le> q"
proof (cases r)
  case (Inl e)
  with call_error [OF assms(1,2)] assms(3)
  have "phase_at st' = Some p \<or> p = active \<and> phase_at st' = Some finished" by blast
  then show thesis using that by (auto simp: less_eq_packet_stream_phase_def)
next
  case (Inr out)
  with call_returned [OF assms(1,2)] assms(3)
  have "case c of Begin d \<Rightarrow> p = ready \<and> phase_at st' = Some active
      | Update d \<Rightarrow> p = active \<and> phase_at st' = Some active
      | Finalize d \<Rightarrow> p = active \<and> phase_at st' = Some finished" by blast
  then show thesis
    using that by (auto simp: less_eq_packet_stream_phase_def split: stream_call.splits)
qed

lemma run_phase_mono:
  "stream_run call st tr st' \<Longrightarrow> ok st \<Longrightarrow> phase_at st = Some p \<Longrightarrow> \<exists>q \<ge> p. phase_at st' = Some q"
proof (induction arbitrary: p rule: stream_run.induct)
  case (stream_run_step c st r st' tr st'')
  from call_phase_mono [OF stream_run_step.prems stream_run_step.hyps(1)] obtain q where
    "phase_at st' = Some q" and "p \<le> q" .
  moreover have "ok st'" using call_ok stream_run_step by blast
  ultimately show ?case using stream_run_step.IH [of q] by (meson order.trans)
qed auto

lemma run_follows_protocol:
  "stream_run call st tr st' \<Longrightarrow> ok st \<Longrightarrow> phase_at st = Some p \<Longrightarrow> follows_protocol p (accepted tr)"
proof (induction arbitrary: p rule: stream_run.induct)
  case (stream_run_step c st r st' tr st'')
  have ok: "ok st'" using call_ok stream_run_step by blast
  show ?case
  proof (cases r)
    case (Inl e)
    with call_error [OF stream_run_step.prems] stream_run_step.hyps(1)
    consider "phase_at st' = Some p" | "p = active" "phase_at st' = Some finished" by blast
    then show ?thesis
      using stream_run_step.IH [OF ok] Inl follows_finished by cases fastforce+
  next
    case (Inr out)
    with call_returned [OF stream_run_step.prems] stream_run_step.hyps(1)
    have "case c of Begin d \<Rightarrow> p = ready \<and> phase_at st' = Some active
        | Update d \<Rightarrow> p = active \<and> phase_at st' = Some active
        | Finalize d \<Rightarrow> p = active \<and> phase_at st' = Some finished" by blast
    with Inr stream_run_step.IH [OF ok] show ?thesis by (auto split: stream_call.splits)
  qed
qed simp

end

text \<open>The two classes as sequences of calls; \<open>begin\<close> of the decryptor returns nothing.\<close>

fun encryptor_call :: "('o, 'c) openssl \<Rightarrow> stream_call \<Rightarrow> (('c, 'o) packet_object, exn, bytes) action" where
  "encryptor_call ssl (Begin d) = encryptor_begin ssl"
| "encryptor_call ssl (Update d) = encryptor_update ssl d"
| "encryptor_call ssl (Finalize d) = encryptor_finalize ssl"

fun decryptor_call :: "('o, 'c) openssl \<Rightarrow> stream_call \<Rightarrow> (('c, 'o) packet_object, exn, bytes) action" where
  "decryptor_call ssl (Begin d) = mbind (decryptor_begin ssl d) (\<lambda>_. mreturn [])"
| "decryptor_call ssl (Update d) = decryptor_update ssl d"
| "decryptor_call ssl (Finalize d) = decryptor_finalize ssl d"

fun object_ok :: "('c, 'o) packet_object \<Rightarrow> bool" where
  "object_ok (None, s) = True"
| "object_ok (Some im, s) = stream_ok im"

definition object_phase :: "('c, 'o) packet_object \<Rightarrow> packet_stream_phase option" where
  "object_phase st = map_option impl_phase (fst st)"

lemma object_phase_simps [simp]:
  "object_phase (None, s) = None" "object_phase (Some im, s) = Some (impl_phase im)"
  by (simp_all add: object_phase_def)

lemma object_phase_SomeE:
  assumes "object_phase st = Some p"
  obtains im s where "st = (Some im, s)" and "impl_phase im = p"
  using assms by (cases st; cases "fst st") (auto simp: object_phase_def)

text \<open>
  The outcome of any call on an object that has not been moved from, in one form: the secrets stay,
  the result is defined, the invariant holds again, the phase moves as the protocol says.
\<close>

definition step_outcome ::
  "stream_call \<Rightarrow> 'c packet_impl \<Rightarrow> 'a result \<Rightarrow> 'c packet_impl \<Rightarrow> bool" where
  "step_outcome c im r im' \<longleftrightarrow> same_secrets im im' \<and> defined r \<and> stream_ok im' \<and>
     (case r of
        Inl e \<Rightarrow> impl_phase im' = impl_phase im \<or> impl_phase im = active \<and> impl_phase im' = finished
      | Inr _ \<Rightarrow> (case c of
          Begin d \<Rightarrow> impl_phase im = ready \<and> impl_phase im' = active
        | Update d \<Rightarrow> impl_phase im = active \<and> impl_phase im' = active
        | Finalize d \<Rightarrow> impl_phase im = active \<and> impl_phase im' = finished))"

lemma begin_step_outcome:
  "begin_outcome im s r im' s' \<Longrightarrow> stream_ok im \<Longrightarrow> step_outcome (Begin d) im r im'"
  by (cases r) (auto simp: begin_outcome_def step_outcome_def stream_ok_def)

lemma update_step_outcome: "call_outcome active im r im' \<Longrightarrow> stream_ok im \<Longrightarrow> step_outcome (Update d) im r im'"
  by (cases r) (auto simp: call_outcome_def step_outcome_def stream_ok_def)

lemma finalize_step_outcome:
  "call_outcome finished im r im' \<Longrightarrow> stream_ok im \<Longrightarrow> step_outcome (Finalize d) im r im'"
  by (cases r) (auto simp: call_outcome_def step_outcome_def stream_ok_def)

lemma encryptor_call_outcome:
  assumes "encryptor_call ssl c (Some im, s) = (r, st')" and "stream_ok im"
  obtains im' s' where "st' = (Some im', s')" and "step_outcome c im r im'" and "retired s' = retired s"
proof (cases c)
  case (Begin d)
  with assms that encryptor_begin_outcome [of ssl im s r st'] show thesis
    by (metis begin_outcome_def begin_step_outcome encryptor_call.simps(1))
next
  case (Update d)
  with assms that encryptor_update_outcome [of ssl d im s r st'] show thesis
    by (metis update_step_outcome encryptor_call.simps(2))
next
  case (Finalize d)
  with assms that encryptor_finalize_outcome [of ssl im s r st'] show thesis
    by (metis finalize_step_outcome encryptor_call.simps(3))
qed

lemma decryptor_call_outcome:
  assumes "decryptor_call ssl c (Some im, s) = (r, st')" and "stream_ok im"
  obtains im' s' where "st' = (Some im', s')" and "step_outcome c im r im'"
proof (cases c)
  case (Begin d)
  obtain r0 st0 where r0: "decryptor_begin ssl d (Some im, s) = (r0, st0)" by (meson surj_pair)
  then obtain im' s' where st0: "st0 = (Some im', s')" and out: "begin_outcome im s r0 im' s'"
    by (rule decryptor_begin_outcome)
  then have "step_outcome c im r0 im'" using begin_step_outcome [OF out assms(2)] Begin by simp
  moreover have "r = (case r0 of Inl e \<Rightarrow> Inl e | Inr _ \<Rightarrow> Inr [])" "st' = st0"
    using assms(1) Begin r0 by (auto simp: mbind_def mreturn_def split: sum.splits)
  ultimately show thesis
    using st0 by (intro that [of im' s']) (auto simp: step_outcome_def split: sum.splits)
next
  case (Update d)
  with assms that decryptor_update_outcome [of ssl d im s r st'] show thesis
    by (metis update_step_outcome decryptor_call.simps(2))
next
  case (Finalize d)
  with assms that decryptor_finalize_outcome [of ssl d im s r st'] show thesis
    by (metis finalize_step_outcome decryptor_call.simps(3))
qed

lemma moved_from_calls:
  "encryptor_call ssl c (None, s) = (r, st') \<Longrightarrow> st' = (None, s) \<and> (\<exists>msg. r = Inl (Error invalid_input msg))"
  "decryptor_call ssl c (None, s) = (r', st'') \<Longrightarrow> st'' = (None, s) \<and> (\<exists>msg. r' = Inl (Error invalid_input msg))"
  by (cases c; auto simp: encryptor_begin_def encryptor_update_def encryptor_finalize_def
      decryptor_begin_def decryptor_update_def decryptor_finalize_def mbind_def)+

text \<open>The laws of a stream, from an outcome of this form.\<close>

lemma stream_laws:
  assumes outcome: "\<And>c im s r st'. call c (Some im, s) = (r, st') \<Longrightarrow> stream_ok im \<Longrightarrow>
      \<exists>im' s'. st' = (Some im', s') \<and> step_outcome c im r im'"
    and moved: "\<And>c s r st'. call c (None, s) = (r, st') \<Longrightarrow>
      st' = (None, s) \<and> (\<exists>msg. r = Inl (Error invalid_input msg))"
  shows "phased_stream call object_ok object_phase"
proof
  show "object_ok st' \<and> defined r" if "object_ok st" and "call c st = (r, st')" for st c r st'
  proof (cases st)
    case (Pair obj s)
    show ?thesis
    proof (cases obj)
      case None
      with moved [of c s r st'] that(2) Pair show ?thesis by auto
    next
      case (Some im)
      with outcome [of c im s r st'] that Pair show ?thesis by (auto simp: step_outcome_def)
    qed
  qed
  show "st' = st \<and> (\<exists>e. r = Inl e)" if "object_phase st = None" and "call c st = (r, st')" for st c r st'
    using that moved [of c "snd st" r st'] by (cases st) (auto simp: object_phase_def)
  show "object_phase st' = Some p \<or> p = active \<and> object_phase st' = Some finished"
    if "object_ok st" and "object_phase st = Some p" and "call c st = (Inl e, st')" for st p c e st'
  proof -
    from that(2) obtain im s where st: "st = (Some im, s)" "impl_phase im = p"
      by (rule object_phase_SomeE)
    with that outcome [of c im s "Inl e" st'] show ?thesis by (auto simp: step_outcome_def)
  qed
  show "case c of Begin d \<Rightarrow> p = ready \<and> object_phase st' = Some active
      | Update d \<Rightarrow> p = active \<and> object_phase st' = Some active
      | Finalize d \<Rightarrow> p = active \<and> object_phase st' = Some finished"
    if "object_ok st" and "object_phase st = Some p" and "call c st = (Inr out, st')" for st p c out st'
  proof -
    from that(2) obtain im s where st: "st = (Some im, s)" "impl_phase im = p"
      by (rule object_phase_SomeE)
    with that outcome [of c im s "Inr out" st']
    obtain im' s' where "st' = (Some im', s')" "step_outcome c im (Inr out) im'" by auto
    with st show ?thesis by (auto simp: step_outcome_def split: stream_call.splits)
  qed
qed

interpretation encs: phased_stream "encryptor_call ssl" object_ok object_phase
  for ssl :: "('o, 'c) openssl"
  by (rule stream_laws) (metis encryptor_call_outcome, rule moved_from_calls)

interpretation decs: phased_stream "decryptor_call ssl" object_ok object_phase
  for ssl :: "('o, 'c) openssl"
  by (rule stream_laws) (metis decryptor_call_outcome, rule moved_from_calls)

lemma new_packet_impl_iff:
  "new_packet_impl key aad s = (Inr obj, s') \<longleftrightarrow> length aad \<le> int_max \<and> s' = s \<and>
     obj = Some \<lparr>impl_key = key, impl_aad = aad, impl_context = None, impl_phase = ready\<rparr>"
  by (auto simp: new_packet_impl_def mbind_def mon_error_def mlift_def check_update_size_def
      mreturn_def)

lemma new_packet_impl_ok:
  "new_packet_impl key aad s = (Inr obj, s') \<Longrightarrow> object_ok (obj, s') \<and> object_phase (obj, s') = Some ready"
  by (auto simp: new_packet_impl_iff stream_ok_def)

subsection \<open>Properties of the protocol\<close>

text \<open>
  C31: Typestate of the encryptor. Whatever a client calls on a new \<open>packet_encryptor\<close>, in whatever
  order, and whichever OpenSSL calls fail: no call dereferences a null pointer, and the calls that return
  are one \<open>begin\<close>, then any number of \<open>update\<close>, then at most one \<open>finalize\<close> with nothing after it.
\<close>

theorem encryptor_protocol:
  assumes "new_packet_impl key aad s = (Inr obj, s1)"
    and "stream_run (encryptor_call ssl) (obj, s1) tr st'"
  shows "(\<forall>(c, r) \<in> set tr. defined r) \<and> follows_protocol ready (accepted tr)"
  using encs.run_ok [OF assms(2)] encs.run_follows_protocol [OF assms(2)] new_packet_impl_ok [OF assms(1)]
  by blast

text \<open>
  C32: Typestate of the decryptor: the same protocol, for every sequence of calls with any prefix,
  ciphertext and tag.
\<close>

theorem decryptor_protocol:
  assumes "new_packet_impl key aad s = (Inr obj, s1)"
    and "stream_run (decryptor_call ssl) (obj, s1) tr st'"
  shows "(\<forall>(c, r) \<in> set tr. defined r) \<and> follows_protocol ready (accepted tr)"
  using decs.run_ok [OF assms(2)] decs.run_follows_protocol [OF assms(2)] new_packet_impl_ok [OF assms(1)]
  by blast

lemma encryptor_run_frame:
  "stream_run (encryptor_call ssl) st tr st' \<Longrightarrow> st = (Some im, s) \<Longrightarrow> stream_ok im \<Longrightarrow>
     \<exists>im' s'. st' = (Some im', s') \<and> same_secrets im im' \<and> retired s' = retired s"
proof (induction arbitrary: im s rule: stream_run.induct)
  case (stream_run_step c st r st' tr st'')
  from stream_run_step.hyps(1) [unfolded stream_run_step.prems(1)] stream_run_step.prems(2)
  obtain im1 s1 where 1: "st' = (Some im1, s1)" "step_outcome c im r im1" "retired s1 = retired s"
    by (rule encryptor_call_outcome)
  from stream_run_step.IH [OF 1(1)] 1(2,3) show ?case
    by (fastforce simp: step_outcome_def same_secrets_def)
qed auto

text \<open>
  C35: A packet encryptor releases its secrets wiped. Whatever was called on it, destroying it releases
  exactly its copies of the key and of the associated data, both overwritten with zeros.
\<close>

theorem encryptor_wipes_secrets:
  assumes "new_packet_impl key aad s = (Inr obj, s1)"
    and "stream_run (encryptor_call ssl) (obj, s1) tr (obj', s2)"
  shows "retired (destroy_packet_impl obj' s2) =
    [replicate (length key) 0, replicate (length aad) 0] @ retired s"
  using encryptor_run_frame [OF assms(2)] assms(1)
  by (fastforce simp: new_packet_impl_iff stream_ok_def destroy_packet_impl_def same_secrets_def)

text \<open>Concrete runs.\<close>

definition toy_key :: bytes where
  "toy_key = replicate 32 1"

definition toy_runtime :: "nat runtime" where
  "toy_runtime = \<lparr>provider = 0, retired = []\<rparr>"

definition toy_object :: "gcm_view packet_impl option" where
  "toy_object = Some \<lparr>impl_key = toy_key, impl_aad = [5], impl_context = None, impl_phase = ready\<rparr>"

lemma toy_object_new: "new_packet_impl toy_key [5] toy_runtime = (Inr toy_object, toy_runtime)"
  by (simp add: new_packet_impl_iff toy_object_def int_max_def)

definition toy_encryptor_trace :: "(stream_call \<times> bytes result) list \<times> (gcm_view, nat) packet_object" where
  "toy_encryptor_trace = run_calls (encryptor_call toy_ssl)
     [Update [1], Begin [], Update [7], Begin [], Finalize [], Update [8]] (toy_object, toy_runtime)"

definition toy_decryptor_trace :: "(stream_call \<times> bytes result) list \<times> (gcm_view, nat) packet_object" where
  "toy_decryptor_trace = run_calls (decryptor_call toy_ssl)
     [Begin [0], Begin (make_packet_header @ replicate 12 0), Update [39], Finalize (replicate 16 122),
      Finalize (replicate 16 122)] (toy_object, toy_runtime)"

lemma toy_traces:
  "accepted (fst toy_encryptor_trace) = [Begin [], Update [7], Finalize []]"
  "accepted (fst toy_decryptor_trace) =
     [Begin (make_packet_header @ replicate 12 0), Update [39], Finalize (replicate 16 122)]"
  by code_simp+

lemma toy_runs:
  "stream_run (encryptor_call toy_ssl) (toy_object, toy_runtime) (fst toy_encryptor_trace) (snd toy_encryptor_trace)"
  "stream_run (decryptor_call toy_ssl) (toy_object, toy_runtime) (fst toy_decryptor_trace) (snd toy_decryptor_trace)"
  unfolding toy_encryptor_trace_def toy_decryptor_trace_def by (rule stream_run_of_calls)+

lemma encryptor_protocol_witness:
  "list_all (\<lambda>(c, r). defined r) (fst toy_encryptor_trace) \<and>
   follows_protocol ready (accepted (fst toy_encryptor_trace)) \<and>
   accepted (fst toy_encryptor_trace) = [Begin [], Update [7], Finalize []]"
  using encryptor_protocol [OF toy_object_new toy_runs(1)] toy_traces(1)
  unfolding list_all_iff by blast

lemma decryptor_protocol_witness:
  "list_all (\<lambda>(c, r). defined r) (fst toy_decryptor_trace) \<and>
   follows_protocol ready (accepted (fst toy_decryptor_trace)) \<and>
   accepted (fst toy_decryptor_trace) =
     [Begin (make_packet_header @ replicate 12 0), Update [39], Finalize (replicate 16 122)]"
  using decryptor_protocol [OF toy_object_new toy_runs(2)] toy_traces(2)
  unfolding list_all_iff by blast

lemma encryptor_wipes_secrets_witness:
  "retired (destroy_packet_impl (fst (snd toy_encryptor_trace)) (snd (snd toy_encryptor_trace))) =
     [replicate 32 0, [0]]"
  using encryptor_wipes_secrets [OF toy_object_new, of toy_ssl "fst toy_encryptor_trace"
      "fst (snd toy_encryptor_trace)" "snd (snd toy_encryptor_trace)"] toy_runs(1)
  by (simp add: toy_key_def toy_runtime_def)

end
