(* ===== verification/Stream_Correct.thy ===== *)
theory Stream_Correct
  imports File_Streams Packet_Stream
begin

section \<open>Properties of sealed streams\<close>

text \<open>
  The properties of the four stream operations, from the interfaces \<open>sealing\<close> and \<open>reliable_sealing\<close>. A
  provider that satisfies every hypothesis is at the beginning, for the witnesses.
\<close>

definition toy_kdf :: kdf_alg where
  "toy_kdf = \<lparr>hkdf_out = (\<lambda>n ps. replicate n 9), scrypt_out = (\<lambda>pw salt n r p m len. replicate len (foldr (+) (pw @ salt) 11))\<rparr>"

lemma toy_kdf_laws: "kdf_provider toy_ssl toy_kdf" "kdf_healthy toy_ssl"
  by (auto simp: kdf_provider_def kdf_healthy_def toy_ssl_def toy_kdf_def)

definition fresh_ostream :: ostream where
  "fresh_ostream = \<lparr>written = [], room = None, out_failed = False\<rparr>"

lemma fresh_ostream_simps [simp]: "written fresh_ostream = []" "ostream_reliable fresh_ostream"
  by (simp_all add: fresh_ostream_def ostream_reliable_def)

definition toy_start :: "bytes \<Rightarrow> (ostream, nat) transfer" where
  "toy_start data = \<lparr>source = fresh_istream data, sink = fresh_ostream, crypto = \<lparr>provider = 0, retired = []\<rparr>\<rparr>"

lemma toy_start_simps [simp]:
  "source (toy_start data) = fresh_istream data" "sink (toy_start data) = fresh_ostream"
  by (simp_all add: toy_start_def)

lemma small_chunk_count: "length p \<le> 1048576 \<Longrightarrow> chunk_count p \<le> 4294967296"
  by (simp add: chunk_count_short)

lemma header_valid_iff: "valid_header h \<longleftrightarrow> decode_header (fh_serialized h) = Inr h"
  using decode_header_valid [of "fh_serialized h" h] headerc.decode_encode [of h "fh_serialized h"] by blast

text \<open>
  C12: A sealed stream opens to what was sealed. With OpenSSL and the streams working, associated data of
  at most two billion bytes and an input of at most \<open>2^32\<close> chunks, sealing returns, and opening its output
  under the same key and associated data returns and appends exactly the input.
\<close>

theorem sealed_stream_opens:
  assumes prov: "gcm_provider ssl view alg" "gcm_healthy ssl view alg" "kdf_provider ssl kdf" "kdf_healthy ssl"
    and aad: "length aad \<le> 2000000000"
    and input: "istream_good (source s)" "\<not> broken (source s)" "chunk_count (remaining (source s)) \<le> 2 ^ 32"
    and sinks: "ostream_reliable (sink s)" "ostream_reliable out"
  shows "\<exists>s1 sealed s2. seal_file_stream ssl write_all key aad s = (Inr (), s1) \<and> written (sink s1) = written (sink s) @ sealed \<and>
    open_file_stream ssl write_all key aad \<lparr>source = fresh_istream sealed, sink = out, crypto = crypto s1\<rparr> = (Inr (), s2) \<and>
    written (sink s2) = written out @ remaining (source s)"
proof -
  have "length aad \<le> int_max - 9 - 50" "(50 :: nat) \<le> 1000" using aad by (simp_all add: int_max_def)
  from keyed_stream.sealed_then_opened [OF prov TrueI input(1,2) sinks(1) this input(3)] obtain s1 sealed where
    s1: "seal_file_stream ssl write_all key aad s = (Inr (), s1)" "written (sink s1) = written (sink s) @ sealed"
    and opens: "\<And>t. istream_good (source t) \<Longrightarrow> \<not> broken (source t) \<Longrightarrow> remaining (source t) = sealed \<Longrightarrow>
      ostream_reliable (sink t) \<Longrightarrow> \<exists>t'. open_file_stream ssl write_all key aad t = (Inr (), t') \<and>
        written (sink t') = written (sink t) @ remaining (source s)"
    unfolding stream_overloads by blast
  from opens [of "\<lparr>source = fresh_istream sealed, sink = out, crypto = crypto s1\<rparr>"] s1 sinks(2) show ?thesis by auto
qed

lemma sealed_stream_opens_witness:
  "\<exists>s1 sealed s2. seal_file_stream toy_ssl write_all toy_key [9] (toy_start [1, 2, 3]) = (Inr (), s1) \<and>
    written (sink s1) = sealed \<and>
    open_file_stream toy_ssl write_all toy_key [9] \<lparr>source = fresh_istream sealed, sink = fresh_ostream, crypto = crypto s1\<rparr> =
      (Inr (), s2) \<and> written (sink s2) = [1, 2, 3]"
  using sealed_stream_opens [OF toy_provider toy_healthy toy_kdf_laws, of "[9]" "toy_start [1, 2, 3]" fresh_ostream toy_key]
  by (simp add: small_chunk_count)

text \<open>C16: The same for passwords that are not empty.\<close>

theorem password_sealed_stream_opens:
  assumes prov: "gcm_provider ssl view alg" "gcm_healthy ssl view alg" "kdf_provider ssl kdf" "kdf_healthy ssl"
    and password: "password \<noteq> []" and aad: "length aad \<le> 2000000000"
    and input: "istream_good (source s)" "\<not> broken (source s)" "chunk_count (remaining (source s)) \<le> 2 ^ 32"
    and sinks: "ostream_reliable (sink s)" "ostream_reliable out"
  shows "\<exists>s1 sealed s2. seal_file_with_password_stream ssl write_all password aad s = (Inr (), s1) \<and>
    written (sink s1) = written (sink s) @ sealed \<and>
    open_file_with_password_stream ssl write_all password aad \<lparr>source = fresh_istream sealed, sink = out, crypto = crypto s1\<rparr> =
      (Inr (), s2) \<and> written (sink s2) = written out @ remaining (source s)"
proof -
  note overloads = stream_overloads(3,4) [OF password]
  have "length aad \<le> int_max - 9 - 64" "(64 :: nat) \<le> 1000" using aad by (simp_all add: int_max_def)
  from pass_stream.sealed_then_opened [OF prov password input(1,2) sinks(1) this input(3)] obtain s1 sealed where
    s1: "seal_file_with_password_stream ssl write_all password aad s = (Inr (), s1)"
    "written (sink s1) = written (sink s) @ sealed"
    and opens: "\<And>t. istream_good (source t) \<Longrightarrow> \<not> broken (source t) \<Longrightarrow> remaining (source t) = sealed \<Longrightarrow>
      ostream_reliable (sink t) \<Longrightarrow> \<exists>t'. open_file_with_password_stream ssl write_all password aad t = (Inr (), t') \<and>
        written (sink t') = written (sink t) @ remaining (source s)"
    unfolding overloads by blast
  from opens [of "\<lparr>source = fresh_istream sealed, sink = out, crypto = crypto s1\<rparr>"] s1 sinks(2) show ?thesis by auto
qed

lemma password_sealed_stream_opens_witness:
  "\<exists>s1 sealed s2. seal_file_with_password_stream toy_ssl write_all [112] [9] (toy_start [1, 2, 3]) = (Inr (), s1) \<and>
    written (sink s1) = sealed \<and>
    open_file_with_password_stream toy_ssl write_all [112] [9]
      \<lparr>source = fresh_istream sealed, sink = fresh_ostream, crypto = crypto s1\<rparr> = (Inr (), s2) \<and>
    written (sink s2) = [1, 2, 3]"
  using password_sealed_stream_opens [OF toy_provider toy_healthy toy_kdf_laws,
      of "[112]" "[9]" "toy_start [1, 2, 3]" fresh_ostream]
  by (simp add: small_chunk_count)

lemma short_not_sealed: "decode_header (fh_serialized h) = Inr h \<Longrightarrow> [83, 75, 70] \<noteq> sealed_file alg k (fh_serialized h) np aad ps"
  by (auto simp: sealed_file_def decode_header_def split: if_splits dest: arg_cong [where f = length])

text \<open>
  C14: What opening accepts. When OpenSSL and the streams work, \<open>open_file\<close> returns exactly for the sealed
  files: a valid header, then at most \<open>2^32\<close> chunks in order, encrypted under the key that belongs to the
  header, all full but the last, the last one and no other marked final, and nothing after it. So truncation,
  reordering, repetition and trailing data are refused.
\<close>

theorem open_stream_exact:
  assumes prov: "gcm_provider ssl view alg" "gcm_healthy ssl view alg" "kdf_provider ssl kdf" "kdf_healthy ssl"
    and aad: "length aad \<le> 2000000000" and input: "istream_good (source s)" "\<not> broken (source s)"
    and sink: "ostream_reliable (sink s)"
  shows "(\<exists>s'. open_file_stream ssl write_all key aad s = (Inr (), s')) \<longleftrightarrow>
    (\<exists>h ps. decode_header (fh_serialized h) = Inr h \<and> well_chunked ps \<and> length ps \<le> 2 ^ 32 \<and>
       remaining (source s) =
         sealed_file alg (file_key kdf key (fh_salt h)) (fh_serialized h) (fh_nonce_prefix h) aad ps)"
proof -
  have "length aad \<le> int_max - 9 - 50" "(50 :: nat) \<le> 1000" using aad by (simp_all add: int_max_def)
  from keyed_stream.open_with_exact [OF prov TrueI input sink this] show ?thesis
    unfolding stream_overloads header_valid_iff .
qed

lemma open_stream_exact_witness:
  "\<not> (\<exists>s'. open_file_stream toy_ssl write_all toy_key [] (toy_start [83, 75, 70]) = (Inr (), s'))"
  using open_stream_exact [OF toy_provider toy_healthy toy_kdf_laws, of "[]" "toy_start [83, 75, 70]" toy_key]
  by (simp add: short_not_sealed)

text \<open>
  C13: Only authenticated plaintext is written. Whatever OpenSSL, the input and the output do, and whether it
  returns or throws, \<open>open_file\<close> has appended nothing, or the beginning of the plaintext of chunks that are
  sealed under the file's key at their positions and with which the input starts. When it returns it has
  appended the plaintext of all of them, and all key and plaintext buffers it released were wiped.
\<close>

theorem open_stream_writes_authenticated:
  assumes "gcm_provider ssl view alg" and "kdf_provider ssl kdf" and "istream_good (source s)"
    and "open_file_stream ssl write_all key aad s = (r, s')"
  shows "\<exists>accepted. written (sink s') = written (sink s) @ accepted \<and>
    (accepted = [] \<or> (\<exists>h input ps rest. valid_header h \<and> remaining (source s) = fh_serialized h @ input \<and>
       starts_with_chunks alg (file_key kdf key (fh_salt h)) (fh_serialized h) (fh_nonce_prefix h) aad 0 ps input \<and>
       concat ps = accepted @ rest)) \<and>
    (r = Inr () \<longrightarrow> releases_wiped (crypto s) (crypto s') \<and>
       (\<exists>h ps. valid_header h \<and> well_chunked ps \<and> accepted = concat ps \<and> remaining (source s) =
          sealed_file alg (file_key kdf key (fh_salt h)) (fh_serialized h) (fh_nonce_prefix h) aad ps))"
proof -
  from keyed_stream.open_with_writes [OF assms(1-3) TrueI assms(4) [unfolded stream_overloads]] obtain accepted where
    acc: "written (sink s') = written (sink s) @ accepted"
    "accepted = [] \<or> (\<exists>h input ps rest. valid_header h \<and> remaining (source s) = fh_serialized h @ input \<and>
       starts_with_chunks alg (file_key kdf key (fh_salt h)) (fh_serialized h) (fh_nonce_prefix h) aad 0 ps input \<and>
       concat ps = accepted @ rest)"
    by blast
  have "releases_wiped (crypto s) (crypto s') \<and>
      (\<exists>h ps. valid_header h \<and> well_chunked ps \<and> accepted = concat ps \<and> remaining (source s) =
          sealed_file alg (file_key kdf key (fh_salt h)) (fh_serialized h) (fh_nonce_prefix h) aad ps)" if "r = Inr ()"
    using keyed_stream.open_with_spec [OF assms(1-3) TrueI assms(4) [unfolded stream_overloads that]] acc(1) by auto
  with acc show ?thesis by blast
qed

lemma open_stream_writes_authenticated_witness:
  "written (sink (snd (open_file_stream toy_ssl write_all toy_key [] (toy_start [83, 75, 70])))) = []"
proof -
  obtain r s' where run: "open_file_stream toy_ssl write_all toy_key [] (toy_start [83, 75, 70]) = (r, s')" by fastforce
  from open_stream_writes_authenticated [OF toy_provider toy_kdf_laws(1) _ run]
  have "written (sink s') = [] \<or> (\<exists>h input. valid_header h \<and> [83, 75, 70] = fh_serialized h @ input)" by auto
  then show ?thesis using run by (auto simp: valid_header_def dest: arg_cong [where f = length])
qed



end
