(* ===== verification/Base64.thy ===== *)
theory Base64
  imports Codec
begin

section \<open>Base64 and Base64URL text\<close>

text \<open>\<open>src/base64.cpp\<close>: RFC 4648 text with strict, canonical decoding.\<close>

unbundle bit_operations_syntax

definition kAlphabet :: string where
  "kAlphabet = ''ABCDEFGHIJKLMNOPQRSTUVWXYZabcdefghijklmnopqrstuvwxyz0123456789+/''"

definition decode_char :: "char \<Rightarrow> int" where
  "decode_char ch =
     (if schar ch \<ge> schar (CHR ''A'') \<and> schar ch \<le> schar (CHR ''Z'')
        then schar ch - schar (CHR ''A'')
      else if schar ch \<ge> schar (CHR ''a'') \<and> schar ch \<le> schar (CHR ''z'')
        then schar ch - schar (CHR ''a'') + 26
      else if schar ch \<ge> schar (CHR ''0'') \<and> schar ch \<le> schar (CHR ''9'')
        then schar ch - schar (CHR ''0'') + 52
      else if ch = CHR ''+'' then 62
      else if ch = CHR ''/'' then 63
      else -1)"

definition is_base64url_char :: "char \<Rightarrow> bool" where
  "is_base64url_char ch \<longleftrightarrow>
     schar ch \<ge> schar (CHR ''A'') \<and> schar ch \<le> schar (CHR ''Z'') \<or>
     schar ch \<ge> schar (CHR ''a'') \<and> schar ch \<le> schar (CHR ''z'') \<or>
     schar ch \<ge> schar (CHR ''0'') \<and> schar ch \<le> schar (CHR ''9'') \<or>
     ch = CHR ''-'' \<or> ch = CHR ''_''"

subsection \<open>Validation\<close>

text \<open>The scan keeps whether padding was seen and how much; it returns the padding count.\<close>

fun base64_scan :: "bool \<Rightarrow> nat \<Rightarrow> string \<Rightarrow> nat result" where
  "base64_scan seen_padding padding [] = Inr padding"
| "base64_scan seen_padding padding (ch # rest) =
     (if ch = CHR ''='' then
        (if padding + 1 > 2 then Inl (Error invalid_encoding ''base64 input has too much padding'')
         else base64_scan True (padding + 1) rest)
      else if seen_padding then Inl (Error invalid_encoding ''base64 input has data after padding'')
      else if decode_char ch < 0 then
        Inl (Error invalid_encoding ''base64 input contains an invalid character'')
      else base64_scan seen_padding padding rest)"

definition reject_invalid_base64 :: "string \<Rightarrow> unit result" where
  "reject_invalid_base64 input =
     (if length input mod 4 \<noteq> 0
      then Inl (Error invalid_encoding ''base64 input length must be a multiple of four'')
      else rbind (base64_scan False 0 input)
        (\<lambda>padding. if padding > 0 \<and> length input < 4
          then Inl (Error invalid_encoding ''base64 padding without data'') else Inr ()))"

fun base64url_scan :: "string \<Rightarrow> unit result" where
  "base64url_scan [] = Inr ()"
| "base64url_scan (ch # rest) =
     (if \<not> is_base64url_char ch
      then Inl (Error invalid_encoding ''base64url input contains an invalid character'')
      else base64url_scan rest)"

definition reject_invalid_base64url :: "string \<Rightarrow> unit result" where
  "reject_invalid_base64url input =
     (if length input mod 4 = 1
      then Inl (Error invalid_encoding ''base64url input has invalid length'')
      else base64url_scan input)"

subsection \<open>Encoding\<close>

text \<open>One turn of the encoding loop, with \<open>has_b1\<close> and \<open>has_b2\<close> as the code computes them.\<close>

definition base64_group :: "byte \<Rightarrow> byte option \<Rightarrow> byte option \<Rightarrow> string" where
  "base64_group i0 i1 i2 =
     (let has_b1 = i1 \<noteq> None; has_b2 = i2 \<noteq> None;
          b0 = ucast i0 :: u32;
          b1 = (case i1 of Some b \<Rightarrow> ucast b | None \<Rightarrow> 0) :: u32;
          b2 = (case i2 of Some b \<Rightarrow> ucast b | None \<Rightarrow> 0) :: u32
      in [kAlphabet ! unat (drop_bit 2 b0 AND 0x3f),
          kAlphabet ! unat ((push_bit 4 b0 OR drop_bit 4 b1) AND 0x3f),
          (if has_b1 then kAlphabet ! unat ((push_bit 2 b1 OR drop_bit 6 b2) AND 0x3f) else CHR ''=''),
          (if has_b2 then kAlphabet ! unat (b2 AND 0x3f) else CHR ''='')])"

fun base64_encode_loop :: "bytes \<Rightarrow> string" where
  "base64_encode_loop [] = []"
| "base64_encode_loop [a] = base64_group a None None"
| "base64_encode_loop [a, b] = base64_group a (Some b) None"
| "base64_encode_loop (a # b # c # rest) = base64_group a (Some b) (Some c) @ base64_encode_loop rest"

definition base64_encode :: "bytes \<Rightarrow> string result" where
  "base64_encode input =
     (let trailing_group = (if length input mod 3 = 0 then 0 else 1);
          encoded_groups = length input div 3 + trailing_group
      in if encoded_groups > string_max_size div 4
         then Inl (Error invalid_input ''base64 input is too large to encode'')
         else Inr (base64_encode_loop input))"

definition to_url_char :: "char \<Rightarrow> char" where
  "to_url_char ch = (if ch = CHR ''+'' then CHR ''-'' else if ch = CHR ''/'' then CHR ''_'' else ch)"

definition strip_padding :: "string \<Rightarrow> string" where
  "strip_padding output = rev (dropWhile (\<lambda>ch. ch = CHR ''='') (rev output))"

definition base64url_encode :: "bytes \<Rightarrow> string result" where
  "base64url_encode input =
     rbind (base64_encode input) (\<lambda>output. Inr (strip_padding (map to_url_char output)))"

subsection \<open>Decoding\<close>

text \<open>
  The loop takes four characters a step. The equation for a shorter rest is never reached: a size
  that is no multiple of four has been rejected.
\<close>

fun base64_decode_loop :: "string \<Rightarrow> bytes result" where
  "base64_decode_loop [] = Inr []"
| "base64_decode_loop (i0 # i1 # i2 # i3 # rest) =
     (let c0 = decode_char i0;
          c1 = decode_char i1;
          c2 = (if i2 = CHR ''='' then 0 else decode_char i2);
          c3 = (if i3 = CHR ''='' then 0 else decode_char i3);
          o0 = [word_of_int (push_bit 2 c0 OR drop_bit 4 c1)];
          o1 = (if i2 \<noteq> CHR ''='' then [word_of_int (push_bit 4 (c1 AND 0x0f) OR drop_bit 2 c2)] else []);
          o2 = (if i3 \<noteq> CHR ''='' then [word_of_int (push_bit 6 (c2 AND 0x03) OR c3)] else [])
      in rbind (base64_decode_loop rest) (\<lambda>out. Inr (o0 @ o1 @ o2 @ out)))"
| "base64_decode_loop short = Inl (Undefined_behaviour ''read past the end of the base64 input'')"

definition ends_with :: "string \<Rightarrow> string \<Rightarrow> bool" where
  "ends_with s t \<longleftrightarrow> length t \<le> length s \<and> drop (length s - length t) s = t"

definition base64_decode :: "string \<Rightarrow> bytes result" where
  "base64_decode input =
     rbind (reject_invalid_base64 input) (\<lambda>_.
       if input = [] then Inr []
       else
         let padding = (if ends_with input ''=='' then 2 else if ends_with input ''='' then 1 else 0);
             decoded_groups = length input div 4;
             decoded_size = decoded_groups * 3 - padding
         in if decoded_size > vector_max_size
            then Inl (Error invalid_input ''base64 input is too large to decode'')
            else rbind (base64_decode_loop input) (\<lambda>output.
              rbind (base64_encode output) (\<lambda>again.
                if again \<noteq> input
                then Inl (Error invalid_encoding ''base64 input is not in canonical form'')
                else Inr output)))"

definition from_url_char :: "char \<Rightarrow> char" where
  "from_url_char ch = (if ch = CHR ''-'' then CHR ''+'' else if ch = CHR ''_'' then CHR ''/'' else ch)"

lemma pad_measure:
  assumes "0 < n mod 4"
  shows "(4 - Suc n mod 4) mod 4 < 4 - n mod (4 :: nat)"
proof -
  have "n mod 4 < 4" by simp
  with assms have "n mod 4 = 1 \<or> n mod 4 = 2 \<or> n mod 4 = 3" by linarith
  then show ?thesis by (auto simp: mod_Suc)
qed

text \<open>\<open>while ((padded.size() % 4) != 0) padded.push_back('=')\<close>\<close>

function pad_to_four :: "string \<Rightarrow> string" where
  "pad_to_four padded = (if length padded mod 4 \<noteq> 0 then pad_to_four (padded @ [CHR ''='']) else padded)"
  by pat_completeness auto
termination
  by (relation "measure (\<lambda>s. (4 - length s mod 4) mod 4)") (auto simp: pad_measure)

declare pad_to_four.simps [simp del]

definition base64url_decode :: "string \<Rightarrow> bytes result" where
  "base64url_decode input =
     rbind (reject_invalid_base64url input) (\<lambda>_.
       if length input > string_max_size - 3
       then Inl (Error invalid_input ''base64url input is too large to decode'')
       else rbind (base64_decode (pad_to_four (map from_url_char input))) (\<lambda>output.
         rbind (base64url_encode output) (\<lambda>again.
           if again \<noteq> input
           then Inl (Error invalid_encoding ''base64url input is not in canonical form'')
           else Inr output)))"

subsection \<open>The alphabet\<close>

lemma length_kAlphabet [simp]: "length kAlphabet = 64"
  by (simp add: kAlphabet_def)

lemma decode_alphabet:
  assumes "n < 64"
  shows "decode_char (kAlphabet ! n) = int n" and "kAlphabet ! n \<noteq> CHR ''=''"
    and "is_base64url_char (to_url_char (kAlphabet ! n))"
    and "from_url_char (to_url_char (kAlphabet ! n)) = kAlphabet ! n"
    and "to_url_char (kAlphabet ! n) \<noteq> CHR ''=''"
proof -
  have all: "\<forall>n \<in> set [0..<64].
     decode_char (kAlphabet ! n) = int n \<and> kAlphabet ! n \<noteq> CHR ''='' \<and>
     is_base64url_char (to_url_char (kAlphabet ! n)) \<and>
     from_url_char (to_url_char (kAlphabet ! n)) = kAlphabet ! n \<and>
     to_url_char (kAlphabet ! n) \<noteq> CHR ''=''"
    by code_simp
  have "n \<in> set [0..<64]" using assms by simp
  with all show "decode_char (kAlphabet ! n) = int n" and "kAlphabet ! n \<noteq> CHR ''=''"
    and "is_base64url_char (to_url_char (kAlphabet ! n))"
    and "from_url_char (to_url_char (kAlphabet ! n)) = kAlphabet ! n"
    and "to_url_char (kAlphabet ! n) \<noteq> CHR ''=''"
    by blast+
qed

lemma sextet_less: "unat ((v :: u32) AND 0x3f) < 64"
  using unat_take_bit_less [of 6 v] by (simp add: mask_simps)

lemmas decode_sextet [simp] = decode_alphabet [OF sextet_less]

lemma sextet_in_alphabet: "kAlphabet ! unat ((v :: u32) AND 0x3f) \<in> set kAlphabet"
  by (simp add: sextet_less)

lemma alphabet_char:
  assumes "c \<in> set kAlphabet"
  shows "decode_char c \<ge> 0" and "c \<noteq> CHR ''=''" and "is_base64url_char (to_url_char c)"
    and "from_url_char (to_url_char c) = c" and "to_url_char c \<noteq> CHR ''=''"
proof -
  obtain n where "n < 64" and c: "c = kAlphabet ! n"
    using assms by (auto simp: in_set_conv_nth)
  with decode_alphabet [of n] show "decode_char c \<ge> 0" and "c \<noteq> CHR ''=''"
    and "is_base64url_char (to_url_char c)"
    and "from_url_char (to_url_char c) = c" and "to_url_char c \<noteq> CHR ''=''"
    by simp_all
qed

subsection \<open>One group of the loop\<close>

text \<open>The three bytes are put together again from the four sextets.\<close>

lemma Suc_Suc_diff_2: "2 \<le> n \<Longrightarrow> Suc (Suc (n - 2)) = n"
  by arith

lemma byte0_of_sextets:
  "(word_of_int (push_bit 2 (uint (drop_bit 2 (ucast a :: u32) AND 0x3f))
      OR drop_bit 4 (uint ((push_bit 4 (ucast a :: u32) OR w) AND 0x3f))) :: byte) = a"
  if "take_bit 4 w = w"
proof -
  have w: "n < 4" if "bit w n" for n
    using that \<open>take_bit 4 w = w\<close> by (metis bit_take_bit_iff)
  show ?thesis by (rule bit_word_eqI) (auto simp: bit_simps mask_simps not_less Suc_Suc_diff_2 dest: w)
qed

lemma byte1_of_sextets:
  "(word_of_int (push_bit 4 (uint ((push_bit 4 v OR drop_bit 4 (ucast b :: u32)) AND 0x3f) AND 0x0f)
      OR drop_bit 2 (uint ((push_bit 2 (ucast b :: u32) OR w) AND 0x3f))) :: byte) = b"
  if "take_bit 2 w = w"
proof -
  have w: "n < 2" if "bit w n" for n
    using that \<open>take_bit 2 w = w\<close> by (metis bit_take_bit_iff)
  show ?thesis by (rule bit_word_eqI) (auto simp: bit_simps mask_simps not_less Suc_Suc_diff_2 dest: w)
qed

lemma byte2_of_sextets:
  "(word_of_int (push_bit 6 (uint ((push_bit 2 v OR drop_bit 6 (ucast c :: u32)) AND 0x3f) AND 0x03)
      OR uint ((ucast c :: u32) AND 0x3f)) :: byte) = c"
  by (rule bit_word_eqI) (auto simp: bit_simps mask_simps)

lemma take_bit_shifted_byte:
  "take_bit 4 (drop_bit 4 (ucast (b :: byte) :: u32)) = drop_bit 4 (ucast b)"
  "take_bit 2 (drop_bit 6 (ucast (b :: byte) :: u32)) = drop_bit 6 (ucast b)"
  by (rule bit_word_eqI; auto simp: bit_simps dest: bit_imp_le_length)+

lemma base64_decode_group3:
  "base64_decode_loop (base64_group a (Some b) (Some c) @ rest) =
     rbind (base64_decode_loop rest) (\<lambda>out. Inr (a # b # c # out))"
  by (simp add: base64_group_def Let_def byte0_of_sextets byte1_of_sextets byte2_of_sextets
      take_bit_shifted_byte del: push_bit_and)

lemma base64_decode_group2: "base64_decode_loop (base64_group a (Some b) None) = Inr [a, b]"
  using byte1_of_sextets [of 0 "ucast a" b]
  by (simp add: base64_group_def Let_def byte0_of_sextets take_bit_shifted_byte del: push_bit_and)

lemma base64_decode_group1: "base64_decode_loop (base64_group a None None) = Inr [a]"
  using byte0_of_sextets [of 0 a] by (simp add: base64_group_def Let_def)

lemma base64_decode_encode_loop: "base64_decode_loop (base64_encode_loop bs) = Inr bs"
  by (induction bs rule: base64_encode_loop.induct)
    (simp_all add: base64_decode_group1 base64_decode_group2 base64_decode_group3)

subsection \<open>The shape of encoded text\<close>

definition base64_pad :: "nat \<Rightarrow> nat" where
  "base64_pad n = (3 - n mod 3) mod 3"

lemma base64_pad_3: "base64_pad (Suc (Suc (Suc n))) = base64_pad n"
  by (simp add: base64_pad_def Suc3_eq_add_3)

lemma groups_3: "(5 + n) div 3 = Suc (Suc (Suc n) div 3)"
  by presburger

lemma group_shapes:
  "\<exists>body. base64_group a (Some b) (Some c) = body \<and> length body = 4 \<and> set body \<subseteq> set kAlphabet"
  "\<exists>body. base64_group a (Some b) None = body @ ''='' \<and> length body = 3 \<and> set body \<subseteq> set kAlphabet"
  "\<exists>body. base64_group a None None = body @ ''=='' \<and> length body = 2 \<and> set body \<subseteq> set kAlphabet"
  by (simp_all add: base64_group_def Let_def sextet_in_alphabet)

text \<open>Encoded text is alphabet characters followed by at most two padding characters.\<close>

lemma base64_encode_shape:
  "\<exists>body. base64_encode_loop bs = body @ replicate (base64_pad (length bs)) (CHR ''='') \<and>
     set body \<subseteq> set kAlphabet \<and> length body + base64_pad (length bs) = 4 * ((length bs + 2) div 3)"
proof (induction bs rule: base64_encode_loop.induct)
  case 1
  show ?case by (simp add: base64_pad_def)
next
  case (2 a)
  show ?case using group_shapes(3) [of a] by (auto simp: base64_pad_def numeral_2_eq_2)
next
  case (3 a b)
  show ?case using group_shapes(2) [of a b] by (auto simp: base64_pad_def)
next
  case (4 a b c rest)
  then obtain body where IH:
    "base64_encode_loop rest = body @ replicate (base64_pad (length rest)) (CHR ''='')"
    "set body \<subseteq> set kAlphabet"
    "length body + base64_pad (length rest) = 4 * ((length rest + 2) div 3)" by blast
  obtain hd where hd: "base64_group a (Some b) (Some c) = hd" "length hd = 4" "set hd \<subseteq> set kAlphabet"
    using group_shapes(1) by blast
  show ?case
    by (rule exI [of _ "hd @ body"]) (use IH hd in \<open>simp add: base64_pad_3 groups_3\<close>)
qed

lemma base64_pad_le: "base64_pad n \<le> 2"
proof -
  have "base64_pad n < 3" by (simp add: base64_pad_def)
  then show ?thesis by simp
qed

lemma length_base64_encode_loop: "length (base64_encode_loop bs) = 4 * ((length bs + 2) div 3)"
  using base64_encode_shape [of bs] by auto

lemma encoded_groups: "length input div 3 + (if length input mod 3 = 0 then 0 else 1) = (length input + 2) div 3"
proof -
  have "n div 3 + (if n mod 3 = 0 then 0 else 1) = (n + 2) div 3" for n :: nat
    by presburger
  then show ?thesis .
qed

lemma base64_encode_Inr_iff:
  "base64_encode input = Inr s \<longleftrightarrow>
     (length input + 2) div 3 \<le> string_max_size div 4 \<and> s = base64_encode_loop input"
  unfolding base64_encode_def Let_def encoded_groups by auto

lemma base64_encode_Inl:
  "base64_encode input = Inl e \<Longrightarrow> e = Error invalid_input ''base64 input is too large to encode''"
  unfolding base64_encode_def Let_def encoded_groups by (auto split: if_splits)

subsection \<open>The validation accepts encoded text\<close>

lemma base64_scan_alphabet:
  "set body \<subseteq> set kAlphabet \<Longrightarrow> base64_scan False 0 (body @ rest) = base64_scan False 0 rest"
proof (induction body)
  case (Cons c cs)
  then have "c \<in> set kAlphabet" by simp
  from alphabet_char [OF this] Cons show ?case by simp
qed simp

lemma base64_scan_padding: "p + q \<le> 2 \<Longrightarrow> base64_scan b q (replicate p (CHR ''='')) = Inr (p + q)"
  by (induction p arbitrary: b q) simp_all

lemma base64_scan_encoded: "\<exists>p. base64_scan False 0 (base64_encode_loop bs) = Inr p"
proof -
  obtain body where "base64_encode_loop bs = body @ replicate (base64_pad (length bs)) (CHR ''='')"
    and "set body \<subseteq> set kAlphabet" using base64_encode_shape by blast
  then show ?thesis
    using base64_scan_padding [of "base64_pad (length bs)" 0 False] base64_pad_le
    by (simp add: base64_scan_alphabet)
qed

lemma reject_accepts_encoded: "reject_invalid_base64 (base64_encode_loop bs) = Inr ()"
  using base64_scan_encoded [of bs]
  by (cases bs) (auto simp: reject_invalid_base64_def length_base64_encode_loop)

lemma base64_scan_error:
  "base64_scan sp p s = Inl e \<Longrightarrow> code_of e = Some invalid_encoding"
  by (induction sp p s rule: base64_scan.induct) (auto split: if_splits)

lemma reject_invalid_base64_error:
  "reject_invalid_base64 s = Inl e \<Longrightarrow> code_of e = Some invalid_encoding"
  by (auto simp: reject_invalid_base64_def rbind_Inl_iff split: if_splits dest: base64_scan_error)

lemma reject_invalid_base64_length: "reject_invalid_base64 s = Inr u \<Longrightarrow> length s mod 4 = 0"
  by (simp add: reject_invalid_base64_def split: if_splits)

lemma base64_decode_loop_total:
  "length s mod 4 = 0 \<Longrightarrow> \<exists>out. base64_decode_loop s = Inr out"
proof (induction s rule: base64_decode_loop.induct)
  case (2 i0 i1 i2 i3 rest)
  have "\<exists>out. base64_decode_loop rest = Inr out"
    by (rule "2.IH" [OF refl refl refl refl refl refl refl]) (use "2.prems" in simp)
  then show ?case by (auto simp: Let_def)
qed auto

subsection \<open>The codecs\<close>

lemma base64_decode_encode:
  assumes "base64_encode input = Inr s"
  shows "base64_decode s = Inr input"
proof -
  from assms have size: "(length input + 2) div 3 \<le> string_max_size div 4"
    and s: "s = base64_encode_loop input" by (auto simp: base64_encode_Inr_iff)
  show ?thesis
  proof (cases "s = []")
    case True
    then have "input = []"
      using s base64_decode_encode_loop [of input] by simp
    with True show ?thesis by (simp add: base64_decode_def reject_invalid_base64_def)
  next
    case False
    have "length s div 4 * 3 - p \<le> vector_max_size" for p
      using size s by (simp add: length_base64_encode_loop string_max_size_def vector_max_size_def)
    then show ?thesis
      using False s assms
      by (simp add: base64_decode_def reject_accepts_encoded Let_def base64_decode_encode_loop not_less)
  qed
qed

lemma base64_encode_Nil [simp]: "base64_encode [] = Inr []"
  by (simp add: base64_encode_def string_max_size_def)

lemma base64_encode_decode:
  assumes "base64_decode s = Inr x"
  shows "base64_encode x = Inr s"
  using assms
  by (auto simp: base64_decode_def Let_def rbind_Inr_iff split: if_splits)

interpretation base64c: canonical_codec "\<lambda>_. True" base64_encode base64_decode
  by unfold_locales (blast intro: base64_decode_encode base64_encode_decode TrueI)+

lemma base64_decode_error:
  assumes "base64_decode s = Inl e"
  shows "code_of e \<in> {Some invalid_encoding, Some invalid_input}"
proof (cases "reject_invalid_base64 s")
  case (Inl e')
  with assms have "e = e'" by (simp add: base64_decode_def)
  with Inl show ?thesis by (simp add: reject_invalid_base64_error)
next
  case (Inr u)
  obtain out where "base64_decode_loop s = Inr out"
    using base64_decode_loop_total [OF reject_invalid_base64_length [OF Inr]] by blast
  with assms Inr show ?thesis
    by (auto simp: base64_decode_def Let_def rbind_Inl_iff dest: base64_encode_Inl split: if_splits)
qed

text \<open>how Base64 decoding fails. Every rejected text is reported as \<open>invalid_encoding\<close>, or as \<open>invalid_input\<close>
  when a size limit is passed; no text makes the loop read outside it.\<close>

theorem base64_decode_fails_cleanly:
  "case base64_decode s of Inl e \<Rightarrow> code_of e \<in> {Some invalid_encoding, Some invalid_input}
     \<and> (\<forall>bs. base64_encode bs \<noteq> Inr s) | Inr bs \<Rightarrow> base64_encode bs = Inr s"
proof (cases "base64_decode s")
  case (Inl e)
  then have "\<forall>bs. base64_encode bs \<noteq> Inr s" using base64c.rejected_not_encoded by blast
  with Inl base64_decode_error [of s e] show ?thesis by simp
qed (simp add: base64_encode_decode)

subsection \<open>Base64URL\<close>

lemma strip_padding_append:
  assumes "\<forall>c \<in> set xs. c \<noteq> CHR ''=''"
  shows "strip_padding (xs @ replicate n (CHR ''='')) = xs"
proof -
  have "dropWhile (\<lambda>ch. ch = CHR ''='') (rev xs) = rev xs"
    using assms by (cases "rev xs") (auto simp: rev_eq_Cons_iff)
  then show ?thesis by (simp add: strip_padding_def dropWhile_append)
qed

lemma pad_to_four_eq:
  "p < 4 \<Longrightarrow> (length xs + p) mod 4 = 0 \<Longrightarrow> pad_to_four xs = xs @ replicate p (CHR ''='')"
proof (induction p arbitrary: xs)
  case 0
  then show ?case by (simp add: pad_to_four.simps [of xs])
next
  case (Suc p)
  from Suc.prems have "length xs mod 4 \<noteq> 0" by presburger
  then have "pad_to_four xs = pad_to_four (xs @ [CHR ''=''])" by (subst pad_to_four.simps) simp
  also have "\<dots> = (xs @ [CHR ''='']) @ replicate p (CHR ''='')"
    by (rule Suc.IH) (use Suc.prems in simp_all)
  finally show ?case by simp
qed

lemma base64url_scan_ok: "\<forall>c \<in> set s. is_base64url_char c \<Longrightarrow> base64url_scan s = Inr ()"
  by (induction s) simp_all

lemma base64url_scan_error: "base64url_scan s = Inl e \<Longrightarrow> code_of e = Some invalid_encoding"
  by (induction s) (auto split: if_splits)

lemma base64url_encode_shape:
  assumes "base64url_encode input = Inr s"
  shows "\<exists>body. s = map to_url_char body \<and> set body \<subseteq> set kAlphabet \<and>
    base64_encode input = Inr (body @ replicate (base64_pad (length input)) (CHR ''='')) \<and>
    length body + base64_pad (length input) = 4 * ((length input + 2) div 3) \<and>
    (length input + 2) div 3 \<le> string_max_size div 4"
proof -
  from assms have enc: "base64_encode input = Inr (base64_encode_loop input)"
    and size: "(length input + 2) div 3 \<le> string_max_size div 4"
    and s: "s = strip_padding (map to_url_char (base64_encode_loop input))"
    by (auto simp: base64url_encode_def rbind_Inr_iff base64_encode_Inr_iff)
  obtain body where body:
    "base64_encode_loop input = body @ replicate (base64_pad (length input)) (CHR ''='')"
    "set body \<subseteq> set kAlphabet"
    "length body + base64_pad (length input) = 4 * ((length input + 2) div 3)"
    using base64_encode_shape by blast
  have "to_url_char (CHR ''='') = CHR ''=''" by (simp add: to_url_char_def)
  moreover have "\<forall>c \<in> set (map to_url_char body). c \<noteq> CHR ''=''"
    using body(2) alphabet_char(5) by auto
  ultimately have "s = map to_url_char body"
    using s body(1) by (simp add: strip_padding_append)
  with enc body size show ?thesis by auto
qed

lemma base64url_decode_encode:
  assumes "base64url_encode input = Inr s"
  shows "base64url_decode s = Inr input"
proof -
  obtain body where s: "s = map to_url_char body" and alph: "set body \<subseteq> set kAlphabet"
    and enc: "base64_encode input = Inr (body @ replicate (base64_pad (length input)) (CHR ''=''))"
    and len: "length body + base64_pad (length input) = 4 * ((length input + 2) div 3)"
    and size: "(length input + 2) div 3 \<le> string_max_size div 4"
    using base64url_encode_shape [OF assms] by blast
  note pad = base64_pad_le [of "length input"]
  have "n mod 4 \<noteq> 1" if "n + p = 4 * k" and "p \<le> 2" for n p k :: nat
    using that by presburger
  from this [OF len pad] have "length body mod 4 \<noteq> 1" .
  moreover have "\<forall>c \<in> set s. is_base64url_char c"
    using s alph alphabet_char(3) by auto
  ultimately have rej: "reject_invalid_base64url s = Inr ()"
    using s by (simp add: reject_invalid_base64url_def base64url_scan_ok)
  have small: "length s \<le> string_max_size - 3"
    using len size s by (simp add: string_max_size_def)
  have "map from_url_char s = body"
    unfolding s map_map by (rule map_idI) (use alph alphabet_char(4) in auto)
  then have "pad_to_four (map from_url_char s) =
      body @ replicate (base64_pad (length input)) (CHR ''='')"
    using pad len pad_to_four_eq [of "base64_pad (length input)" body] by simp
  then have "base64_decode (pad_to_four (map from_url_char s)) = Inr input"
    using base64_decode_encode [OF enc] by simp
  with rej small assms show ?thesis by (simp add: base64url_decode_def)
qed

lemma base64url_encode_decode: "base64url_decode s = Inr x \<Longrightarrow> base64url_encode x = Inr s"
  by (auto simp: base64url_decode_def rbind_Inr_iff split: if_splits)

interpretation base64urlc: canonical_codec "\<lambda>_. True" base64url_encode base64url_decode
  by unfold_locales (blast intro: base64url_decode_encode base64url_encode_decode TrueI)+

text \<open>
  C37: Base64 and Base64URL decoding are the exact inverses of encoding. A text decodes to bytes exactly when it is the
  encoding of these bytes, so each decoder accepts one spelling only: no stray padding (none at all in Base64URL), no
  character of the other alphabet, no non-zero discarded bits.
\<close>

theorem base64_decoders_exact:
  "(base64_decode s = Inr bs \<longleftrightarrow> base64_encode bs = Inr s) \<and>
   (base64url_decode s = Inr bs \<longleftrightarrow> base64url_encode bs = Inr s)"
  using base64c.decode_iff base64urlc.decode_iff by simp

lemma unpadded_length:
  assumes "n + base64_pad m = 4 * ((m + 2) div 3)"
  shows "n = (4 * m + 2) div 3"
proof -
  obtain q r where m: "m = 3 * q + r" and "r < 3"
    by (metis mod_less_divisor mult_div_mod_eq zero_less_numeral)
  then have "r = 0 \<or> r = 1 \<or> r = 2" by linarith
  then show ?thesis
  proof (elim disjE)
    assume "r = 0"
    then have "base64_pad m = 0" "(m + 2) div 3 = q" "(4 * m + 2) div 3 = 4 * q"
      using m by (simp_all add: base64_pad_def)
    with assms show ?thesis by simp
  next
    assume "r = 1"
    then have "base64_pad m = 2" "(m + 2) div 3 = q + 1" "(4 * m + 2) div 3 = 4 * q + 2"
      using m by (simp_all add: base64_pad_def)
    with assms show ?thesis by simp
  next
    assume "r = 2"
    moreover have "Suc (Suc (3 * q)) mod 3 = 2" by presburger
    ultimately have "base64_pad m = 1" "(m + 2) div 3 = q + 1" "(4 * m + 2) div 3 = 4 * q + 3"
      using m by (simp_all add: base64_pad_def)
    with assms show ?thesis by simp
  qed
qed

text \<open>what Base64URL encoding writes. Below the size limit it succeeds, and the text has only
  characters of the URL-safe alphabet, no padding, and \<open>ceil (8 n / 6)\<close> characters for \<open>n\<close> bytes.\<close>

theorem base64url_encode_text:
  assumes "(length input + 2) div 3 \<le> string_max_size div 4"
  shows "\<exists>s. base64url_encode input = Inr s \<and> (\<forall>c \<in> set s. is_base64url_char c) \<and>
           length s = (4 * length input + 2) div 3"
proof -
  have "base64_encode input = Inr (base64_encode_loop input)"
    using assms by (simp add: base64_encode_Inr_iff)
  then obtain s where enc: "base64url_encode input = Inr s" by (simp add: base64url_encode_def)
  from base64url_encode_shape [OF enc] obtain body where
    s: "s = map to_url_char body" and alph: "set body \<subseteq> set kAlphabet"
    and len: "length body + base64_pad (length input) = 4 * ((length input + 2) div 3)" by blast
  have "\<forall>c \<in> set s. is_base64url_char c" using s alph alphabet_char(3) by auto
  moreover have "n + base64_pad m = 4 * ((m + 2) div 3) \<Longrightarrow> n = (4 * m + 2) div 3" for n m
    by (rule unpadded_length)
  ultimately show ?thesis using enc s len by auto
qed

theorem base64url_encode_text_witness:
  "\<exists>s. base64url_encode [251, 255] = Inr s \<and> (\<forall>c \<in> set s. is_base64url_char c) \<and> length s = 3"
  using base64url_encode_text [of "[251, 255]"] by (simp add: string_max_size_def)

end
