(* ===== verification/Random_Hash.thy ===== *)
theory Random_Hash
  imports Backend_Correct Base64
begin

section \<open>Random values, digests and derived keys\<close>

text \<open>
  \<open>src/random.cpp\<close> and \<open>src/hash.cpp\<close>: the public functions, which hand their arguments to the backend
  and, for \<open>random_token\<close>, the bytes to the Base64URL encoder. The backend functions of the same
  names are in \<open>Backend\<close>; the public ones carry the prefix \<open>api_\<close>.
\<close>

definition api_random_bytes :: "('o, 'c) openssl \<Rightarrow> nat \<Rightarrow> ('o runtime, exn, bytes) action" where
  "api_random_bytes ssl sz = random_bytes ssl sz"

definition api_generate_key :: "('o, 'c) openssl \<Rightarrow> ('o runtime, exn, bytes) action" where
  "api_generate_key ssl = generate_key ssl"

definition random_token :: "('o, 'c) openssl \<Rightarrow> nat \<Rightarrow> ('o runtime, exn, string) action" where
  "random_token ssl byte_size =
     (if byte_size = 0
      then mthrow (Error invalid_input ''random token byte size must be greater than zero'')
      else mbind (api_random_bytes ssl byte_size) (\<lambda>bs. mlift (base64url_encode bs)))"

definition api_sha256 :: "('o, 'c) openssl \<Rightarrow> bytes \<Rightarrow> ('o runtime, exn, bytes) action" where
  "api_sha256 ssl input = sha256 ssl input"

definition api_hkdf_sha256 ::
  "('o, 'c) openssl \<Rightarrow> bytes \<Rightarrow> bytes \<Rightarrow> bytes \<Rightarrow> nat \<Rightarrow> ('o runtime, exn, bytes) action" where
  "api_hkdf_sha256 ssl key_material salt info output_size = hkdf_sha256 ssl key_material salt info output_size"

definition api_hmac_sha256 :: "('o, 'c) openssl \<Rightarrow> bytes \<Rightarrow> bytes \<Rightarrow> ('o runtime, exn, bytes) action" where
  "api_hmac_sha256 ssl key input = hmac_sha256 ssl key input"

subsection \<open>Properties\<close>

text \<open>
  Random values have the size asked for. Whatever OpenSSL returns, and however many calls the size
  takes, \<open>random_bytes\<close> and \<open>generate_key\<close> either return exactly the bytes asked for or report a backend
  failure.
\<close>

theorem random_sizes:
  "case api_random_bytes ssl n s of (r, s') \<Rightarrow> case api_generate_key ssl s of (k, s'') \<Rightarrow>
     (case r of Inl e \<Rightarrow> code_of e = Some backend_failure | Inr out \<Rightarrow> length out = n) \<and>
     (case k of Inl e \<Rightarrow> code_of e = Some backend_failure | Inr key \<Rightarrow> length key = 32)"
proof -
  have "case api_random_bytes ssl n s of (r, s') \<Rightarrow>
      (case r of Inl e \<Rightarrow> code_of e = Some backend_failure | Inr out \<Rightarrow> length out = n)"
    using fill_random_result [where ssl = ssl and secret = False and n = n and s = s]
    by (auto simp: api_random_bytes_def random_bytes_def mreturn_def split: prod.splits sum.splits)
  moreover have "case api_generate_key ssl s of (k, s'') \<Rightarrow>
      (case k of Inl e \<Rightarrow> code_of e = Some backend_failure | Inr key \<Rightarrow> length key = 32)"
    using fill_random_result [where ssl = ssl and secret = True and n = 32 and s = s]
    by (auto simp: api_generate_key_def generate_key_def split: prod.splits)
  ultimately show ?thesis by (simp add: case_prod_beta)
qed

text \<open>
  A random token is the Base64URL text of the random bytes: its characters are in the URL-safe
  alphabet, and it decodes to exactly \<open>n\<close> bytes. A token of size zero is refused.
\<close>

theorem random_token_decodes:
  "case random_token ssl n s of
     (Inr token, s') \<Rightarrow> n > 0 \<and> (\<exists>bs. length bs = n \<and> api_random_bytes ssl n s = (Inr bs, s') \<and>
        base64url_decode token = Inr bs)
   | (Inl e, s') \<Rightarrow> code_of e \<in> {Some backend_failure, Some invalid_input}"
proof (cases "n = 0")
  case True
  then show ?thesis by (simp add: random_token_def mthrow_def)
next
  case False
  obtain r t where r: "random_bytes ssl n s = (r, t)" by fastforce
  show ?thesis
  proof (cases r)
    case (Inl e)
    with False r fill_random_result [where ssl = ssl and secret = False and n = n and s = s]
    show ?thesis
      by (simp add: random_token_def api_random_bytes_def random_bytes_def mbind_def)
  next
    case (Inr bs)
    then have len: "length bs = n" using r random_bytes_length by blast
    show ?thesis
    proof (cases "base64url_encode bs")
      case (Inl e)
      then have "code_of e = Some invalid_input"
        by (auto simp: base64url_encode_def base64_encode_def Let_def rbind_Inl_iff split: if_splits)
      with False r Inr \<open>base64url_encode bs = Inl e\<close> show ?thesis
        by (simp add: random_token_def api_random_bytes_def mbind_def mlift_def)
    next
      case (Inr token)
      have "base64url_decode token = Inr bs"
        using base64urlc.decode_encode [OF TrueI Inr] .
      with False r \<open>r = Inr bs\<close> Inr len show ?thesis
        by (simp add: random_token_def api_random_bytes_def mbind_def mlift_def)
    qed
  qed
qed

text \<open>
  Digests and derived keys. Whatever OpenSSL returns, SHA-256 and HMAC-SHA-256 yield exactly 32
  bytes and HKDF the number of bytes asked for, a failure of any is a backend failure, and nothing is
  released unwiped.
\<close>

theorem digest_sizes:
  "case api_sha256 ssl input s of (d, s1) \<Rightarrow> case api_hmac_sha256 ssl key input s of (m, s2) \<Rightarrow>
   case api_hkdf_sha256 ssl km salt info n s of (k, s3) \<Rightarrow>
     (case d of Inl e \<Rightarrow> code_of e = Some backend_failure | Inr out \<Rightarrow> length out = 32) \<and>
     (case m of Inl e \<Rightarrow> code_of e = Some backend_failure | Inr out \<Rightarrow> length out = 32) \<and>
     (case k of Inl e \<Rightarrow> code_of e = Some backend_failure | Inr out \<Rightarrow> length out = n) \<and>
     retired s1 = retired s \<and> retired s2 = retired s \<and> retired s3 = retired s"
proof -
  obtain d s1 where d: "sha256 ssl input s = (d, s1)" by fastforce
  obtain m s2 where m: "hmac_sha256 ssl key input s = (m, s2)" by fastforce
  obtain k s3 where k: "hkdf_sha256 ssl km salt info n s = (k, s3)" by fastforce
  have codes: "code_of sha256_failure = Some backend_failure" "code_of hmac_failure = Some backend_failure"
    "code_of hkdf_failure = Some backend_failure"
    by (simp_all add: sha256_failure_def hmac_failure_def hkdf_failure_def)
  show ?thesis
    using key_derivation_results(1) [OF d] key_derivation_results(3) [OF m] key_derivation_results(2) [OF k]
    by (auto simp: api_sha256_def api_hmac_sha256_def api_hkdf_sha256_def d m k codes split: sum.splits)
qed

end
