(* ===== verification/File_System.thy ===== *)
theory File_System
  imports Stream_Correct Random_Hash
begin

section \<open>Files\<close>

text \<open>
  \<open>src/file_io.cpp\<close>: the class \<open>OutputFile\<close>, temporary outputs and their commit. The
  file system is a state with directory entries and file contents, and knows for which platform the program was compiled. Any system call may fail: \<open>faults n\<close> says
  whether the \<open>n\<close>-th call does, and after how many bytes. Other processes may create files at any moment:
  \<open>others n\<close> is what they create right before the \<open>n\<close>-th call. They do not change or remove files; symbolic
  links and directories as operands are not modelled.
\<close>

unbundle bit_operations_syntax

type_synonym path = string

text \<open>The three cases of the preprocessor: \<open>__unix__\<close> or \<open>__APPLE__\<close>, \<open>_WIN32\<close>, and neither.\<close>

datatype platform_kind = Unix | Windows | Elsewhere

record file_system =
  platform :: platform_kind
  names :: "path \<Rightarrow> nat option"
  contents :: "nat \<Rightarrow> bytes"
  fresh :: nat
  calls :: nat
  faults :: "nat \<Rightarrow> nat option"
  others :: "nat \<Rightarrow> (path \<times> bytes) option"
  synced_dirs :: "path list"

definition create_file :: "path \<Rightarrow> bytes \<Rightarrow> file_system \<Rightarrow> file_system" where
  "create_file p data s = s\<lparr>names := (names s)(p := Some (fresh s)), contents := (contents s)(fresh s := data),
     fresh := Suc (fresh s)\<rparr>"

text \<open>What happens at every system call: others may act first, then the call fails or not.\<close>

definition system_call :: "file_system \<Rightarrow> nat option \<times> file_system" where
  "system_call s =
     (let s1 = (case others s (calls s) of
                  None \<Rightarrow> s
                | Some (p, data) \<Rightarrow> if names s p = None then create_file p data s else s)
      in (faults s (calls s), s1\<lparr>calls := Suc (calls s)\<rparr>))"

definition append_to :: "nat \<Rightarrow> bytes \<Rightarrow> file_system \<Rightarrow> file_system" where
  "append_to i data s = s\<lparr>contents := (contents s)(i := contents s i @ data)\<rparr>"

subsection \<open>System calls and the C library\<close>

text \<open>\<open>std::filesystem::exists(path, ec)\<close>: \<open>None\<close> when it sets \<open>ec\<close>.\<close>

definition fs_exists :: "path \<Rightarrow> file_system \<Rightarrow> bool option \<times> file_system" where
  "fs_exists p s = (case system_call s of (fault, s1) \<Rightarrow>
     (if fault \<noteq> None then None else Some (names s1 p \<noteq> None), s1))"

text \<open>\<open>std::filesystem::remove(path, ec)\<close>, its result ignored.\<close>

definition fs_remove :: "path \<Rightarrow> file_system \<Rightarrow> file_system" where
  "fs_remove p s = (case system_call s of (fault, s1) \<Rightarrow>
     if fault \<noteq> None then s1 else s1\<lparr>names := (names s1)(p := None)\<rparr>)"

text \<open>The results of a call that needs a name that does not exist: \<open>EEXIST\<close> is told from other errors.\<close>

datatype 'a exclusive = Done 'a | Name_exists | Call_failed

text \<open>\<open>open(path, O_WRONLY | O_CREAT | O_EXCL, 0600)\<close> and \<open>link(from, to)\<close>.\<close>

definition sys_open_exclusive :: "path \<Rightarrow> file_system \<Rightarrow> nat exclusive \<times> file_system" where
  "sys_open_exclusive p s = (case system_call s of (fault, s1) \<Rightarrow>
     if fault \<noteq> None then (Call_failed, s1)
     else if names s1 p \<noteq> None then (Name_exists, s1)
     else (Done (fresh s1), create_file p [] s1))"

definition sys_link :: "path \<Rightarrow> path \<Rightarrow> file_system \<Rightarrow> unit exclusive \<times> file_system" where
  "sys_link from_path to_path s = (case system_call s of (fault, s1) \<Rightarrow>
     if fault \<noteq> None then (Call_failed, s1)
     else case names s1 from_path of
       None \<Rightarrow> (Call_failed, s1)
     | Some i \<Rightarrow>
         if names s1 to_path \<noteq> None then (Name_exists, s1)
         else (Done (), s1\<lparr>names := (names s1)(to_path := Some i)\<rparr>))"

text \<open>
  \<open>MoveFileExW(from, to, MOVEFILE_WRITE_THROUGH)\<close> does not replace an existing file; \<open>std::filesystem::rename\<close> does.
\<close>

definition sys_move :: "path \<Rightarrow> path \<Rightarrow> file_system \<Rightarrow> unit exclusive \<times> file_system" where
  "sys_move from_path to_path s = (case system_call s of (fault, s1) \<Rightarrow>
     if fault \<noteq> None then (Call_failed, s1)
     else case names s1 from_path of
       None \<Rightarrow> (Call_failed, s1)
     | Some i \<Rightarrow>
         if names s1 to_path \<noteq> None then (Name_exists, s1)
         else (Done (), s1\<lparr>names := (names s1)(to_path := Some i, from_path := None)\<rparr>))"

definition fs_rename :: "path \<Rightarrow> path \<Rightarrow> file_system \<Rightarrow> bool \<times> file_system" where
  "fs_rename from_path to_path s = (case system_call s of (fault, s1) \<Rightarrow>
     if fault \<noteq> None then (False, s1)
     else case names s1 from_path of
       None \<Rightarrow> (False, s1)
     | Some i \<Rightarrow> (True, s1\<lparr>names := (names s1)(from_path := None, to_path := Some i)\<rparr>))"

text \<open>Calls on a descriptor that change nothing here: \<open>fdopen\<close>, \<open>fsync\<close>, \<open>close\<close>, opening a directory.\<close>

definition sys_succeeds :: "file_system \<Rightarrow> bool \<times> file_system" where
  "sys_succeeds s = (case system_call s of (fault, s1) \<Rightarrow> (fault = None, s1))"

text \<open>A \<open>std::FILE\<close> open for writing, with what it has buffered.\<close>

record FILE =
  inode :: nat
  buffered :: bytes

definition fwrite :: "bytes \<Rightarrow> FILE \<Rightarrow> file_system \<Rightarrow> nat \<times> FILE \<times> file_system" where
  "fwrite data f s = (case system_call s of (fault, s1) \<Rightarrow>
     let n = (case fault of None \<Rightarrow> length data | Some k \<Rightarrow> min k (length data - 1))
     in (n, f\<lparr>buffered := buffered f @ take n data\<rparr>, s1))"

definition fflush :: "FILE \<Rightarrow> file_system \<Rightarrow> bool \<times> FILE \<times> file_system" where
  "fflush f s = (case system_call s of (fault, s1) \<Rightarrow>
     let n = (case fault of None \<Rightarrow> length (buffered f) | Some k \<Rightarrow> k)
     in (fault = None, f\<lparr>buffered := drop n (buffered f)\<rparr>, append_to (inode f) (take n (buffered f)) s1))"

text \<open>\<open>fclose\<close> flushes; the file is closed even when that fails.\<close>

definition fclose :: "FILE \<Rightarrow> file_system \<Rightarrow> bool \<times> file_system" where
  "fclose f s = (case fflush f s of (done, _, s1) \<Rightarrow> (done, s1))"

subsection \<open>The class OutputFile\<close>

record OutputFile =
  out_path :: path
  out_file :: "FILE option"

type_synonym output_state = "OutputFile \<times> file_system"

definition default_OutputFile :: OutputFile where
  "default_OutputFile = \<lparr>out_path = '''', out_file = None\<rparr>"

definition new_OutputFile :: "path \<Rightarrow> FILE \<Rightarrow> OutputFile" where
  "new_OutputFile p f = \<lparr>out_path = p, out_file = Some f\<rparr>"

definition close_quietly :: "output_state \<Rightarrow> output_state" where
  "close_quietly st = (case st of (out, s) \<Rightarrow>
     case out_file out of
       None \<Rightarrow> (out, s)
     | Some f \<Rightarrow> (out\<lparr>out_file := None\<rparr>, snd (fclose f s)))"

definition discard :: "output_state \<Rightarrow> output_state" where
  "discard st = close_quietly st"

definition destroy_OutputFile :: "output_state \<Rightarrow> file_system" where
  "destroy_OutputFile st = snd (close_quietly st)"

text \<open>Moves: the new object and what is left of the old one. The moved-from path is left empty.\<close>

definition move_OutputFile :: "OutputFile \<Rightarrow> OutputFile \<times> OutputFile" where
  "move_OutputFile other = (\<lparr>out_path = out_path other, out_file = out_file other\<rparr>, \<lparr>out_path = '''', out_file = None\<rparr>)"

definition assign_OutputFile :: "OutputFile \<Rightarrow> output_state \<Rightarrow> OutputFile \<times> output_state" where
  "assign_OutputFile other st =
     (case close_quietly st of (this, s) \<Rightarrow>
        (other\<lparr>out_path := '''', out_file := None\<rparr>, (this\<lparr>out_path := out_path other, out_file := out_file other\<rparr>, s)))"

definition file_write_failed :: exn where
  "file_write_failed = Error backend_failure ''File write failed''"

text \<open>A write to an object without a file would pass a null pointer to \<open>fwrite\<close>.\<close>

definition OutputFile_write :: "bytes \<Rightarrow> (output_state, exn, unit) action" where
  "OutputFile_write data st = (case st of (out, s) \<Rightarrow>
     if data = [] then (Inr (), st)
     else case out_file out of
       None \<Rightarrow> (Inl (Undefined_behaviour ''null FILE''), st)
     | Some f \<Rightarrow> (case fwrite data f s of (n, f', s') \<Rightarrow>
         (if n \<noteq> length data then Inl file_write_failed else Inr (), (out\<lparr>out_file := Some f'\<rparr>, s'))))"

definition OutputFile_close :: "(output_state, exn, unit) action" where
  "OutputFile_close st = (case st of (out, s) \<Rightarrow>
     case out_file out of
       None \<Rightarrow> (Inr (), st)
     | Some f \<Rightarrow> (case fclose f s of (done, s') \<Rightarrow>
         (if \<not> done then Inl file_write_failed else Inr (), (out\<lparr>out_file := None\<rparr>, s'))))"

text \<open>The part of \<open>flush\<close> for each platform: \<open>FlushFileBuffers\<close>, \<open>fsync\<close>, or nothing.\<close>

definition sync_file :: "file_system \<Rightarrow> bool \<times> file_system" where
  "sync_file s = (if platform s = Elsewhere then (True, s) else sys_succeeds s)"

definition OutputFile_flush :: "(output_state, exn, unit) action" where
  "OutputFile_flush st = (case st of (out, s) \<Rightarrow>
     case out_file out of
       None \<Rightarrow> (Inr (), st)
     | Some f \<Rightarrow> (case fflush f s of (done, f', s1) \<Rightarrow>
         if \<not> done then (Inl file_write_failed, (out\<lparr>out_file := Some f'\<rparr>, s1))
         else case sync_file s1 of (synced, s2) \<Rightarrow>
           (if \<not> synced then Inl file_write_failed else Inr (), (out\<lparr>out_file := Some f'\<rparr>, s2))))"

subsection \<open>Inputs and outputs\<close>

text \<open>
  \<open>std::ifstream(path, std::ios::binary)\<close>: nothing when it fails to open. The stream delivers what the file holds
  when it is opened; a fault while reading is drawn at once and breaks it at that position.
\<close>

definition open_ifstream :: "path \<Rightarrow> file_system \<Rightarrow> istream option \<times> file_system" where
  "open_ifstream p s = (case system_call s of (fault, s1) \<Rightarrow>
     case (fault, names s1 p) of
       (None, Some i) \<Rightarrow>
         (case system_call s1 of
            (None, s2) \<Rightarrow> (Some (fresh_istream (contents s1 i)), s2)
          | (Some k, s2) \<Rightarrow> (Some ((fresh_istream (take k (contents s1 i)))\<lparr>broken := True\<rparr>), s2))
     | _ \<Rightarrow> (None, s1))"

definition open_input :: "path \<Rightarrow> (file_system, exn, istream) action" where
  "open_input p s = (case open_ifstream p s of
     (None, s1) \<Rightarrow> (Inl (Error backend_failure ''File open failed''), s1)
   | (Some i, s1) \<Rightarrow> (Inr i, s1))"

definition output_exists :: exn where
  "output_exists = Error invalid_input ''Output file already exists''"

definition ensure_output_does_not_exist :: "path \<Rightarrow> (file_system, exn, unit) action" where
  "ensure_output_does_not_exist output s =
     (case fs_exists output s of
        (None, s1) \<Rightarrow> (Inl (Error backend_failure ''File status check failed''), s1)
      | (Some True, s1) \<Rightarrow> (Inl output_exists, s1)
      | (Some False, s1) \<Rightarrow> (Inr (), s1))"

datatype ExclusiveOpenResult = opened | already_exists | failed

text \<open>
  \<open>_wsopen_s\<close> with \<open>_O_EXCL\<close> is the same call on Windows. The temporary \<open>OutputFile\<close> of the last branch is moved into
  \<open>output\<close> and destroyed empty. When \<open>fdopen\<close> fails the file that was just created stays.
\<close>

definition try_open_output_exclusive :: "path \<Rightarrow> output_state \<Rightarrow> ExclusiveOpenResult \<times> output_state" where
  "try_open_output_exclusive p st = (case st of (output, s) \<Rightarrow>
     case sys_open_exclusive p s of
       (Name_exists, s1) \<Rightarrow> (already_exists, (output, s1))
     | (Call_failed, s1) \<Rightarrow> (failed, (output, s1))
     | (Done i, s1) \<Rightarrow> (case sys_succeeds s1 of (stream, s2) \<Rightarrow>
         if \<not> stream then (failed, (output, snd (sys_succeeds s2)))
         else case assign_OutputFile (new_OutputFile p \<lparr>inode = i, buffered = []\<rparr>) (output, s2) of
           (temporary, output', s3) \<Rightarrow> (opened, (output', destroy_OutputFile (temporary, s3)))))"

definition hex_digits :: string where
  "hex_digits = ''0123456789abcdef''"

definition temp_suffix :: "bytes \<Rightarrow> string" where
  "temp_suffix token =
     ''.anosecurekit.''
     @ concat (map (\<lambda>value. [hex_digits ! unat (drop_bit 4 value AND 0x0f), hex_digits ! unat (value AND 0x0f)]) token)
     @ ''.tmp''"

definition make_unique_temp_path :: "('o, 'c) openssl \<Rightarrow> path \<Rightarrow> ('o runtime, exn, path) action" where
  "make_unique_temp_path ssl output =
     mbind (api_random_bytes ssl 16) (\<lambda>token. mreturn (output @ temp_suffix token))"

definition remove_quietly :: "path \<Rightarrow> file_system \<Rightarrow> file_system" where
  "remove_quietly p s = fs_remove p s"

text \<open>
  \<open>path.parent_path()\<close>: what comes before the last component, without the separators at its end; of a path
  that is only separators, the path itself.
\<close>

definition parent_path :: "path \<Rightarrow> path" where
  "parent_path p =
     (let dir = rev (dropWhile (\<lambda>c. c \<noteq> CHR ''/'') (rev p));
          stripped = rev (dropWhile (\<lambda>c. c = CHR ''/'') (rev dir))
      in if stripped \<noteq> [] \<or> dir = [] then stripped else ''/'')"

definition flush_parent_directory :: "path \<Rightarrow> (file_system, exn, unit) action" where
  "flush_parent_directory p s =
     (if platform s \<noteq> Unix then (Inr (), s) else
      let parent = (if parent_path p = [] then ''.'' else parent_path p)
      in case sys_succeeds s of (opened_dir, s1) \<Rightarrow>
         if \<not> opened_dir then (Inl (Error backend_failure ''Directory open failed''), s1)
         else case sys_succeeds s1 of (synced, s2) \<Rightarrow>
           if \<not> synced then (Inl (Error backend_failure ''Directory sync failed''), snd (sys_succeeds s2))
           else case sys_succeeds (s2\<lparr>synced_dirs := parent # synced_dirs s2\<rparr>) of (closed, s3) \<Rightarrow>
             if \<not> closed then (Inl (Error backend_failure ''Directory sync failed''), s3) else (Inr (), s3))"

definition rename_failed :: exn where
  "rename_failed = Error backend_failure ''File rename failed''"

definition commit_temp_file :: "path \<Rightarrow> path \<Rightarrow> (file_system, exn, unit) action" where
  "commit_temp_file temp_path output s =
     (case platform s of
        Windows \<Rightarrow>
          (case sys_move temp_path output s of
             (Done _, s1) \<Rightarrow> (Inr (), s1)
           | (Name_exists, s1) \<Rightarrow> (Inl output_exists, s1)
           | (Call_failed, s1) \<Rightarrow> (Inl rename_failed, s1))
      | Unix \<Rightarrow>
          (case sys_link temp_path output s of
             (Done _, s1) \<Rightarrow> flush_parent_directory output (remove_quietly temp_path s1)
           | (Name_exists, s1) \<Rightarrow> (Inl output_exists, s1)
           | (Call_failed, s1) \<Rightarrow> (Inl rename_failed, s1))
      | Elsewhere \<Rightarrow>
          (case fs_exists output s of
             (None, s1) \<Rightarrow> (Inl (Error backend_failure ''File status check failed''), s1)
           | (Some True, s1) \<Rightarrow> (Inl output_exists, s1)
           | (Some False, s1) \<Rightarrow>
               (case fs_rename temp_path output s1 of (done, s2) \<Rightarrow>
                  (if done then Inr () else Inl rename_failed, s2))))"

subsection \<open>What the calls leave alone\<close>

text \<open>
  A file system that the properties of the path operations are about: names belong to files, and the platform can commit
  an output without replacing a file, which the check before the rename of the last platform cannot, as
  \<open>File_Properties\<close> shows.
\<close>

definition fs_ok :: "file_system \<Rightarrow> bool" where
  "fs_ok s \<longleftrightarrow> platform s \<noteq> Elsewhere \<and> (\<forall>p i. names s p = Some i \<longrightarrow> i < fresh s)"

definition quiet :: "file_system \<Rightarrow> bool" where
  "quiet s \<longleftrightarrow> (\<forall>n. others s n = None)"

definition no_faults :: "file_system \<Rightarrow> bool" where
  "no_faults s \<longleftrightarrow> (\<forall>n. faults s n = None)"

text \<open>Every file there was is still there, under the same names and with the same contents.\<close>

definition keeps_files :: "file_system \<Rightarrow> file_system \<Rightarrow> bool" where
  "keeps_files s t \<longleftrightarrow> (\<forall>p j. names s p = Some j \<longrightarrow> names t p = Some j) \<and>
     (\<forall>j < fresh s. contents t j = contents s j) \<and> fresh s \<le> fresh t \<and>
     faults t = faults s \<and> others t = others s \<and> (fs_ok s \<longrightarrow> fs_ok t)"

text \<open>The contents of the inodes \<open>D\<close> may change, and no name does but by others.\<close>

definition evolves :: "nat set \<Rightarrow> file_system \<Rightarrow> file_system \<Rightarrow> bool" where
  "evolves D s t \<longleftrightarrow> (\<forall>p j. names s p = Some j \<longrightarrow> names t p = Some j) \<and>
     (\<forall>j < fresh s. j \<notin> D \<longrightarrow> contents t j = contents s j) \<and> fresh s \<le> fresh t \<and>
     faults t = faults s \<and> others t = others s \<and> (fs_ok s \<longrightarrow> fs_ok t) \<and> (quiet s \<longrightarrow> names t = names s)"

lemma evolves_refl [simp, intro]: "evolves D s s"
  by (simp add: evolves_def)

lemma quiet_others: "others t = others s \<Longrightarrow> quiet t = quiet s"
  by (simp add: quiet_def)

lemma evolves_trans: "evolves D s t \<Longrightarrow> evolves D t u \<Longrightarrow> evolves D s u"
  unfolding evolves_def by (auto simp: quiet_def)

lemma evolves_mono: "evolves D s t \<Longrightarrow> D \<subseteq> E \<Longrightarrow> evolves E s t"
  unfolding evolves_def by blast

lemma keeps_files_refl [simp, intro]: "keeps_files s s"
  by (simp add: keeps_files_def)

lemma keeps_files_trans: "keeps_files s t \<Longrightarrow> keeps_files t u \<Longrightarrow> keeps_files s u"
  unfolding keeps_files_def by auto

lemma keeps_files_evolves:
  "keeps_files s t \<Longrightarrow> evolves D t u \<Longrightarrow> (\<forall>i \<in> D. fresh s \<le> i) \<Longrightarrow> keeps_files s u"
  unfolding keeps_files_def evolves_def by (metis leD le_less_trans le_trans less_le_trans)

lemma evolves_keeps_files: "evolves {} s t \<Longrightarrow> keeps_files s t"
  unfolding keeps_files_def evolves_def by blast

lemma system_call_evolves: "system_call s = (f, t) \<Longrightarrow> evolves {} s t \<and> f = faults s (calls s)"
  by (auto simp: system_call_def Let_def evolves_def create_file_def fs_ok_def quiet_def less_Suc_eq
      split: option.splits prod.splits if_splits)

lemma sys_succeeds_evolves: "sys_succeeds s = (b, t) \<Longrightarrow> evolves {} s t \<and> (no_faults s \<longrightarrow> b)"
  by (auto simp: sys_succeeds_def no_faults_def split: prod.splits dest!: system_call_evolves)

lemma sync_file_evolves: "sync_file s = (b, t) \<Longrightarrow> evolves {} s t \<and> (no_faults s \<longrightarrow> b)"
  by (auto simp: sync_file_def dest: sys_succeeds_evolves split: if_splits)

lemma append_to_evolves: "evolves {i} s (append_to i data s)"
  by (auto simp: append_to_def evolves_def fs_ok_def)

lemma evolves_from_empty: "evolves {} s t \<Longrightarrow> evolves D s t"
  by (erule evolves_mono) simp

lemma fflush_spec:
  assumes "fflush f s = (done, f', t)" and "inode f < fresh s"
  shows "evolves {inode f} s t \<and> inode f' = inode f \<and> (no_faults s \<longrightarrow> done) \<and>
    contents t (inode f) @ buffered f' = contents s (inode f) @ buffered f \<and> (done \<longrightarrow> buffered f' = [])"
proof -
  obtain fault s1 where c: "system_call s = (fault, s1)" by fastforce
  note e = system_call_evolves [OF c]
  define n where "n = (case fault of None \<Rightarrow> length (buffered f) | Some k \<Rightarrow> k)"
  have r: "done = (fault = None)" "f' = f\<lparr>buffered := drop n (buffered f)\<rparr>"
    "t = append_to (inode f) (take n (buffered f)) s1"
    using assms(1) by (auto simp: fflush_def c n_def Let_def)
  have "evolves {inode f} s t"
    unfolding r using e append_to_evolves evolves_from_empty evolves_trans by blast
  moreover have "contents s1 (inode f) = contents s (inode f)" using e assms(2) by (simp add: evolves_def)
  then have "contents t (inode f) @ buffered f' = contents s (inode f) @ buffered f"
    by (simp add: r append_to_def)
  ultimately show ?thesis
    using r e by (auto simp: n_def no_faults_def)
qed

lemma fclose_spec:
  assumes "fclose f s = (done, t)" and "inode f < fresh s"
  shows "evolves {inode f} s t \<and> (no_faults s \<longrightarrow> done) \<and>
    (done \<longrightarrow> contents t (inode f) = contents s (inode f) @ buffered f)"
proof -
  obtain f' where "fflush f s = (done, f', t)" using assms(1) by (auto simp: fclose_def split: prod.splits)
  from fflush_spec [OF this assms(2)] show ?thesis by auto
qed

lemma fwrite_spec:
  assumes "fwrite data f s = (n, f', t)" and "inode f < fresh s" and "data \<noteq> []"
  shows "evolves {} s t \<and> inode f' = inode f \<and> buffered f' = buffered f @ take n data \<and> (no_faults s \<longrightarrow> n = length data)"
  using assms by (auto simp: fwrite_def no_faults_def Let_def split: prod.splits option.splits dest!: system_call_evolves)

subsection \<open>An open file as an output\<close>

definition file_content :: "output_state \<Rightarrow> bytes" where
  "file_content st = (case out_file (fst st) of None \<Rightarrow> [] | Some f \<Rightarrow> contents (snd st) (inode f) @ buffered f)"

definition file_open :: "output_state \<Rightarrow> bool" where
  "file_open st \<longleftrightarrow> (\<exists>f. out_file (fst st) = Some f \<and> inode f < fresh (snd st))"

definition file_reliable :: "output_state \<Rightarrow> bool" where
  "file_reliable st \<longleftrightarrow> file_open st \<and> no_faults (snd st)"

lemma OutputFile_write_open:
  assumes "OutputFile_write data (out, s) = (r, (out', t))" and "out_file out = Some f" and "inode f < fresh s"
  shows "\<exists>f' n. out' = out\<lparr>out_file := Some f'\<rparr> \<and> inode f' = inode f \<and> evolves {} s t \<and>
    buffered f' = buffered f @ take n data \<and> r = (if n < length data then Inl file_write_failed else Inr ()) \<and>
    (no_faults s \<longrightarrow> r = Inr ())"
proof (cases "data = []")
  case True
  with assms show ?thesis by (intro exI [of _ f] exI [of _ 0]) (auto simp: OutputFile_write_def)
next
  case False
  obtain n f' s' where w: "fwrite data f s = (n, f', s')" by (metis prod.exhaust)
  have "n \<le> length data" using w False by (auto simp: fwrite_def Let_def split: prod.splits option.splits)
  with False w assms(1,2) fwrite_spec [OF w assms(3) False] show ?thesis
    by (intro exI [of _ f'] exI [of _ n]) (auto simp: OutputFile_write_def)
qed

interpretation ofile: reliable_sink OutputFile_write file_content file_open file_reliable
proof
  fix st st' :: output_state and data u
  assume ok: "file_open st" and w: "OutputFile_write data st = (Inr u, st')"
  obtain out s out' t where st: "st = (out, s)" "st' = (out', t)" by (metis surj_pair)
  from ok st obtain f where f: "out_file out = Some f" "inode f < fresh s" by (auto simp: file_open_def)
  from OutputFile_write_open [OF w [unfolded st] f] obtain f' n where
    "out' = out\<lparr>out_file := Some f'\<rparr>" "inode f' = inode f" "evolves {} s t" "buffered f' = buffered f @ take n data"
    "\<not> n < length data" by (auto split: if_splits)
  with f st show "file_content st' = file_content st @ data \<and> file_open st'"
    by (auto simp: file_content_def file_open_def evolves_def)
next
  fix st st' :: output_state and data e
  assume ok: "file_open st" and w: "OutputFile_write data st = (Inl e, st')"
  obtain out s out' t where st: "st = (out, s)" "st' = (out', t)" by (metis surj_pair)
  from ok st obtain f where f: "out_file out = Some f" "inode f < fresh s" by (auto simp: file_open_def)
  from OutputFile_write_open [OF w [unfolded st] f] obtain f' n where
    "out' = out\<lparr>out_file := Some f'\<rparr>" "inode f' = inode f" "evolves {} s t" "buffered f' = buffered f @ take n data"
    "e = file_write_failed" by (auto split: if_splits)
  with f st show "code_of e = Some backend_failure \<and> file_open st' \<and>
      (\<exists>accepted rest. data = accepted @ rest \<and> file_content st' = file_content st @ accepted)"
    by (auto simp: file_content_def file_open_def evolves_def file_write_failed_def
        intro: exI [of _ "take n data"] exI [of _ "drop n data"])
next
  fix st :: output_state
  assume "file_reliable st"
  then show "file_open st" by (simp add: file_reliable_def)
next
  fix st :: output_state and data
  assume rel: "file_reliable st"
  obtain out s where st: "st = (out, s)" by (metis surj_pair)
  from rel st obtain f where f: "out_file out = Some f" "inode f < fresh s" by (auto simp: file_reliable_def file_open_def)
  obtain r out' t where w: "OutputFile_write data (out, s) = (r, (out', t))" by (metis surj_pair)
  from OutputFile_write_open [OF w f] f rel st show "\<exists>st'. OutputFile_write data st = (Inr (), st') \<and> file_reliable st'"
    using w by (intro exI [of _ "(out', t)"]) (auto simp: file_reliable_def file_open_def evolves_def no_faults_def)
qed

end
