(* ===== verification/Packet_Spec.thy ===== *)
theory Packet_Spec
  imports Packet_Stream
begin

section \<open>What a packet stream computes\<close>

text \<open>
  The abstract specification of an SKT1 packet, and the proof that the calls of an encryptor or a
  decryptor, for any split of the data into pieces, compute it.
\<close>

definition skt1_packet :: "gcm_alg \<Rightarrow> bytes \<Rightarrow> bytes \<Rightarrow> bytes \<Rightarrow> bytes \<Rightarrow> bytes" where
  "skt1_packet alg key nonce aad plaintext =
     make_packet_header @ nonce @ gcm_ciphertext alg key nonce plaintext @
     gcm_tag alg key nonce (make_packet_header @ aad) plaintext"

text \<open>The object is active and its context has processed \<open>ct\<close>.\<close>

definition streaming ::
  "('c \<Rightarrow> gcm_view) \<Rightarrow> bool \<Rightarrow> bytes \<Rightarrow> bytes \<Rightarrow> bytes \<Rightarrow> 'c packet_impl \<Rightarrow> bool" where
  "streaming view enc nonce header ct im \<longleftrightarrow> impl_phase im = active \<and>
     (\<exists>c. impl_context im = Some (Some c) \<and>
       view c = view_at enc (impl_key im) nonce (header @ impl_aad im) ct)"

lemma streamingE:
  assumes "streaming view enc nonce header ct im"
  obtains c where "impl_phase im = active" and "impl_context im = Some (Some c)"
    and "view c = view_at enc (impl_key im) nonce (header @ impl_aad im) ct"
  using assms by (auto simp: streaming_def)

lemma streamingI:
  assumes "view c = view_at enc (impl_key im) nonce (header @ impl_aad im) ct" and "impl_phase im = active"
  shows "streaming view enc nonce header ct (im\<lparr>impl_context := Some (Some c)\<rparr>)"
  using assms by (simp add: streaming_def)

lemma feed_aad_spec:
  assumes prov: "gcm_provider ssl view alg"
    and run: "feed_aad ssl header (impl_aad im) (mbind (set_phase active) (\<lambda>_. mlift out))
      (im\<lparr>impl_context := Some (Some c)\<rparr>, s) = (Inr x, (im', s'))"
    and c: "view c = view_at enc (impl_key im) nonce [] []"
  shows "out = Inr x \<and> s' = s \<and> same_secrets im im' \<and> streaming view enc nonce header [] im'"
proof -
  obtain r1 x1 t1 where 1: "context_update_aad ssl header (Some c, s) = (r1, (x1, t1))"
    by (metis prod.exhaust_sel)
  with run obtain u where "r1 = Inr u" by (cases r1) (auto simp: feed_aad_def mbind_def)
  from context_update_aad_spec [OF prov 1 [unfolded this] c] 1 \<open>r1 = Inr u\<close> obtain c1 where
    1: "context_update_aad ssl header (Some c, s) = (Inr u, (Some c1, s))" and
    c1: "view c1 = view_at enc (impl_key im) nonce header []" by auto
  obtain r2 x2 t2 where 2: "context_update_aad ssl (impl_aad im) (Some c1, s) = (r2, (x2, t2))"
    by (metis prod.exhaust_sel)
  with run 1 obtain v where "r2 = Inr v" by (cases r2) (auto simp: feed_aad_def mbind_def)
  from context_update_aad_spec [OF prov 2 [unfolded this] c1] 2 \<open>r2 = Inr v\<close> obtain c2 where
    2: "context_update_aad ssl (impl_aad im) (Some c1, s) = (Inr v, (Some c2, s))" and
    c2: "view c2 = view_at enc (impl_key im) nonce (header @ impl_aad im) []" by auto
  from run 1 2 have "im' = im\<lparr>impl_context := Some (Some c2), impl_phase := active\<rparr>" and "s' = s" and "out = Inr x"
    by (auto simp: feed_aad_def mbind_def mlift_def)
  with c2 show ?thesis by (simp add: streaming_def same_secrets_def)
qed

lemma encryptor_begin_spec:
  assumes prov: "gcm_provider ssl view alg" and key: "length (impl_key im) = 32"
    and run: "encryptor_begin ssl (Some im, s) = (Inr prefix, st')"
  obtains nonce im' s' where "length nonce = 12" and "prefix = make_packet_header @ nonce"
    and "st' = (Some im', s')" and "same_secrets im im'"
    and "streaming view True nonce make_packet_header [] im'"
proof -
  obtain im' s' where st': "st' = (Some im', s')" and out: "begin_outcome im s (Inr prefix) im' s'"
    using run by (rule encryptor_begin_outcome)
  then have ready: "impl_phase im = ready" by (simp add: begin_outcome_def)
  obtain r0 t where r0: "random_bytes ssl 12 s = (r0, t)" by fastforce
  obtain nonce where nonce: "r0 = Inr nonce"
    using run ready r0 by (cases r0) (auto simp: encryptor_begin_def with_state_Some mbind_def
        require_phase_eq in_runtime_eq)
  with r0 random_bytes_result have len: "length nonce = 12" by fastforce
  obtain r1 t1 where ctx: "Aes256GcmEncryptContext ssl (impl_key im) nonce t = (r1, t1)" by fastforce
  obtain x where "r1 = Inr x"
    using run ready r0 nonce ctx by (cases r1) (auto simp: encryptor_begin_def with_state_Some mbind_def
        require_phase_eq in_runtime_eq mget_def)
  with ctx encrypt_context_spec [OF prov key] obtain c where
    ctx: "Aes256GcmEncryptContext ssl (impl_key im) nonce t = (Inr (Some c), t1)" and
    c: "view c = view_at True (impl_key im) nonce [] []" by blast
  have "feed_aad ssl make_packet_header (impl_aad im) (mbind (set_phase active) (\<lambda>_. mlift (make_packet_prefix nonce)))
      (im\<lparr>impl_context := Some (Some c)\<rparr>, t1) = (Inr prefix, (im', s'))"
    using run ready r0 nonce ctx st' by (simp add: encryptor_begin_def with_state_Some mbind_def
        require_phase_eq in_runtime_eq mget_def feed_aad_def)
  from feed_aad_spec [OF prov this c] len st' show thesis
    by (auto intro!: that simp: make_packet_prefix_eq)
qed

lemma set_phase_unit: "mbind (set_phase p) (\<lambda>_. mreturn ()) = set_phase p"
  by (rule ext) (simp add: mbind_def mreturn_def set_phase_def mmodify_def)

lemma decryptor_begin_spec:
  assumes prov: "gcm_provider ssl view alg" and key: "length (impl_key im) = 32"
    and run: "decryptor_begin ssl prefix (Some im, s) = (Inr u, st')"
  obtains nonce im' s' where "length nonce = 12" and "prefix = make_packet_header @ nonce"
    and "st' = (Some im', s')" and "same_secrets im im'" and "retired s' = retired s"
    and "streaming view False nonce make_packet_header [] im'"
proof -
  obtain im' s' where st': "st' = (Some im', s')" and out: "begin_outcome im s (Inr u) im' s'"
    using run by (rule decryptor_begin_outcome)
  then have ready: "impl_phase im = ready" by (simp add: begin_outcome_def)
  have valid: "require_valid_prefix prefix = Inr ()"
    using run ready unit_result_cases [of "require_valid_prefix prefix"]
    by (auto simp: decryptor_begin_def with_state_Some mbind_def require_phase_eq mlift_def)
  let ?nonce = "drop (length prefix - kPacketNonceSize) prefix"
  have prefix: "length ?nonce = 12" "prefix = make_packet_header @ ?nonce"
    using valid prefix_nonce_Inr_iff [of prefix ?nonce] by (simp_all add: prefix_nonce_def)
  then have header: "take 5 prefix = make_packet_header"
    using valid by (simp add: require_valid_prefix_iff)
  obtain r1 t1 where ctx: "Aes256GcmDecryptContext ssl (impl_key im) ?nonce s = (r1, t1)" by fastforce
  obtain x where "r1 = Inr x"
    using run ready ctx valid by (cases r1) (auto simp: decryptor_begin_def with_state_Some mbind_def
        require_phase_eq in_runtime_eq mget_def mlift_def Let_def)
  with ctx decrypt_context_spec [OF prov key] obtain c where
    ctx: "Aes256GcmDecryptContext ssl (impl_key im) ?nonce s = (Inr (Some c), t1)" and
    c: "view c = view_at False (impl_key im) ?nonce [] []" by blast
  have "feed_aad ssl make_packet_header (impl_aad im) (mbind (set_phase active) (\<lambda>_. mlift (Inr u)))
      (im\<lparr>impl_context := Some (Some c)\<rparr>, t1) = (Inr u, (im', s'))"
    using run ready ctx st' valid header by (simp add: decryptor_begin_def with_state_Some mbind_def
        require_phase_eq in_runtime_eq mget_def feed_aad_def set_phase_unit mlift_Inr mreturn_def [of _ "(im, s)"] Let_def)
  from feed_aad_spec [OF prov this c] prefix st' out show thesis
    by (auto intro!: that simp: begin_outcome_def)
qed

lemma encryptor_update_spec:
  assumes prov: "gcm_provider ssl view alg" and st: "streaming view True nonce header ct im"
    and run: "encryptor_update ssl p (Some im, s) = (Inr out, st')"
  shows "out = stream_xor (keystream alg (impl_key im) nonce) (length ct) p \<and>
    (\<exists>im'. st' = (Some im', s) \<and> same_secrets im im' \<and> streaming view True nonce header (ct @ out) im')"
proof -
  from st obtain c where c: "impl_phase im = active" "impl_context im = Some (Some c)"
    "view c = view_at True (impl_key im) nonce (header @ impl_aad im) ct" by (rule streamingE)
  obtain r x t where 1: "encrypt_context_update ssl p (Some c, s) = (r, (x, t))"
    by (metis prod.exhaust_sel)
  with run c have "r = Inr out"
    by (auto simp: encryptor_update_def with_state_Some mbind_def require_phase_eq)
  from encrypt_update_spec [OF prov 1 [unfolded this] c(3)] run c 1 show ?thesis
    by (auto simp: encryptor_update_def with_state_Some mbind_def require_phase_eq streamingI)
qed

lemma encryptor_finalize_spec:
  assumes prov: "gcm_provider ssl view alg" and st: "streaming view True nonce header ct im"
    and run: "encryptor_finalize ssl (Some im, s) = (Inr tag, st')"
  shows "tag = auth_tag alg (impl_key im) nonce (header @ impl_aad im) ct \<and>
    (\<exists>im'. st' = (Some im', s) \<and> same_secrets im im')"
proof -
  from st obtain c where c: "impl_phase im = active" "impl_context im = Some (Some c)"
    "view c = view_at True (impl_key im) nonce (header @ impl_aad im) ct" by (rule streamingE)
  obtain r x t where 1: "encrypt_context_finalize ssl (Some c, s) = (r, (x, t))"
    by (metis prod.exhaust_sel)
  have "r = Inr tag"
    using run c 1 by (cases r) (auto simp: encryptor_finalize_def with_state_Some mbind_def
        require_phase_eq mmodify_def mreturn_def)
  from encrypt_finalize_spec [OF prov 1 [unfolded this] c(3)] run c 1 \<open>r = Inr tag\<close> show ?thesis
    by (auto simp: encryptor_finalize_def with_state_Some mbind_def require_phase_eq mmodify_def
        mreturn_def same_secrets_def)
qed

lemma decryptor_update_spec:
  assumes prov: "gcm_provider ssl view alg" and st: "streaming view False nonce header ct im"
    and run: "decryptor_update ssl d (Some im, s) = (Inr out, st')"
  shows "out = stream_xor (keystream alg (impl_key im) nonce) (length ct) d \<and>
    (\<exists>im'. st' = (Some im', s) \<and> same_secrets im im' \<and> streaming view False nonce header (ct @ d) im')"
proof -
  from st obtain c where c: "impl_phase im = active" "impl_context im = Some (Some c)"
    "view c = view_at False (impl_key im) nonce (header @ impl_aad im) ct" by (rule streamingE)
  obtain r x t where 1: "decrypt_context_update ssl d (Some c, s) = (r, (x, t))"
    by (metis prod.exhaust_sel)
  with run c have "r = Inr out"
    by (auto simp: decryptor_update_def with_state_Some mbind_def require_phase_eq)
  from decrypt_update_spec [OF prov 1 [unfolded this] c(3)] run c 1 show ?thesis
    by (auto simp: decryptor_update_def with_state_Some mbind_def require_phase_eq streamingI)
qed

lemma decryptor_finalize_spec:
  assumes prov: "gcm_provider ssl view alg" and st: "streaming view False nonce header ct im"
    and run: "decryptor_finalize ssl tag (Some im, s) = (Inr out, st')"
  shows "out = [] \<and> tag = auth_tag alg (impl_key im) nonce (header @ impl_aad im) ct \<and>
    length tag = 16 \<and> (\<exists>im'. st' = (Some im', s) \<and> same_secrets im im')"
proof -
  from st obtain c where c: "impl_phase im = active" "impl_context im = Some (Some c)"
    "view c = view_at False (impl_key im) nonce (header @ impl_aad im) ct" by (rule streamingE)
  have tag: "length tag = 16"
    using run c by (cases "length tag = 16") (auto simp: decryptor_finalize_def with_state_Some
        mbind_def require_phase_eq mthrow_def mmodify_def)
  obtain r x t where 1: "decrypt_context_finalize ssl tag (Some c, s) = (r, (x, t))"
    by (metis prod.exhaust_sel)
  have "r = Inr out"
    using run c 1 tag by (cases r) (auto simp: decryptor_finalize_def with_state_Some mbind_def
        require_phase_eq mmodify_def mreturn_def mon_error_def)
  from decrypt_finalize_spec [OF prov 1 [unfolded this] c(3)] run c 1 tag \<open>r = Inr out\<close> show ?thesis
    by (auto simp: decryptor_finalize_def with_state_Some mbind_def require_phase_eq mmodify_def
        mreturn_def mon_error_def same_secrets_def)
qed

subsection \<open>Any split into pieces\<close>

text \<open>The trace of a list of updates that all returned, each piece paired with what came out.\<close>

definition update_trace :: "(bytes \<times> bytes) list \<Rightarrow> (stream_call \<times> bytes result) list" where
  "update_trace pieces = map (\<lambda>(d, out). (Update d, Inr out)) pieces"

lemma update_trace_simps [simp]:
  "update_trace [] = []"
  "update_trace ((d, out) # pieces) = (Update d, Inr out) # update_trace pieces"
  by (simp_all add: update_trace_def)

lemma stream_run_append:
  "stream_run call st (tr1 @ tr2) st'' \<longleftrightarrow> (\<exists>st'. stream_run call st tr1 st' \<and> stream_run call st' tr2 st'')"
proof (induction tr1 arbitrary: st)
  case (Cons cr tr1)
  then show ?case by (cases cr) auto
qed simp

lemma encryptor_pieces:
  assumes "gcm_provider ssl view alg"
    and "stream_run (encryptor_call ssl) (Some im, s) (update_trace pieces) st'"
    and "streaming view True nonce header ct im"
  shows "concat (map snd pieces) =
      stream_xor (keystream alg (impl_key im) nonce) (length ct) (concat (map fst pieces)) \<and>
    (\<exists>im'. st' = (Some im', s) \<and> same_secrets im im' \<and>
      streaming view True nonce header (ct @ concat (map snd pieces)) im')"
  using assms(2,3)
proof (induction pieces arbitrary: im ct)
  case (Cons piece pieces)
  obtain p out where piece: "piece = (p, out)" by fastforce
  with Cons.prems obtain st1 where run: "encryptor_update ssl p (Some im, s) = (Inr out, st1)"
    and rest: "stream_run (encryptor_call ssl) st1 (update_trace pieces) st'" by auto
  from encryptor_update_spec [OF assms(1) Cons.prems(2) run] obtain im1 where
    out: "out = stream_xor (keystream alg (impl_key im) nonce) (length ct) p" and
    st1: "st1 = (Some im1, s)" "same_secrets im im1" "streaming view True nonce header (ct @ out) im1"
    by blast
  from Cons.IH [OF rest [unfolded st1(1)] st1(3)] st1(2) out piece show ?case
    by (auto simp: stream_xor_append same_secrets_def)
qed auto

lemma decryptor_pieces:
  assumes "gcm_provider ssl view alg"
    and "stream_run (decryptor_call ssl) (Some im, s) (update_trace pieces) st'"
    and "streaming view False nonce header ct im"
  shows "concat (map snd pieces) =
      stream_xor (keystream alg (impl_key im) nonce) (length ct) (concat (map fst pieces)) \<and>
    (\<exists>im'. st' = (Some im', s) \<and> same_secrets im im' \<and>
      streaming view False nonce header (ct @ concat (map fst pieces)) im')"
  using assms(2,3)
proof (induction pieces arbitrary: im ct)
  case (Cons piece pieces)
  obtain p out where piece: "piece = (p, out)" by fastforce
  with Cons.prems obtain st1 where run: "decryptor_update ssl p (Some im, s) = (Inr out, st1)"
    and rest: "stream_run (decryptor_call ssl) st1 (update_trace pieces) st'" by auto
  from decryptor_update_spec [OF assms(1) Cons.prems(2) run] obtain im1 where
    out: "out = stream_xor (keystream alg (impl_key im) nonce) (length ct) p" and
    st1: "st1 = (Some im1, s)" "same_secrets im im1" "streaming view False nonce header (ct @ p) im1"
    by blast
  from Cons.IH [OF rest [unfolded st1(1)] st1(3)] st1(2) out piece show ?case
    by (auto simp: stream_xor_append same_secrets_def)
qed auto

text \<open>
  C33: Streaming encryption implements the packet format. When an encryptor is driven through \<open>begin\<close>,
  updates with any split of a plaintext, and \<open>finalize\<close>, the outputs put together are exactly the SKT1
  packet of the whole plaintext under the nonce it drew.
\<close>

theorem encryptor_streams_packet:
  assumes "gcm_provider ssl view alg" and "length key = 32"
    and "new_packet_impl key aad s = (Inr obj, s1)"
    and "stream_run (encryptor_call ssl) (obj, s1)
      ((Begin d, Inr prefix) # update_trace pieces @ [(Finalize t, Inr tag)]) st'"
  shows "\<exists>nonce. length nonce = 12 \<and>
    prefix @ concat (map snd pieces) @ tag = skt1_packet alg key nonce aad (concat (map fst pieces))"
proof -
  define im where "im = \<lparr>impl_key = key, impl_aad = aad, impl_context = None :: 'b option option, impl_phase = ready\<rparr>"
  have obj: "obj = Some im" using assms(3) by (simp add: new_packet_impl_iff im_def)
  from assms(4) obtain st1 st2 where
    b: "encryptor_begin ssl (Some im, s1) = (Inr prefix, st1)" and
    u: "stream_run (encryptor_call ssl) st1 (update_trace pieces) st2" and
    f: "encryptor_finalize ssl st2 = (Inr tag, st')"
    by (auto simp: obj stream_run_append)
  have key: "length (impl_key im) = 32" using assms(2) by (simp add: im_def)
  obtain nonce im1 s2 where 1: "length nonce = 12" "prefix = make_packet_header @ nonce"
    "st1 = (Some im1, s2)" "same_secrets im im1" "streaming view True nonce make_packet_header [] im1"
    by (rule encryptor_begin_spec [OF assms(1) key b])
  from encryptor_pieces [OF assms(1) u [unfolded 1(3)] 1(5)] obtain im2 where
    2: "st2 = (Some im2, s2)" "same_secrets im1 im2"
    "streaming view True nonce make_packet_header (concat (map snd pieces)) im2"
    and ct: "concat (map snd pieces) = gcm_ciphertext alg (impl_key im1) nonce (concat (map fst pieces))"
    by (auto simp: gcm_ciphertext_def)
  from encryptor_finalize_spec [OF assms(1) 2(3) f [unfolded 2(1)]] 1 2(2) ct show ?thesis
    by (auto simp: skt1_packet_def gcm_tag_def same_secrets_def im_def)
qed

lemma encryptor_streams_packet_witness:
  "\<exists>nonce. length nonce = 12 \<and>
     (make_packet_header @ replicate 12 0) @ [39, 41, 43] @ replicate 16 206 =
       skt1_packet toy_alg toy_key nonce [5] [7, 8, 9]"
proof -
  let ?tr = "(Begin [], Inr (make_packet_header @ replicate 12 0)) #
      update_trace [([7], [39]), ([], []), ([8, 9], [41, 43])] @ [(Finalize [], Inr (replicate 16 206))]"
  let ?run = "run_calls (encryptor_call toy_ssl)
      [Begin [], Update [7], Update [], Update [8, 9], Finalize []] (toy_object, toy_runtime)"
  have "fst ?run = ?tr" by code_simp
  with stream_run_of_calls have "stream_run (encryptor_call toy_ssl) (toy_object, toy_runtime) ?tr (snd ?run)"
    by metis
  from encryptor_streams_packet [OF toy_provider _ toy_object_new this] show ?thesis
    by (simp add: toy_key_def)
qed

text \<open>
  C34: Streaming decryption authenticates. When a decryptor that was fed a prefix and any split of a
  ciphertext accepts the tag, the bytes it was fed are exactly the SKT1 packet of the plaintext its
  updates returned.
\<close>

theorem decryptor_streams_packet:
  assumes "gcm_provider ssl view alg" and "length key = 32"
    and "new_packet_impl key aad s = (Inr obj, s1)"
    and "stream_run (decryptor_call ssl) (obj, s1)
      ((Begin prefix, Inr x) # update_trace pieces @ [(Finalize tag, Inr trailing)]) st'"
  shows "trailing = [] \<and> (\<exists>nonce. length nonce = 12 \<and>
    prefix @ concat (map fst pieces) @ tag = skt1_packet alg key nonce aad (concat (map snd pieces)))"
proof -
  define im where "im = \<lparr>impl_key = key, impl_aad = aad, impl_context = None :: 'b option option, impl_phase = ready\<rparr>"
  have obj: "obj = Some im" using assms(3) by (simp add: new_packet_impl_iff im_def)
  from assms(4) obtain st1 st2 where
    b: "decryptor_begin ssl prefix (Some im, s1) = (Inr (), st1)" and
    u: "stream_run (decryptor_call ssl) st1 (update_trace pieces) st2" and
    f: "decryptor_finalize ssl tag st2 = (Inr trailing, st')"
    by (auto simp: obj stream_run_append mbind_Inr_iff mreturn_def)
  have key: "length (impl_key im) = 32" using assms(2) by (simp add: im_def)
  obtain nonce im1 s2 where 1: "length nonce = 12" "prefix = make_packet_header @ nonce"
    "st1 = (Some im1, s2)" "same_secrets im im1" "streaming view False nonce make_packet_header [] im1"
    by (rule decryptor_begin_spec [OF assms(1) key b])
  from decryptor_pieces [OF assms(1) u [unfolded 1(3)] 1(5)] obtain im2 where
    2: "st2 = (Some im2, s2)" "same_secrets im1 im2"
    "streaming view False nonce make_packet_header (concat (map fst pieces)) im2"
    and p: "concat (map snd pieces) = gcm_ciphertext alg (impl_key im1) nonce (concat (map fst pieces))"
    by (auto simp: gcm_ciphertext_def)
  from decryptor_finalize_spec [OF assms(1) 2(3) f [unfolded 2(1)]] 1 2(2) p show ?thesis
    by (auto simp: skt1_packet_def gcm_tag_def same_secrets_def im_def)
qed

lemma decryptor_streams_packet_witness:
  "\<exists>nonce. length nonce = 12 \<and>
     (make_packet_header @ replicate 12 0) @ [39, 41, 43] @ replicate 16 206 =
       skt1_packet toy_alg toy_key nonce [5] [7, 8, 9]"
proof -
  let ?tr = "(Begin (make_packet_header @ replicate 12 0), Inr []) #
      update_trace [([39, 41], [7, 8]), ([43], [9])] @ [(Finalize (replicate 16 206), Inr [])]"
  let ?run = "run_calls (decryptor_call toy_ssl)
      [Begin (make_packet_header @ replicate 12 0), Update [39, 41], Update [43], Finalize (replicate 16 206)]
      (toy_object, toy_runtime)"
  have "fst ?run = ?tr" by code_simp
  with stream_run_of_calls have "stream_run (decryptor_call toy_ssl) (toy_object, toy_runtime) ?tr (snd ?run)"
    by metis
  from decryptor_streams_packet [OF toy_provider _ toy_object_new this] show ?thesis
    by (simp add: toy_key_def)
qed

end
