(* ===== verification/Aead.thy ===== *)
theory Aead
  imports Packet_Spec
begin

section \<open>One-shot packets and wrapped keys\<close>

text \<open>
  \<open>src/aead.cpp\<close>: \<open>encrypt\<close> and \<open>decrypt\<close> drive a local packet stream through one update, and
  \<open>src/key_wrap.cpp\<close>: a key sealed in a packet. The properties are the round trip, that decryption
  returns plaintext only for a packet that is exactly its encryption, what each failure reports, and
  what is left in released memory.
\<close>

subsection \<open>Operations\<close>

text \<open>
  A block with a local \<open>packet_encryptor\<close> or \<open>packet_decryptor\<close>: it is constructed, the body runs on it,
  and it is destroyed however the body ends.
\<close>

definition packet_scope ::
  "bytes \<Rightarrow> bytes \<Rightarrow> (('c, 'o) packet_object, exn, 'a) action \<Rightarrow> ('o runtime, exn, 'a) action" where
  "packet_scope key aad body =
     mbind (new_packet_impl key aad) (\<lambda>obj s.
       case body (obj, s) of (r, (obj', s')) \<Rightarrow> (r, destroy_packet_impl obj' s'))"

definition encrypt :: "('o, 'c) openssl \<Rightarrow> bytes \<Rightarrow> bytes \<Rightarrow> bytes \<Rightarrow> ('o runtime, exn, bytes) action" where
  "encrypt ssl plaintext key aad =
     packet_scope key aad
       (mbind (encryptor_begin ssl) (\<lambda>packet.
        mbind (encryptor_update ssl plaintext) (\<lambda>ciphertext.
        mbind (encryptor_finalize ssl) (\<lambda>tag.
        mreturn (packet @ ciphertext @ tag)))))"

text \<open>
  The plaintext of a failed authentication is wiped before it is released, and so is the copy in
  \<open>trailing\<close>.
\<close>

definition decrypt :: "('o, 'c) openssl \<Rightarrow> bytes \<Rightarrow> bytes \<Rightarrow> bytes \<Rightarrow> ('o runtime, exn, bytes) action" where
  "decrypt ssl packet key aad =
     mbind (mlift (require_valid_packet packet)) (\<lambda>_.
       let prefix = take kPrefixSize packet;
           ciphertext = take (length packet - kOverhead) (drop kPrefixSize packet);
           tag = drop (length packet - kPacketTagSize) packet
       in packet_scope key aad
         (mbind (decryptor_begin ssl prefix) (\<lambda>_.
          mbind (decryptor_update ssl ciphertext) (\<lambda>plaintext.
          mbind (mon_error (decryptor_finalize ssl tag)
                  (\<lambda>(obj, s). (obj, retire (secure_wipe plaintext) s))) (\<lambda>trailing.
          mbind (mmodify (\<lambda>(obj, s). (obj, retire (secure_wipe trailing) s))) (\<lambda>_.
          mreturn (plaintext @ trailing)))))))"

definition wrap_key :: "('o, 'c) openssl \<Rightarrow> bytes \<Rightarrow> bytes \<Rightarrow> bytes \<Rightarrow> ('o runtime, exn, bytes) action" where
  "wrap_key ssl key_to_wrap wrapping_key aad = encrypt ssl key_to_wrap wrapping_key aad"

definition unwrap_key :: "('o, 'c) openssl \<Rightarrow> bytes \<Rightarrow> bytes \<Rightarrow> bytes \<Rightarrow> ('o runtime, exn, bytes) action" where
  "unwrap_key ssl packet wrapping_key aad =
     mbind (decrypt ssl packet wrapping_key aad) (\<lambda>key_bytes.
       wipe_on_exit key_bytes
         (if length key_bytes \<noteq> 32 then mthrow (Error invalid_packet ''Invalid wrapped key packet'')
          else mreturn (overlay (replicate 32 0) 0 (take 32 key_bytes))))"

subsection \<open>The parts of a packet\<close>

lemma skt1_packet_parts:
  assumes "gcm_provider ssl view alg" and "length nonce = 12"
  shows "length (skt1_packet alg key nonce aad p) = 33 + length p"
    and "take 17 (skt1_packet alg key nonce aad p) = make_packet_header @ nonce"
    and "take (length p) (drop 17 (skt1_packet alg key nonce aad p)) = gcm_ciphertext alg key nonce p"
    and "drop (17 + length p) (skt1_packet alg key nonce aad p) =
      gcm_tag alg key nonce (make_packet_header @ aad) p"
    and "require_valid_packet (skt1_packet alg key nonce aad p) = Inr ()"
  using provider_tag_length(2) [OF assms(1)] assms(2)
  by (simp_all add: skt1_packet_def require_valid_packet_iff)

lemma skt1_packet_injective:
  assumes "gcm_provider ssl view alg" and "length nonce = 12" and "length nonce' = 12"
    and "skt1_packet alg key nonce aad p = skt1_packet alg key nonce' aad' p'"
  shows "nonce = nonce' \<and> p = p'"
proof -
  note parts = skt1_packet_parts [OF assms(1,2), where key = key and aad = aad and p = p]
  note parts' = skt1_packet_parts [OF assms(1,3), where key = key and aad = aad' and p = p']
  have "length p = length p'" using parts(1) parts'(1) assms(4) by simp
  moreover have nonce: "nonce = nonce'" using parts(2) parts'(2) assms(4) by simp
  ultimately have "gcm_ciphertext alg key nonce p = gcm_ciphertext alg key nonce p'"
    using parts(3) parts'(3) assms(4) by metis
  then show ?thesis using nonce by (metis gcm_ciphertext_inverse)
qed

subsection \<open>What the operations compute\<close>

lemma packet_scope_Inr_iff:
  "packet_scope key aad body s = (Inr x, s') \<longleftrightarrow> length aad \<le> int_max \<and>
     (\<exists>obj' t. body (Some \<lparr>impl_key = key, impl_aad = aad, impl_context = None, impl_phase = ready\<rparr>, s) =
        (Inr x, (obj', t)) \<and> s' = destroy_packet_impl obj' t)"
  by (auto simp: packet_scope_def mbind_Inr_iff new_packet_impl_iff split: prod.splits)

lemma destroy_same_secrets:
  "same_secrets im im' \<Longrightarrow> retired (destroy_packet_impl (Some im') s) =
     [replicate (length (impl_key im)) 0, replicate (length (impl_aad im)) 0] @ retired s"
  by (simp add: destroy_packet_impl_def same_secrets_def)

lemma same_secrets_trans: "same_secrets a b \<Longrightarrow> same_secrets b c \<Longrightarrow> same_secrets a c"
  by (simp add: same_secrets_def)

lemma encrypt_spec:
  assumes prov: "gcm_provider ssl view alg" and key: "length key = 32"
    and run: "encrypt ssl plaintext key aad s = (Inr packet, s')"
  shows "\<exists>nonce. length nonce = 12 \<and> packet = skt1_packet alg key nonce aad plaintext"
proof -
  define im where "im = \<lparr>impl_key = key, impl_aad = aad, impl_context = None :: 'b option option, impl_phase = ready\<rparr>"
  from run obtain prefix ct tag st1 st2 st3 where
    b: "encryptor_begin ssl (Some im, s) = (Inr prefix, st1)" and
    u: "encryptor_update ssl plaintext st1 = (Inr ct, st2)" and
    f: "encryptor_finalize ssl st2 = (Inr tag, st3)" and packet: "packet = prefix @ ct @ tag"
    by (auto simp: encrypt_def packet_scope_Inr_iff im_def mbind_Inr_iff mreturn_Inr_iff)
  have "length (impl_key im) = 32" using key by (simp add: im_def)
  from encryptor_begin_spec [OF prov this b] obtain nonce im1 s1 where
    1: "length nonce = 12" "prefix = make_packet_header @ nonce" "st1 = (Some im1, s1)"
    "same_secrets im im1" "streaming view True nonce make_packet_header [] im1" .
  from encryptor_update_spec [OF prov 1(5) u [unfolded 1(3)]] obtain im2 where
    2: "ct = gcm_ciphertext alg (impl_key im1) nonce plaintext" "st2 = (Some im2, s1)"
    "same_secrets im1 im2" "streaming view True nonce make_packet_header ct im2"
    by (auto simp: gcm_ciphertext_def)
  from encryptor_finalize_spec [OF prov 2(4) f [unfolded 2(2)]] 1 2 packet show ?thesis
    by (auto simp: skt1_packet_def gcm_tag_def same_secrets_def im_def)
qed

lemma decrypt_spec:
  assumes prov: "gcm_provider ssl view alg" and key: "length key = 32"
    and run: "decrypt ssl packet key aad s = (Inr p, s')"
  shows "\<exists>nonce. length nonce = 12 \<and> packet = skt1_packet alg key nonce aad p"
    and "retired s' = [replicate 32 0, replicate (length aad) 0, []] @ retired s"
proof -
  define im where "im = \<lparr>impl_key = key, impl_aad = aad, impl_context = None :: 'b option option, impl_phase = ready\<rparr>"
  let ?prefix = "take 17 packet" and ?ct = "take (length packet - 33) (drop 17 packet)"
    and ?tag = "drop (length packet - 16) packet"
  from run obtain pt trailing st1 st2 st3 obj t where
    valid: "require_valid_packet packet = Inr ()" and
    b: "decryptor_begin ssl ?prefix (Some im, s) = (Inr (), st1)" and
    u: "decryptor_update ssl ?ct st1 = (Inr pt, st2)" and
    f: "decryptor_finalize ssl ?tag st2 = (Inr trailing, st3)" and
    st3: "st3 = (obj, t)" and p: "p = pt @ trailing" and
    s': "s' = destroy_packet_impl obj (retire (secure_wipe trailing) t)"
    by (auto simp: decrypt_def packet_scope_Inr_iff im_def mbind_Inr_iff mlift_def mreturn_Inr_iff
        Let_def mon_error_Inr_iff mmodify_def simp del: secure_wipe_eq split: prod.splits)
  have "length (impl_key im) = 32" using key by (simp add: im_def)
  from decryptor_begin_spec [OF prov this b] obtain nonce im1 s1 where
    1: "length nonce = 12" "?prefix = make_packet_header @ nonce" "st1 = (Some im1, s1)"
    "same_secrets im im1" "retired s1 = retired s" "streaming view False nonce make_packet_header [] im1" .
  from decryptor_update_spec [OF prov 1(6) u [unfolded 1(3)]] obtain im2 where
    2: "pt = gcm_ciphertext alg (impl_key im1) nonce ?ct" "st2 = (Some im2, s1)"
    "same_secrets im1 im2" "streaming view False nonce make_packet_header ?ct im2"
    by (auto simp: gcm_ciphertext_def)
  from decryptor_finalize_spec [OF prov 2(4) f [unfolded 2(2)]] obtain im3 where
    3: "trailing = []" "?tag = auth_tag alg (impl_key im2) nonce (make_packet_header @ impl_aad im2) ?ct"
    "st3 = (Some im3, s1)" "same_secrets im2 im3" by blast
  have len: "length packet \<ge> 33" using valid by (simp add: require_valid_packet_iff)
  have "packet = ?prefix @ ?ct @ ?tag"
  proof -
    have "?ct @ ?tag = drop 17 packet"
      using len append_take_drop_id [of "length packet - 33" "drop 17 packet"] by simp
    then show ?thesis by simp
  qed
  with 1 2 3 p show "\<exists>nonce. length nonce = 12 \<and> packet = skt1_packet alg key nonce aad p"
    by (intro exI [of _ nonce]) (simp add: skt1_packet_def gcm_tag_def same_secrets_def im_def)
  have "same_secrets im im3" using 1(4) 2(3) 3(4) same_secrets_trans by blast
  from destroy_same_secrets [OF this, of "retire [] s1"] 1(5) 3(1,3) s' st3 key show "retired s' = [replicate 32 0, replicate (length aad) 0, []] @ retired s"
    by (simp add: im_def)
qed

subsection \<open>With a healthy provider\<close>

lemma feed_aad_returns:
  assumes "gcm_provider ssl view alg" and "gcm_healthy ssl view alg" and "length (impl_aad im) \<le> int_max"
    and "view c = view_at enc (impl_key im) nonce [] []"
  shows "\<exists>im'. feed_aad ssl make_packet_header (impl_aad im) (mbind (set_phase active) (\<lambda>_. mlift (Inr x)))
      (im\<lparr>impl_context := Some (Some c)\<rparr>, s) = (Inr x, (im', s)) \<and>
    same_secrets im im' \<and> streaming view enc nonce make_packet_header [] im'"
proof -
  have "length make_packet_header \<le> int_max" by (simp add: int_max_def)
  from context_update_aad_returns [OF assms(1,2) this assms(4), of s] obtain c1 where
    1: "context_update_aad ssl make_packet_header (Some c, s) = (Inr (), (Some c1, s))" and
    c1: "view c1 = view_at enc (impl_key im) nonce make_packet_header []" by auto
  from context_update_aad_returns [OF assms(1-3) c1, of s] obtain c2 where
    2: "context_update_aad ssl (impl_aad im) (Some c1, s) = (Inr (), (Some c2, s))" by auto
  have run: "feed_aad ssl make_packet_header (impl_aad im) (mbind (set_phase active) (\<lambda>_. mlift (Inr x)))
      (im\<lparr>impl_context := Some (Some c)\<rparr>, s) =
      (Inr x, (im\<lparr>impl_context := Some (Some c2), impl_phase := active\<rparr>, s))"
    using 1 2 by (simp add: feed_aad_def mbind_def mlift_def)
  from feed_aad_spec [OF assms(1) this assms(4)] run show ?thesis by blast
qed

lemma encryptor_begin_unfold:
  assumes "impl_phase im = ready" and "random_bytes ssl 12 s = (Inr nonce, t)"
    and "Aes256GcmEncryptContext ssl (impl_key im) nonce t = (Inr c, t1)"
  shows "encryptor_begin ssl (Some im, s) =
    (case feed_aad ssl make_packet_header (impl_aad im) (mbind (set_phase active) (\<lambda>_. mlift (make_packet_prefix nonce)))
      (im\<lparr>impl_context := Some c\<rparr>, t1) of (r, (im', s')) \<Rightarrow> (r, (Some im', s')))"
  by (simp add: encryptor_begin_def with_state_def mbind_def [of "require_phase _ _"]
      mbind_def [of "in_runtime _"] mbind_def [of "mget _"] mbind_def [of "set_context _"]
      require_phase_eq in_runtime_eq mget_def feed_aad_def assms)

lemma decryptor_begin_unfold:
  assumes "impl_phase im = ready" and "length nonce = 12"
    and "Aes256GcmDecryptContext ssl (impl_key im) nonce s = (Inr c, t1)"
  shows "decryptor_begin ssl (make_packet_header @ nonce) (Some im, s) =
    (case feed_aad ssl make_packet_header (impl_aad im) (mbind (set_phase active) (\<lambda>_. mlift (Inr ())))
      (im\<lparr>impl_context := Some c\<rparr>, t1) of (r, (im', s')) \<Rightarrow> (r, (Some im', s')))"
proof -
  have "require_valid_prefix (make_packet_header @ nonce) = Inr ()"
    using assms(2) by (simp add: require_valid_prefix_iff)
  then show ?thesis
    by (simp add: decryptor_begin_def with_state_def mbind_def [of "require_phase _ _"]
        mbind_def [of "in_runtime _"] mbind_def [of "mget _"] mbind_def [of "set_context _"]
        require_phase_eq in_runtime_eq mget_def feed_aad_def mlift_Inr set_phase_unit Let_def assms)
qed

lemma encryptor_begin_returns:
  assumes prov: "gcm_provider ssl view alg" and healthy: "gcm_healthy ssl view alg"
    and key: "length (impl_key im) = 32" and aad: "length (impl_aad im) \<le> int_max"
    and ready: "impl_phase im = ready"
  shows "\<exists>nonce im' s'. encryptor_begin ssl (Some im, s) = (Inr (make_packet_header @ nonce), (Some im', s')) \<and>
    length nonce = 12 \<and> same_secrets im im' \<and> streaming view True nonce make_packet_header [] im'"
proof -
  obtain nonce t where r: "random_bytes ssl 12 s = (Inr nonce, t)" and len: "length nonce = 12"
    using random_bytes_returns [OF healthy] by blast
  obtain c t1 where ctx: "Aes256GcmEncryptContext ssl (impl_key im) nonce t = (Inr (Some c), t1)"
    and c: "view c = view_at True (impl_key im) nonce [] []"
    using encrypt_context_returns [OF prov healthy key] by blast
  from feed_aad_returns [OF prov healthy aad c, where x = "make_packet_header @ nonce" and s = t1]
  obtain im' where
    f: "feed_aad ssl make_packet_header (impl_aad im)
      (mbind (set_phase active) (\<lambda>_. mlift (Inr (make_packet_header @ nonce))))
      (im\<lparr>impl_context := Some (Some c)\<rparr>, t1) = (Inr (make_packet_header @ nonce), (im', t1))" and
    im': "same_secrets im im'" "streaming view True nonce make_packet_header [] im'" by blast
  have "encryptor_begin ssl (Some im, s) = (Inr (make_packet_header @ nonce), (Some im', t1))"
    using f encryptor_begin_unfold [OF ready r ctx] len by (simp add: make_packet_prefix_eq)
  with len im' show ?thesis by blast
qed

lemma decryptor_begin_returns:
  assumes prov: "gcm_provider ssl view alg" and healthy: "gcm_healthy ssl view alg"
    and key: "length (impl_key im) = 32" and aad: "length (impl_aad im) \<le> int_max"
    and ready: "impl_phase im = ready" and len: "length nonce = 12"
  shows "\<exists>im' s'. decryptor_begin ssl (make_packet_header @ nonce) (Some im, s) = (Inr (), (Some im', s')) \<and>
    same_secrets im im' \<and> retired s' = retired s \<and> streaming view False nonce make_packet_header [] im'"
proof -
  obtain c t1 where ctx: "Aes256GcmDecryptContext ssl (impl_key im) nonce s = (Inr (Some c), t1)"
    and c: "view c = view_at False (impl_key im) nonce [] []" and t1: "retired t1 = retired s"
    using decrypt_context_returns [OF prov healthy key] by blast
  from feed_aad_returns [OF prov healthy aad c, where x = "()" and s = t1] obtain im' where
    f: "feed_aad ssl make_packet_header (impl_aad im) (mbind (set_phase active) (\<lambda>_. mlift (Inr ())))
      (im\<lparr>impl_context := Some (Some c)\<rparr>, t1) = (Inr (), (im', t1))" and
    im': "same_secrets im im'" "streaming view False nonce make_packet_header [] im'" by blast
  then have "decryptor_begin ssl (make_packet_header @ nonce) (Some im, s) = (Inr (), (Some im', t1))"
    using decryptor_begin_unfold [OF ready len ctx] by simp
  with im' t1 show ?thesis by blast
qed

lemma encryptor_update_returns:
  assumes "gcm_provider ssl view alg" and "gcm_healthy ssl view alg" and "length p \<le> int_max"
    and st: "streaming view True nonce header ct im"
  shows "\<exists>out st'. encryptor_update ssl p (Some im, s) = (Inr out, st')"
proof -
  from st obtain c where c: "impl_phase im = active" "impl_context im = Some (Some c)"
    "view c = view_at True (impl_key im) nonce (header @ impl_aad im) ct" by (rule streamingE)
  from encrypt_update_returns [OF assms(1-3) c(3), of s] c(1,2) show ?thesis
    by (auto simp: encryptor_update_def with_state_Some mbind_def require_phase_eq)
qed

lemma encryptor_finalize_returns:
  assumes "gcm_provider ssl view alg" and "gcm_healthy ssl view alg"
    and st: "streaming view True nonce header ct im"
  shows "\<exists>out st'. encryptor_finalize ssl (Some im, s) = (Inr out, st')"
proof -
  from st obtain c where c: "impl_phase im = active" "impl_context im = Some (Some c)"
    "view c = view_at True (impl_key im) nonce (header @ impl_aad im) ct" by (rule streamingE)
  from encrypt_finalize_returns [OF assms(1,2) c(3), of s] c(1,2) show ?thesis
    by (auto simp: encryptor_finalize_def with_state_Some mbind_def require_phase_eq mmodify_def mreturn_def)
qed

lemma decryptor_update_returns:
  assumes "gcm_provider ssl view alg" and "gcm_healthy ssl view alg" and "length p \<le> int_max"
    and st: "streaming view False nonce header ct im"
  shows "\<exists>out st'. decryptor_update ssl p (Some im, s) = (Inr out, st')"
proof -
  from st obtain c where c: "impl_phase im = active" "impl_context im = Some (Some c)"
    "view c = view_at False (impl_key im) nonce (header @ impl_aad im) ct" by (rule streamingE)
  from decrypt_update_returns [OF assms(1-3) c(3), of s] c(1,2) show ?thesis
    by (auto simp: decryptor_update_def with_state_Some mbind_def require_phase_eq)
qed

lemma decryptor_finalize_returns:
  assumes "gcm_provider ssl view alg" and "gcm_healthy ssl view alg"
    and st: "streaming view False nonce header ct im" and "length tag = 16"
  shows "\<exists>im'. decryptor_finalize ssl tag (Some im, s) =
    (if tag = auth_tag alg (impl_key im) nonce (header @ impl_aad im) ct then Inr [] else Inl aead_authentication_failure,
     (Some im', s)) \<and> same_secrets im im'"
proof -
  from st obtain c where c: "impl_phase im = active" "impl_context im = Some (Some c)"
    "view c = view_at False (impl_key im) nonce (header @ impl_aad im) ct" by (rule streamingE)
  from decrypt_finalize_returns [OF assms(1,2) c(3) assms(4), of s] c(1,2) assms(4) show ?thesis
    by (auto simp: decryptor_finalize_def with_state_Some mbind_def require_phase_eq mmodify_def
        mreturn_def mon_error_def same_secrets_def)
qed

lemma encrypt_returns:
  assumes prov: "gcm_provider ssl view alg" and healthy: "gcm_healthy ssl view alg"
    and key: "length key = 32" and szs: "length p \<le> int_max" "length aad \<le> int_max"
  shows "\<exists>packet s'. encrypt ssl p key aad s = (Inr packet, s')"
proof -
  define im where "im = \<lparr>impl_key = key, impl_aad = aad, impl_context = None :: 'b option option, impl_phase = ready\<rparr>"
  have im: "length (impl_key im) = 32" "length (impl_aad im) \<le> int_max" "impl_phase im = ready"
    using key szs(2) by (simp_all add: im_def)
  from encryptor_begin_returns [OF prov healthy im, of s] obtain nonce im1 s1 where
    1: "encryptor_begin ssl (Some im, s) = (Inr (make_packet_header @ nonce), (Some im1, s1))"
    "streaming view True nonce make_packet_header [] im1" by blast
  obtain ct st2 where 2: "encryptor_update ssl p (Some im1, s1) = (Inr ct, st2)"
    using encryptor_update_returns [OF prov healthy szs(1) 1(2)] by blast
  from encryptor_update_spec [OF prov 1(2) 2] obtain im2 where
    st2: "st2 = (Some im2, s1)" "streaming view True nonce make_packet_header ([] @ ct) im2" by blast
  obtain tag st3 where 3: "encryptor_finalize ssl (Some im2, s1) = (Inr tag, st3)"
    using encryptor_finalize_returns [OF prov healthy st2(2)] by blast
  have "mbind (encryptor_begin ssl) (\<lambda>packet. mbind (encryptor_update ssl p) (\<lambda>ct.
      mbind (encryptor_finalize ssl) (\<lambda>tag. mreturn (packet @ ct @ tag)))) (Some im, s) =
      (Inr ((make_packet_header @ nonce) @ ct @ tag), st3)"
    using 1(1) 2 st2(1) 3 by (simp add: mbind_def mreturn_def)
  then show ?thesis
    using szs(2) by (cases st3) (auto simp: encrypt_def packet_scope_Inr_iff im_def)
qed

text \<open>
  Decryption of a packet whose prefix is valid: the plaintext when the tag is the tag of the
  ciphertext, and an authentication failure that leaves only wiped memory otherwise.
\<close>

lemma packet_scope_run:
  assumes "length aad \<le> int_max"
    and "body (Some \<lparr>impl_key = key, impl_aad = aad, impl_context = None, impl_phase = ready\<rparr>, s) = (r, (obj, t))"
  shows "packet_scope key aad body s = (r, destroy_packet_impl obj t)"
  using assms by (simp add: packet_scope_def mbind_def new_packet_impl_def check_update_size_def
      mlift_def mon_error_def mreturn_def)

lemma destroy_releases_wiped: "releases_wiped s t \<Longrightarrow> releases_wiped s (destroy_packet_impl obj t)"
  by (cases obj) (auto simp: destroy_packet_impl_def intro!: releases_wiped_retire)

lemma decrypt_outcome:
  assumes prov: "gcm_provider ssl view alg" and healthy: "gcm_healthy ssl view alg"
    and key: "length key = 32" and szs: "length packet \<le> int_max" "length aad \<le> int_max"
    and packet: "packet = make_packet_header @ nonce @ ct @ tag" "length nonce = 12" "length tag = 16"
  shows "\<exists>s'. decrypt ssl packet key aad s =
    (if tag = auth_tag alg key nonce (make_packet_header @ aad) ct
     then Inr (gcm_ciphertext alg key nonce ct) else Inl aead_authentication_failure, s') \<and>
    releases_wiped s s'"
proof -
  define im where "im = \<lparr>impl_key = key, impl_aad = aad, impl_context = None :: 'b option option, impl_phase = ready\<rparr>"
  have im: "length (impl_key im) = 32" "length (impl_aad im) \<le> int_max" "impl_phase im = ready"
    "impl_key im = key" "impl_aad im = aad"
    using key szs(2) by (simp_all add: im_def)
  have parts: "require_valid_packet packet = Inr ()" "take kPrefixSize packet = make_packet_header @ nonce"
    "take (length packet - kOverhead) (drop kPrefixSize packet) = ct"
    "drop (length packet - kPacketTagSize) packet = tag"
    using packet by (simp_all add: require_valid_packet_iff)
  from decryptor_begin_returns [OF prov healthy im(1-3) packet(2), of s] obtain im1 s1 where
    1: "decryptor_begin ssl (make_packet_header @ nonce) (Some im, s) = (Inr (), (Some im1, s1))"
    "same_secrets im im1" "retired s1 = retired s" "streaming view False nonce make_packet_header [] im1"
    by blast
  have ct: "length ct \<le> int_max" using szs(1) packet(1) by simp
  obtain pt st2 where 2: "decryptor_update ssl ct (Some im1, s1) = (Inr pt, st2)"
    using decryptor_update_returns [OF prov healthy ct 1(4)] by blast
  from decryptor_update_spec [OF prov 1(4) 2] obtain im2 where
    st2: "pt = gcm_ciphertext alg key nonce ct" "st2 = (Some im2, s1)" "same_secrets im1 im2"
    "streaming view False nonce make_packet_header ct im2"
    using 1(2) im by (auto simp: gcm_ciphertext_def same_secrets_def)
  have secrets: "impl_key im2 = key" "impl_aad im2 = aad"
    using 1(2) st2(3) im by (auto simp: same_secrets_def)
  from decryptor_finalize_returns [OF prov healthy st2(4) packet(3), of s1] obtain im3 where
    3: "decryptor_finalize ssl tag (Some im2, s1) =
      (if tag = auth_tag alg key nonce (make_packet_header @ aad) ct then Inr [] else Inl aead_authentication_failure,
       (Some im3, s1))"
    unfolding secrets by blast
  let ?body = "mbind (decryptor_begin ssl (make_packet_header @ nonce)) (\<lambda>_.
      mbind (decryptor_update ssl ct) (\<lambda>plaintext.
      mbind (mon_error (decryptor_finalize ssl tag) (\<lambda>(obj, s). (obj, retire (secure_wipe plaintext) s))) (\<lambda>trailing.
      mbind (mmodify (\<lambda>(obj, s). (obj, retire (secure_wipe trailing) s))) (\<lambda>_.
      mreturn (plaintext @ trailing)))))"
  have body: "?body (Some im, s) = (if tag = auth_tag alg key nonce (make_packet_header @ aad) ct
      then (Inr pt, (Some im3, retire [] s1))
      else (Inl aead_authentication_failure, (Some im3, retire (secure_wipe pt) s1)))"
    using 1(1) 2 st2(2) 3 by (simp add: mbind_def mon_error_def mmodify_def mreturn_def)
  have run: "decrypt ssl packet key aad s = packet_scope key aad ?body s"
    unfolding decrypt_def Let_def parts mlift_Inr mbind_return ..
  define t where "t = retire (if tag = auth_tag alg key nonce (make_packet_header @ aad) ct then []
      else secure_wipe pt) s1"
  define r where "r = (if tag = auth_tag alg key nonce (make_packet_header @ aad) ct then Inr pt
      else Inl aead_authentication_failure)"
  have rt: "?body (Some im, s) = (r, (Some im3, t))"
    unfolding body by (simp add: r_def t_def)
  have "wiped ([] :: bytes)" by (simp add: wiped_def)
  then have t: "releases_wiped s t"
    using 1(3) unfolding t_def by (intro releases_wiped_retire releases_wiped_same) simp_all
  have "packet_scope key aad ?body s = (r, destroy_packet_impl (Some im3) t)"
    by (rule packet_scope_run [OF szs(2)]) (rule rt [unfolded im_def])
  with run st2(1) destroy_releases_wiped [OF t]
  show ?thesis unfolding r_def by auto
qed

text \<open>A packet whose first bytes are not a valid prefix, or that is too short.\<close>

lemma decrypt_malformed:
  "require_valid_packet packet = Inl e \<Longrightarrow> decrypt ssl packet key aad s = (Inl packet_error, s)"
  by (frule require_valid_packet_error) (simp add: decrypt_def mbind_def mlift_def)

lemma valid_packet_parts:
  assumes "require_valid_packet packet = Inr ()"
  obtains nonce ct tag where "packet = make_packet_header @ nonce @ ct @ tag"
    and "length nonce = 12" and "length tag = 16"
proof -
  have len: "length packet \<ge> 33" and hd: "take 5 packet = make_packet_header"
    using assms by (simp_all add: require_valid_packet_iff)
  define rest where "rest = drop 5 packet"
  have rest: "length rest \<ge> 28" "packet = make_packet_header @ rest"
    using len hd append_take_drop_id [of 5 packet] by (simp_all add: rest_def)
  have "rest = take 12 rest @ take (length rest - 28) (drop 12 rest) @ drop (length rest - 16) rest"
  proof -
    have "take (length rest - 28) (drop 12 rest) @ drop (length rest - 28) (drop 12 rest) = drop 12 rest"
      by (rule append_take_drop_id)
    moreover have "drop (length rest - 28) (drop 12 rest) = drop (length rest - 16) rest"
      using rest(1) by simp
    ultimately show ?thesis by (metis append_take_drop_id)
  qed
  with rest show thesis
    by (intro that [of "take 12 rest" "take (length rest - 28) (drop 12 rest)" "drop (length rest - 16) rest"])
      simp_all
qed

subsection \<open>Properties\<close>

lemma encrypt_then_decrypt:
  assumes "gcm_provider ssl view alg" and "gcm_healthy ssl view alg" and "length key = 32"
    and "length plaintext + 33 \<le> int_max" and "length aad \<le> int_max"
  shows "\<exists>packet s'. encrypt ssl plaintext key aad s = (Inr packet, s') \<and>
    length packet = length plaintext + 33 \<and>
    (\<forall>t. \<exists>t'. decrypt ssl packet key aad t = (Inr plaintext, t'))"
proof -
  have "length plaintext \<le> int_max" using assms(4) by simp
  from encrypt_returns [OF assms(1-3) this assms(5)] obtain packet s' where
    run: "encrypt ssl plaintext key aad s = (Inr packet, s')" by blast
  from encrypt_spec [OF assms(1,3) this] obtain nonce where
    n: "length nonce = 12" "packet = skt1_packet alg key nonce aad plaintext" by blast
  have len: "length packet = length plaintext + 33"
    using skt1_packet_parts(1) [OF assms(1) n(1)] n(2) by simp
  have "\<exists>t'. decrypt ssl packet key aad t = (Inr plaintext, t')" for t
    using decrypt_outcome [OF assms(1-3) _ assms(5) n(2) [unfolded skt1_packet_def] n(1)
        provider_tag_length(2) [OF assms(1)], of t] len assms(4)
    by (auto simp: gcm_tag_def)
  with run len show ?thesis by blast
qed

text \<open>
  C28: Round trip. With a working provider, \<open>encrypt\<close> returns a packet for every plaintext and associated
  data that fit an \<open>int\<close>, 33 bytes longer than the plaintext, and \<open>decrypt\<close> with the same key and
  associated data returns the plaintext again.
\<close>

theorem encrypt_decrypt_roundtrip:
  assumes "gcm_provider ssl view alg" and "gcm_healthy ssl view alg" and "length key = 32"
    and "length plaintext + 33 \<le> int_max" and "length aad \<le> int_max"
  shows "\<exists>packet s'. encrypt ssl plaintext key aad s = (Inr packet, s') \<and>
    length packet = length plaintext + 33 \<and>
    (\<forall>t. \<exists>t'. decrypt ssl packet key aad t = (Inr plaintext, t'))"
  by (rule encrypt_then_decrypt [OF assms])

lemma encrypt_decrypt_roundtrip_witness:
  "\<exists>packet s'. encrypt toy_ssl [7, 8, 9] toy_key [5] toy_runtime = (Inr packet, s') \<and> length packet = 36 \<and>
    (\<forall>t. \<exists>t'. decrypt toy_ssl packet toy_key [5] t = (Inr [7, 8, 9], t'))"
  using encrypt_decrypt_roundtrip [OF toy_provider toy_healthy, of toy_key "[7, 8, 9]" "[5]" toy_runtime]
  by (simp add: toy_key_def int_max_def)

text \<open>
  C27: Integrity. \<open>decrypt\<close> returns \<open>p\<close> only for a packet that is, byte for byte, the encryption of \<open>p\<close>
  under this key, this associated data and the nonce in the packet: a packet with any other header,
  ciphertext, tag, length or associated data is never accepted. The buffers the run releases are
  zeroed copies of the key and the associated data and the empty trailing buffer.
\<close>

theorem decrypt_only_exact_packets:
  assumes "gcm_provider ssl view alg" and "length key = 32"
    and "decrypt ssl packet key aad s = (Inr p, s')"
  shows "(\<exists>nonce. length nonce = 12 \<and> packet = skt1_packet alg key nonce aad p) \<and>
    retired s' = [replicate 32 0, replicate (length aad) 0, []] @ retired s"
  using decrypt_spec [OF assms] by blast

definition toy_packet :: bytes where
  "toy_packet = make_packet_header @ replicate 12 0 @ [39, 41, 43] @ replicate 16 206"

lemma decrypt_only_exact_packets_witness:
  "\<exists>nonce. length nonce = 12 \<and> toy_packet = skt1_packet toy_alg toy_key nonce [5] [7, 8, 9]"
proof -
  have "fst (decrypt toy_ssl toy_packet toy_key [5] toy_runtime) = Inr [7, 8, 9]"
    by code_simp
  then obtain s' where run: "decrypt toy_ssl toy_packet toy_key [5] toy_runtime = (Inr [7, 8, 9], s')"
    by (metis prod.exhaust_sel)
  have "length toy_key = 32" by (simp add: toy_key_def)
  from decrypt_only_exact_packets [OF toy_provider this run] show ?thesis by blast
qed

text \<open>
  C30: Rejection. With a working provider every packet that is not an encryption under this key and
  associated data is rejected: as an invalid packet when it is too short or its header is wrong, and
  otherwise as an authentication failure; everything released, the unverified plaintext included,
  has been wiped.
\<close>

theorem decrypt_rejects_forgery:
  assumes "gcm_provider ssl view alg" and "gcm_healthy ssl view alg" and "length key = 32"
    and "length packet \<le> int_max" and "length aad \<le> int_max"
    and "\<forall>nonce p. length nonce = 12 \<longrightarrow> packet \<noteq> skt1_packet alg key nonce aad p"
  shows "\<exists>s'. decrypt ssl packet key aad s =
      (Inl (if require_valid_packet packet = Inr () then aead_authentication_failure else packet_error), s') \<and>
    releases_wiped s s'"
proof (cases "require_valid_packet packet = Inr ()")
  case True
  then obtain nonce ct tag where packet: "packet = make_packet_header @ nonce @ ct @ tag"
    "length nonce = 12" "length tag = 16" by (rule valid_packet_parts)
  have "tag \<noteq> auth_tag alg key nonce (make_packet_header @ aad) ct"
    using assms(6) packet gcm_ciphertext_inverse [of alg key nonce ct]
    by (auto simp: skt1_packet_def gcm_tag_def dest!: spec [of _ nonce] spec [of _ "gcm_ciphertext alg key nonce ct"])
  with decrypt_outcome [OF assms(1-5) packet, of s] True show ?thesis by simp
next
  case False
  then obtain e where e: "require_valid_packet packet = Inl e" using unit_result_cases by blast
  from decrypt_malformed [OF e, of ssl key aad s] False show ?thesis
    by (simp only: if_False) blast
qed

definition forged_packet :: bytes where
  "forged_packet = make_packet_header @ replicate 12 0 @ replicate 16 0"

lemma forged_packet_not_sealed: "length nonce = 12 \<Longrightarrow> forged_packet \<noteq> skt1_packet toy_alg toy_key nonce [5] p"
proof
  assume len: "length nonce = 12" and eq: "forged_packet = skt1_packet toy_alg toy_key nonce [5] p"
  note parts = skt1_packet_parts [OF toy_provider len, where key = toy_key and aad = "[5]" and p = p]
  have "length p = 0" using parts(1) eq [symmetric] by (simp add: forged_packet_def)
  then have p: "p = []" by simp
  have nonce: "nonce = replicate 12 0" using parts(2) eq [symmetric] by (simp add: forged_packet_def)
  from parts(4) [folded eq] p nonce
  have "drop 17 forged_packet = gcm_tag toy_alg toy_key (replicate 12 0) (make_packet_header @ [5]) []"
    by simp
  moreover have "drop 17 forged_packet = replicate 16 0" by (simp add: forged_packet_def)
  moreover have "replicate 16 0 \<noteq> gcm_tag toy_alg toy_key (replicate 12 0) (make_packet_header @ [5]) []"
    by code_simp
  ultimately show False by simp
qed

lemma decrypt_rejects_forgery_witness:
  "\<exists>s'. decrypt toy_ssl forged_packet toy_key [5] toy_runtime = (Inl aead_authentication_failure, s') \<and>
    releases_wiped toy_runtime s'"
proof -
  have "require_valid_packet forged_packet = Inr ()"
    by (simp add: require_valid_packet_iff forged_packet_def)
  moreover have "length toy_key = 32" "length forged_packet \<le> int_max" "length [5 :: byte] \<le> int_max"
    by (simp_all add: toy_key_def forged_packet_def int_max_def)
  ultimately show ?thesis
    using decrypt_rejects_forgery [OF toy_provider toy_healthy, of toy_key forged_packet "[5]" toy_runtime]
      forged_packet_not_sealed by auto
qed

subsection \<open>Wrapped keys\<close>

lemma unwrap_after_decrypt:
  assumes "decrypt ssl packet wrapping_key aad s = (Inr p, t)"
  shows "unwrap_key ssl packet wrapping_key aad s =
    (if length p = 32 then Inr p else Inl (Error invalid_packet ''Invalid wrapped key packet''),
     retire (secure_wipe p) t)"
  using assms by (simp add: unwrap_key_def mbind_def wipe_on_exit_def mthrow_def mreturn_def overlay_def)

lemma unwrap_key_returned:
  assumes "unwrap_key ssl packet wrapping_key aad s = (Inr k, s')"
  shows "length k = 32 \<and> (\<exists>t. decrypt ssl packet wrapping_key aad s = (Inr k, t))"
proof -
  from assms obtain p t where p: "decrypt ssl packet wrapping_key aad s = (Inr p, t)"
    by (auto simp: unwrap_key_def mbind_Inr_iff)
  from unwrap_after_decrypt [OF p] assms p show ?thesis by (auto split: if_splits)
qed

text \<open>
  C36: Key wrapping. With a working provider, wrapping a 32-byte key and unwrapping the packet returns
  the key. \<open>unwrap_key\<close> returns only a 32-byte key whose wrapping is exactly the packet; the packet of a
  plaintext of any other size is refused as an invalid packet, after the plaintext has been wiped.
\<close>

theorem unwrap_key_correct:
  assumes "gcm_provider ssl view alg" and "gcm_healthy ssl view alg" and "length wrapping_key = 32"
    and "length plaintext + 33 \<le> int_max" and "length aad \<le> int_max" and "length nonce = 12"
    and "packet = skt1_packet alg wrapping_key nonce aad plaintext"
  shows "\<exists>s'. unwrap_key ssl packet wrapping_key aad s =
      (if length plaintext = 32 then Inr plaintext else Inl (Error invalid_packet ''Invalid wrapped key packet''), s') \<and>
    releases_wiped s s'"
proof -
  have len: "length packet \<le> int_max"
    using skt1_packet_parts(1) [OF assms(1,6)] assms(4,7) by simp
  from decrypt_outcome [OF assms(1-3) len assms(5) assms(7) [unfolded skt1_packet_def] assms(6)
      provider_tag_length(2) [OF assms(1)], of s]
  obtain t where "decrypt ssl packet wrapping_key aad s = (Inr plaintext, t)" and t: "releases_wiped s t"
    by (auto simp: gcm_tag_def)
  from unwrap_after_decrypt [OF this(1)] releases_wiped_retire [OF t wiped_secure_wipe]
  show ?thesis by blast
qed

lemma unwrap_key_correct_witness:
  "\<exists>s'. unwrap_key toy_ssl (skt1_packet toy_alg toy_key (replicate 12 3) [5] (replicate 32 4)) toy_key [5] toy_runtime =
    (Inr (replicate 32 4), s') \<and> releases_wiped toy_runtime s'"
  using unwrap_key_correct [OF toy_provider toy_healthy, of toy_key "replicate 32 4" "[5]" "replicate 12 3" _ toy_runtime]
  by (simp add: toy_key_def int_max_def)

text \<open>
  Only wrapped keys unwrap. A key that \<open>unwrap_key\<close> returns is 32 bytes long and the packet is exactly
  what \<open>wrap_key\<close> makes of it under the nonce in the packet, and the intermediate copy is wiped.
\<close>

theorem unwrap_key_authenticates:
  assumes "gcm_provider ssl view alg" and "length wrapping_key = 32"
    and "unwrap_key ssl packet wrapping_key aad s = (Inr k, s')"
  shows "length k = 32 \<and>
    (\<exists>nonce. length nonce = 12 \<and> packet = skt1_packet alg wrapping_key nonce aad k) \<and> releases_wiped s s'"
proof -
  obtain t where k: "length k = 32" and d: "decrypt ssl packet wrapping_key aad s = (Inr k, t)"
    using unwrap_key_returned [OF assms(3)] by blast
  have "releases_wiped s t"
    using decrypt_spec(2) [OF assms(1,2) d] by (auto simp: releases_wiped_def wiped_def)
  moreover have "s' = retire (secure_wipe k) t"
    using unwrap_after_decrypt [OF d] assms(3) k by simp
  ultimately have "releases_wiped s s'"
    using releases_wiped_retire wiped_secure_wipe by blast
  with k decrypt_spec(1) [OF assms(1,2) d] show ?thesis by blast
qed

definition toy_wrapped :: bytes where
  "toy_wrapped = skt1_packet toy_alg toy_key (replicate 12 3) [5] (replicate 32 4)"

lemma unwrap_key_authenticates_witness:
  "\<exists>nonce. length nonce = 12 \<and> toy_wrapped = skt1_packet toy_alg toy_key nonce [5] (replicate 32 4)"
proof -
  have "fst (unwrap_key toy_ssl toy_wrapped toy_key [5] toy_runtime) = Inr (replicate 32 4)"
    by code_simp
  then obtain s' where run: "unwrap_key toy_ssl toy_wrapped toy_key [5] toy_runtime = (Inr (replicate 32 4), s')"
    by (metis prod.exhaust_sel)
  have "length toy_key = 32" by (simp add: toy_key_def)
  from unwrap_key_authenticates [OF toy_provider this run] show ?thesis by blast
qed

end
