(* ===== verification/Hex.thy ===== *)
theory Hex
  imports Codec
begin

section \<open>Hexadecimal text\<close>

text \<open>\<open>src/hex.cpp\<close>: encoding to lower case, strict decoding that takes both cases.\<close>

unbundle bit_operations_syntax

definition kDigits :: string where
  "kDigits = ''0123456789abcdef''"

definition encode_nibble :: "u32 \<Rightarrow> char" where
  "encode_nibble value = kDigits ! unat (value AND 0x0f)"

definition decode_nibble :: "char \<Rightarrow> int" where
  "decode_nibble value =
     (if schar value \<ge> schar (CHR ''0'') \<and> schar value \<le> schar (CHR ''9'')
        then schar value - schar (CHR ''0'')
      else if schar value \<ge> schar (CHR ''a'') \<and> schar value \<le> schar (CHR ''f'')
        then schar value - schar (CHR ''a'') + 10
      else if schar value \<ge> schar (CHR ''A'') \<and> schar value \<le> schar (CHR ''F'')
        then schar value - schar (CHR ''A'') + 10
      else -1)"

text \<open>The loop over the bytes, and the function with its guard on the size.\<close>

fun hex_encode_loop :: "bytes \<Rightarrow> string" where
  "hex_encode_loop [] = []"
| "hex_encode_loop (b # bs) =
     encode_nibble (drop_bit 4 (ucast b)) # encode_nibble (ucast b) # hex_encode_loop bs"

definition hex_encode :: "bytes \<Rightarrow> string result" where
  "hex_encode input =
     (if length input > string_max_size div 2
      then Inl (Error invalid_input ''hex input is too large to encode'')
      else Inr (hex_encode_loop input))"

text \<open>
  The decoding loop takes two characters a step. The equation for a single left-over character
  is never reached: an odd size has been rejected before the loop.
\<close>

fun hex_decode_loop :: "string \<Rightarrow> bytes result" where
  "hex_decode_loop [] = Inr []"
| "hex_decode_loop [c] = Inl (Undefined_behaviour ''read past the end of the hex input'')"
| "hex_decode_loop (c # d # cs) =
     (let high = decode_nibble c; low = decode_nibble d
      in if high < 0 \<or> low < 0
         then Inl (Error invalid_encoding ''hex input contains a non-hexadecimal character'')
         else rbind (hex_decode_loop cs)
           (\<lambda>bs. Inr (word_of_int ((push_bit 4 high) OR low) # bs)))"

definition hex_decode :: "string \<Rightarrow> bytes result" where
  "hex_decode input =
     (if length input mod 2 \<noteq> 0
      then Inl (Error invalid_encoding ''hex input must contain an even number of characters'')
      else hex_decode_loop input)"

subsection \<open>Facts about one byte\<close>

lemma decode_digit: "n < 16 \<Longrightarrow> decode_nibble (kDigits ! n) = int n"
proof -
  have "\<forall>n \<in> set [0..<16]. decode_nibble (kDigits ! n) = int n"
    by code_simp
  then show "n < 16 \<Longrightarrow> decode_nibble (kDigits ! n) = int n" by simp
qed

lemma nibble_less: "unat ((v :: u32) AND 0x0f) < 16"
  using unat_take_bit_less [of 4 v] by (simp add: mask_simps)

lemma decode_encode_nibble [simp]:
  "decode_nibble (encode_nibble v) = uint (v AND 0x0f)"
  by (simp add: encode_nibble_def decode_digit nibble_less)

lemma byte_of_nibbles:
  "(word_of_int (push_bit 4 (uint (drop_bit 4 (ucast b :: u32) AND 0x0f))
      OR uint ((ucast b :: u32) AND 0x0f)) :: byte) = b"
  by (rule bit_word_eqI) (auto simp: bit_simps mask_simps)

subsection \<open>The loops\<close>

lemma length_kDigits [simp]: "length kDigits = 16"
  by (simp add: kDigits_def)

lemma length_hex_encode_loop [simp]: "length (hex_encode_loop bs) = 2 * length bs"
  by (induction bs) simp_all

lemma hex_encode_loop_Nil_iff [simp]: "hex_encode_loop bs = [] \<longleftrightarrow> bs = []"
  by (cases bs) simp_all

lemma hex_encode_loop_digits: "set (hex_encode_loop bs) \<subseteq> set kDigits"
proof (induction bs)
  case (Cons b bs)
  have "encode_nibble v \<in> set kDigits" for v
    using nibble_less [of v] by (simp add: encode_nibble_def length_kDigits)
  with Cons show ?case by simp
qed simp

lemma hex_decode_encode_loop: "hex_decode_loop (hex_encode_loop bs) = Inr bs"
  by (induction bs) (simp_all add: byte_of_nibbles Let_def not_less)

lemma decode_nibble_range: "decode_nibble c \<ge> 0 \<Longrightarrow> decode_nibble c < 16"
  by (auto simp: decode_nibble_def schar_def split: if_splits)

text \<open>The lower-case spelling of a hexadecimal digit.\<close>

definition hex_lower :: "char \<Rightarrow> char" where
  "hex_lower c = (if decode_nibble c \<ge> 0 then kDigits ! nat (decode_nibble c) else c)"

lemma push_or_nibbles:
  fixes h l :: int
  assumes "0 \<le> h" and "h < 16" and "0 \<le> l" and "l < 16"
  shows "drop_bit 4 (ucast (word_of_int (push_bit 4 h OR l) :: byte) :: u32) = word_of_int h"
    and "(ucast (word_of_int (push_bit 4 h OR l) :: byte) :: u32) AND 0x0f = word_of_int l"
proof -
  have h: "take_bit 4 h = h" and l: "take_bit 4 l = l"
    using assms by (simp_all add: take_bit_int_eq_self)
  have bl: "n < 4" if "bit l n" for n
    using that by (subst (asm) l [symmetric]) (simp add: bit_take_bit_iff)
  have bh: "n < 4" if "bit h n" for n
    using that by (subst (asm) h [symmetric]) (simp add: bit_take_bit_iff)
  show "drop_bit 4 (ucast (word_of_int (push_bit 4 h OR l) :: byte) :: u32) = word_of_int h"
    by (rule bit_word_eqI) (auto simp: bit_simps dest: bh bl)
  show "(ucast (word_of_int (push_bit 4 h OR l) :: byte) :: u32) AND 0x0f = word_of_int l"
    by (rule bit_word_eqI) (auto simp: bit_simps mask_simps dest: bl bh)
qed

lemma unat_small_word_of_int:
  assumes "0 \<le> k" and "k < 16"
  shows "unat (word_of_int k :: u32) = nat k" and "(word_of_int k :: u32) AND 0x0f = word_of_int k"
  using assms by (simp_all add: mask_simps unsigned_of_int take_bit_int_eq_self
      flip: of_int_take_bit)

lemma encode_nibbles_of_byte:
  assumes "0 \<le> h" and "h < 16" and "0 \<le> l" and "l < 16"
  shows "hex_encode_loop [word_of_int (push_bit 4 h OR l)] = [kDigits ! nat h, kDigits ! nat l]"
  using assms push_or_nibbles [OF assms]
  by (simp add: encode_nibble_def unat_small_word_of_int)

lemma hex_decode_loop_Inr:
  "hex_decode_loop s = Inr bs \<longleftrightarrow>
     even (length s) \<and> (\<forall>c \<in> set s. decode_nibble c \<ge> 0) \<and> hex_encode_loop bs = map hex_lower s"
proof (induction s arbitrary: bs rule: hex_decode_loop.induct)
  case (3 c d cs)
  show ?case
  proof (cases "decode_nibble c < 0 \<or> decode_nibble d < 0")
    case True
    then show ?thesis by (auto simp: Let_def)
  next
    case False
    then have nib: "decode_nibble c \<ge> 0" "decode_nibble d \<ge> 0"
      "decode_nibble c < 16" "decode_nibble d < 16"
      using decode_nibble_range by auto
    have IH: "hex_decode_loop cs = Inr bs' \<longleftrightarrow>
       even (length cs) \<and> (\<forall>c \<in> set cs. decode_nibble c \<ge> 0) \<and> hex_encode_loop bs' = map hex_lower cs"
      for bs' using 3 False by auto
    let ?b = "word_of_int (push_bit 4 (decode_nibble c) OR decode_nibble d) :: byte"
    have enc: "hex_encode_loop (?b # bs') = hex_lower c # hex_lower d # hex_encode_loop bs'" for bs'
      using nib encode_nibbles_of_byte [of "decode_nibble c" "decode_nibble d"]
      by (simp add: hex_lower_def)
    have uniq: "b = ?b" if "hex_encode_loop (b # bs') = hex_lower c # hex_lower d # zs" for b bs' zs
    proof -
      from that enc [of "[]"] have "hex_encode_loop [b] = hex_encode_loop [?b]" by simp
      then have "hex_decode_loop (hex_encode_loop [b]) = hex_decode_loop (hex_encode_loop [?b])"
        by (rule arg_cong)
      then show ?thesis by (simp only: hex_decode_encode_loop) simp
    qed
    show ?thesis
    proof (cases bs)
      case Nil
      with nib show ?thesis by (auto simp: Let_def rbind_Inr_iff)
    next
      case (Cons b bs')
      have "hex_decode_loop (c # d # cs) = Inr bs \<longleftrightarrow> b = ?b \<and> hex_decode_loop cs = Inr bs'"
        using nib Cons by (auto simp: Let_def rbind_Inr_iff not_less)
      moreover have "hex_encode_loop bs = map hex_lower (c # d # cs) \<longleftrightarrow>
          b = ?b \<and> hex_encode_loop bs' = map hex_lower cs"
        using uniq [of b bs'] enc [of bs'] Cons by auto
      ultimately show ?thesis using nib IH by auto
    qed
  qed
qed auto

lemma hex_decode_loop_error:
  "even (length s) \<Longrightarrow> hex_decode_loop s = Inl e \<Longrightarrow>
     e = Error invalid_encoding ''hex input contains a non-hexadecimal character''"
  by (induction s rule: hex_decode_loop.induct) (auto simp: Let_def rbind_Inl_iff split: if_splits)

text \<open>Every even-length text of digits is, in lower case, the encoding of some bytes.\<close>

lemma hex_lower_encoded:
  "even (length s) \<Longrightarrow> \<forall>c \<in> set s. decode_nibble c \<ge> 0 \<Longrightarrow>
     \<exists>bs. hex_encode_loop bs = map hex_lower s"
proof (induction s rule: hex_decode_loop.induct)
  case (3 c d cs)
  have "\<exists>bs. hex_encode_loop bs = map hex_lower cs"
    by (rule "3.IH" [OF refl refl]) (use "3.prems" in auto)
  then obtain bs where bs: "hex_encode_loop bs = map hex_lower cs" by blast
  let ?b = "word_of_int (push_bit 4 (decode_nibble c) OR decode_nibble d) :: byte"
  have "hex_encode_loop [?b] = [hex_lower c, hex_lower d]"
    using 3 encode_nibbles_of_byte [of "decode_nibble c" "decode_nibble d"]
    by (simp add: decode_nibble_range hex_lower_def)
  with bs have "hex_encode_loop (?b # bs) = map hex_lower (c # d # cs)" by simp
  then show ?case by blast
qed auto

subsection \<open>The codec\<close>

interpretation hexc: codec "\<lambda>_. True" hex_encode hex_decode
  by unfold_locales
    (auto simp: hex_encode_def hex_decode_def hex_decode_encode_loop split: if_splits)

text \<open>hex text round trips. Every input up to the size the guard admits encodes to exactly two
  lower-case digits a byte, and decoding that text gives the input back.\<close>

theorem hex_roundtrip:
  assumes "length input \<le> string_max_size div 2"
  shows "\<exists>s. hex_encode input = Inr s \<and> length s = 2 * length input \<and>
           set s \<subseteq> set kDigits \<and> hex_decode s = Inr input"
proof -
  have enc: "hex_encode input = Inr (hex_encode_loop input)"
    using assms by (simp add: hex_encode_def)
  moreover have "hex_decode (hex_encode_loop input) = Inr input"
    using enc hexc.decode_encode by blast
  ultimately show ?thesis using hex_encode_loop_digits by auto
qed

theorem hex_roundtrip_witness:
  "hex_encode [0xab, 0x01] = Inr ''ab01'' \<and> hex_decode ''ab01'' = Inr [0xab, 0x01]"
proof -
  have "hex_encode_loop [0xab, 0x01] = ''ab01''"
    by code_simp
  then have enc: "hex_encode [0xab, 0x01] = Inr ''ab01''"
    by (simp add: hex_encode_def string_max_size_def)
  have "length [0xab, 0x01 :: byte] \<le> string_max_size div 2"
    by (simp add: string_max_size_def)
  from hex_roundtrip [OF this] enc show ?thesis by auto
qed

text \<open>what the strict hex decoder accepts. It returns bytes exactly when the text has even length
  and only hexadecimal digits of either case, and then the bytes are those whose encoding is the
  text in lower case; every rejection is an \<open>invalid_encoding\<close> error for one of the two reasons, so the loop
  never reads past the end of the text.\<close>

theorem hex_decode_accepts:
  "case hex_decode s of
     Inl e \<Rightarrow> code_of e = Some invalid_encoding \<and>
       (odd (length s) \<or> (\<exists>c \<in> set s. decode_nibble c < 0))
   | Inr bs \<Rightarrow> even (length s) \<and> (\<forall>c \<in> set s. decode_nibble c \<ge> 0) \<and>
       hex_encode_loop bs = map hex_lower s"
proof (cases "hex_decode s")
  case (Inl e)
  then have err: "code_of e = Some invalid_encoding"
    using hex_decode_loop_error [of s e]
    by (auto simp: hex_decode_def even_iff_mod_2_eq_zero split: if_splits)
  have "\<not> (even (length s) \<and> (\<forall>c \<in> set s. decode_nibble c \<ge> 0))"
  proof
    assume ok: "even (length s) \<and> (\<forall>c \<in> set s. decode_nibble c \<ge> 0)"
    with Inl obtain bs where "hex_encode_loop bs = map hex_lower s"
      using hex_lower_encoded by blast
    with ok have "hex_decode_loop s = Inr bs" by (simp add: hex_decode_loop_Inr)
    with ok Inl show False by (simp add: hex_decode_def even_iff_mod_2_eq_zero)
  qed
  with Inl err show ?thesis by (auto simp: not_le)
next
  case (Inr bs)
  then show ?thesis
    by (auto simp: hex_decode_def hex_decode_loop_Inr even_iff_mod_2_eq_zero split: if_splits)
qed

theorem hex_decode_accepts_witness:
  "\<exists>bs. hex_decode ''AB01'' = Inr bs \<and> hex_encode_loop bs = ''ab01''"
proof -
  have ok: "hex_decode ''AB01'' = Inr [0xab, 0x01]" and low: "map hex_lower ''AB01'' = ''ab01''"
    by code_simp+
  show ?thesis using hex_decode_accepts [of "''AB01''"] unfolding ok low by auto
qed

end
