(* ===== verification/Cli_Text.thy ===== *)
theory Cli_Text
  imports Hex
begin

section \<open>The command line: texts and numbers\<close>

text \<open>
  The parts of \<open>src/cli/commands.cpp\<close> that only compute: the usage texts, and the parsing of sizes, keys and text.
  Arguments are strings; a line ends with the character \<open>nl\<close>.
\<close>

definition nl :: char where "nl = CHR 0x0A"

definition unlines :: "string list \<Rightarrow> string" where
  "unlines ls = concat (map (\<lambda>l. l @ [nl]) ls)"

definition joined :: "string list \<Rightarrow> string" where
  "joined ls = butlast (unlines ls)"

subsection \<open>Usage\<close>

definition help_text :: string where
  "help_text = unlines
     [''Usage:'',
      ''  anosecurekit version'',
      ''  anosecurekit --version'',
      ''  anosecurekit token <byte-size>'',
      ''  anosecurekit sha256 --text <text>'',
      ''  anosecurekit sha256 --file <path>'',
      ''  anosecurekit hmac-sha256 --key-hex <hex> --text <text>'',
      ''  anosecurekit hmac-sha256 --key-hex <hex> --file <path>'',
      ''  anosecurekit hkdf-sha256 --key-hex <hex> --salt-hex <hex> --info-hex <hex> --out-size <byte-size>'',
      ''  anosecurekit hkdf-sha256 --key-hex <hex> --salt-hex <hex> --info-text <text> --out-size <byte-size>'',
      ''  anosecurekit hex-encode --text <text>'',
      ''  anosecurekit hex-decode --text <hex>'',
      ''  anosecurekit base64url-encode --text <text>'',
      ''  anosecurekit base64url-decode --text <base64url>'',
      ''  anosecurekit keygen --out <path>'',
      ''  anosecurekit wrap-key (--key-hex <64-hex>|--key-file <path>) (--wrapping-key-hex <64-hex>|--wrapping-key-file <path>) [--out <path>]'',
      ''  anosecurekit unwrap-key (--packet-hex <hex>|--packet-file <path>) (--wrapping-key-hex <64-hex>|--wrapping-key-file <path>) [--out <path>]'',
      ''  anosecurekit encrypt (--text <text>|--in <path>) (--key-hex <64-hex>|--key-file <path>) [--aad-text <text>|--aad-hex <hex>] [--out <path>]'',
      ''  anosecurekit decrypt (--packet-hex <hex>|--packet-file <path>) (--key-hex <64-hex>|--key-file <path>) [--aad-text <text>|--aad-hex <hex>] [--out <path>]'',
      ''  anosecurekit seal-file --in <path|-> --out <path|-> --key-hex <64-hex> [--aad-text <text>|--aad-hex <hex>]'',
      ''  anosecurekit open-file --in <path|-> --out <path|-> --key-hex <64-hex> [--aad-text <text>|--aad-hex <hex>]'',
      ''  anosecurekit seal-file --in <path|-> --out <path|-> --key-file <path> [--aad-text <text>|--aad-hex <hex>]'',
      ''  anosecurekit open-file --in <path|-> --out <path|-> --key-file <path> [--aad-text <text>|--aad-hex <hex>]'',
      ''  anosecurekit verify-file --in <path|-> --key-hex <64-hex> [--aad-text <text>|--aad-hex <hex>]'',
      ''  anosecurekit verify-file --in <path|-> --key-file <path> [--aad-text <text>|--aad-hex <hex>]'',
      ''  anosecurekit seal-file-password --in <path|-> --out <path|-> --password-file <path> [--aad-text <text>|--aad-hex <hex>]'',
      ''  anosecurekit open-file-password --in <path|-> --out <path|-> --password-file <path> [--aad-text <text>|--aad-hex <hex>]'',
      ''  anosecurekit verify-file-password --in <path|-> --password-file <path> [--aad-text <text>|--aad-hex <hex>]'',
      ''  anosecurekit help [command]'']"

definition version_usage :: string where
  "version_usage = joined
     [''Usage:'',
      ''  anosecurekit version'',
      ''  anosecurekit --version'']"

definition token_usage :: string where
  "token_usage = joined
     [''Usage:'',
      ''  anosecurekit token <byte-size>'']"

definition sha256_usage :: string where
  "sha256_usage = joined
     [''Usage:'',
      ''  anosecurekit sha256 --text <text>'',
      ''  anosecurekit sha256 --file <path>'']"

definition hmac_sha256_usage :: string where
  "hmac_sha256_usage = joined
     [''Usage:'',
      ''  anosecurekit hmac-sha256 --key-hex <hex> --text <text>'',
      ''  anosecurekit hmac-sha256 --key-hex <hex> --file <path>'']"

definition hkdf_sha256_usage :: string where
  "hkdf_sha256_usage = joined
     [''Usage:'',
      ''  anosecurekit hkdf-sha256 --key-hex <hex> --salt-hex <hex> --info-hex <hex> --out-size <byte-size>'',
      ''  anosecurekit hkdf-sha256 --key-hex <hex> --salt-hex <hex> --info-text <text> --out-size <byte-size>'']"

definition hex_encode_usage :: string where
  "hex_encode_usage = joined
     [''Usage:'',
      ''  anosecurekit hex-encode --text <text>'']"

definition hex_decode_usage :: string where
  "hex_decode_usage = joined
     [''Usage:'',
      ''  anosecurekit hex-decode --text <hex>'']"

definition base64url_encode_usage :: string where
  "base64url_encode_usage = joined
     [''Usage:'',
      ''  anosecurekit base64url-encode --text <text>'']"

definition base64url_decode_usage :: string where
  "base64url_decode_usage = joined
     [''Usage:'',
      ''  anosecurekit base64url-decode --text <base64url>'']"

definition keygen_usage :: string where
  "keygen_usage = joined
     [''Usage:'',
      ''  anosecurekit keygen --out <path>'']"

definition wrap_key_usage :: string where
  "wrap_key_usage = joined
     [''Usage:'',
      ''  anosecurekit wrap-key (--key-hex <64-hex>|--key-file <path>) (--wrapping-key-hex <64-hex>|--wrapping-key-file <path>) [--out <path>]'']"

definition unwrap_key_usage :: string where
  "unwrap_key_usage = joined
     [''Usage:'',
      ''  anosecurekit unwrap-key (--packet-hex <hex>|--packet-file <path>) (--wrapping-key-hex <64-hex>|--wrapping-key-file <path>) [--out <path>]'']"

definition packet_command_usage :: "string \<Rightarrow> string" where
  "packet_command_usage command =
     (if command = ''encrypt''
      then joined [''Usage:'',
      ''  anosecurekit encrypt (--text <text>|--in <path>) (--key-hex <64-hex>|--key-file <path>) [--aad-text <text>|--aad-hex <hex>] [--out <path>]'']
      else joined [''Usage:'',
      ''  anosecurekit decrypt (--packet-hex <hex>|--packet-file <path>) (--key-hex <64-hex>|--key-file <path>) [--aad-text <text>|--aad-hex <hex>] [--out <path>]''])"

definition file_command_usage :: "string \<Rightarrow> string" where
  "file_command_usage command =
     (if command = ''seal-file''
      then joined [''Usage:'',
      ''  anosecurekit seal-file --in <path|-> --out <path|-> (--key-hex <64-hex>|--key-file <path>) [--aad-text <text>|--aad-hex <hex>]'']
      else if command = ''open-file''
      then joined [''Usage:'',
      ''  anosecurekit open-file --in <path|-> --out <path|-> (--key-hex <64-hex>|--key-file <path>) [--aad-text <text>|--aad-hex <hex>]'']
      else joined [''Usage:'',
      ''  anosecurekit verify-file --in <path|-> (--key-hex <64-hex>|--key-file <path>) [--aad-text <text>|--aad-hex <hex>]''])"

definition password_file_command_usage :: "string \<Rightarrow> string" where
  "password_file_command_usage command =
     (if command = ''seal-file-password''
      then joined [''Usage:'',
      ''  anosecurekit seal-file-password --in <path|-> --out <path|-> --password-file <path> [--aad-text <text>|--aad-hex <hex>]'']
      else if command = ''open-file-password''
      then joined [''Usage:'',
      ''  anosecurekit open-file-password --in <path|-> --out <path|-> --password-file <path> [--aad-text <text>|--aad-hex <hex>]'']
      else joined [''Usage:'',
      ''  anosecurekit verify-file-password --in <path|-> --password-file <path> [--aad-text <text>|--aad-hex <hex>]''])"

text \<open>\<open>print_command_help\<close>: what it prints, if the command is known.\<close>

definition command_help :: "string \<Rightarrow> string option" where
  "command_help command =
     (if command = ''version'' then Some version_usage
      else if command = ''token'' then Some token_usage
      else if command = ''sha256'' then Some sha256_usage
      else if command = ''hmac-sha256'' then Some hmac_sha256_usage
      else if command = ''hkdf-sha256'' then Some hkdf_sha256_usage
      else if command = ''hex-encode'' then Some hex_encode_usage
      else if command = ''hex-decode'' then Some hex_decode_usage
      else if command = ''base64url-encode'' then Some base64url_encode_usage
      else if command = ''base64url-decode'' then Some base64url_decode_usage
      else if command = ''keygen'' then Some keygen_usage
      else if command = ''wrap-key'' then Some wrap_key_usage
      else if command = ''unwrap-key'' then Some unwrap_key_usage
      else if command = ''encrypt'' then Some (packet_command_usage command)
      else if command = ''decrypt'' then Some (packet_command_usage command)
      else if command = ''seal-file'' then Some (file_command_usage command)
      else if command = ''open-file'' then Some (file_command_usage command)
      else if command = ''verify-file'' then Some (file_command_usage command)
      else if command = ''seal-file-password'' then Some (password_file_command_usage command)
      else if command = ''open-file-password'' then Some (password_file_command_usage command)
      else if command = ''verify-file-password'' then Some (password_file_command_usage command)
      else None)"

subsection \<open>Text and bytes\<close>

definition bytes_from_text :: "string \<Rightarrow> bytes" where
  "bytes_from_text s = map byte_of_char s"

definition text_of_bytes :: "bytes \<Rightarrow> string" where
  "text_of_bytes bs = map char_of_byte bs"

definition is_standard_stream_marker :: "string \<Rightarrow> bool" where
  "is_standard_stream_marker v \<longleftrightarrow> v = ''-''"

subsection \<open>Keys\<close>

definition is_hex_char :: "char \<Rightarrow> bool" where
  "is_hex_char ch \<longleftrightarrow> schar ch \<ge> schar (CHR ''0'') \<and> schar ch \<le> schar (CHR ''9'') \<or>
     schar ch \<ge> schar (CHR ''a'') \<and> schar ch \<le> schar (CHR ''f'') \<or>
     schar ch \<ge> schar (CHR ''A'') \<and> schar ch \<le> schar (CHR ''F'')"

definition bad_key :: exn where
  "bad_key = Runtime_error ''key must be 64 hex characters''"

definition key_from_hex :: "string \<Rightarrow> bytes result" where
  "key_from_hex s =
     (if length s \<noteq> 64 then Inl bad_key
      else if \<not> list_all is_hex_char s then Inl bad_key
      else rbind (hex_decode s) (\<lambda>decoded. Inr (map (\<lambda>index. decoded ! index) [0..<32])))"

definition is_space :: "char \<Rightarrow> bool" where
  "is_space ch \<longleftrightarrow> ch = CHR '' '' \<or> ch = CHR 0x09 \<or> ch = CHR 0x0A \<or> ch = CHR 0x0D \<or> ch = CHR 0x0C \<or> ch = CHR 0x0B"

text \<open>The two loops of \<open>trim_ascii_whitespace\<close>, on positions.\<close>

function trim_first :: "string \<Rightarrow> nat \<Rightarrow> nat" where
  "trim_first s first = (if first < length s \<and> is_space (s ! first) then trim_first s (Suc first) else first)"
  by pat_completeness auto
termination
  by (relation "measure (\<lambda>(s, first). length s - first)") auto

fun trim_last :: "string \<Rightarrow> nat \<Rightarrow> nat \<Rightarrow> nat" where
  "trim_last s first 0 = 0"
| "trim_last s first (Suc l) = (if l \<ge> first \<and> is_space (s ! l) then trim_last s first l else Suc l)"

declare trim_first.simps [simp del]

definition trim_ascii_whitespace :: "string \<Rightarrow> string" where
  "trim_ascii_whitespace s =
     (let first = trim_first s 0; last = trim_last s first (length s) in take (last - first) (drop first s))"

subsection \<open>Sizes\<close>

definition is_digit :: "char \<Rightarrow> bool" where
  "is_digit c \<longleftrightarrow> schar (CHR ''0'') \<le> schar c \<and> schar c \<le> schar (CHR ''9'')"

definition digit_value :: "char \<Rightarrow> nat" where
  "digit_value c = nat (schar c - schar (CHR ''0''))"

definition decimal_value :: "string \<Rightarrow> nat" where
  "decimal_value ds = foldl (\<lambda>v c. v * 10 + digit_value c) 0 ds"

text \<open>
  \<open>std::from_chars\<close> for \<open>std::size_t\<close> in base ten: the value of the longest prefix of digits and what follows it, or
  an error when there is no digit or the value does not fit.
\<close>

definition from_chars :: "string \<Rightarrow> (nat \<times> string) option" where
  "from_chars s =
     (let ds = takeWhile is_digit s
      in if ds = [] \<or> decimal_value ds \<ge> 2 ^ 64 then None else Some (decimal_value ds, dropWhile is_digit s))"

definition bad_size :: exn where
  "bad_size = Runtime_error ''byte-size must be a positive decimal integer''"

definition parse_size :: "string \<Rightarrow> nat result" where
  "parse_size s =
     (if s = [] then Inl bad_size
      else case from_chars s of
        None \<Rightarrow> Inl bad_size
      | Some (value, rest) \<Rightarrow> if rest \<noteq> [] \<or> value = 0 then Inl bad_size else Inr value)"

subsection \<open>Properties\<close>

lemma drop_trim_first: "first \<le> length s \<Longrightarrow> drop (trim_first s first) s = dropWhile is_space (drop first s)"
proof (induction s first rule: trim_first.induct)
  case (1 s first)
  show ?case
  proof (cases "first < length s")
    case True
    then have "drop first s = s ! first # drop (Suc first) s" by (simp add: Cons_nth_drop_Suc)
    with 1 True show ?thesis by (cases "is_space (s ! first)") (simp_all add: trim_first.simps [of s first])
  next
    case False
    then show ?thesis by (simp add: trim_first.simps [of s first])
  qed
qed

lemma trim_first_le: "first \<le> length s \<Longrightarrow> trim_first s first \<le> length s"
  by (induction s first rule: trim_first.induct) (auto simp: trim_first.simps split: if_splits)

lemma take_trim_last:
  "first \<le> l \<Longrightarrow> l \<le> length s \<Longrightarrow> first \<le> trim_last s first l \<and>
     drop first (take (trim_last s first l) s) = rev (dropWhile is_space (rev (drop first (take l s))))"
proof (induction l)
  case (Suc l)
  show ?case
  proof (cases "first \<le> l")
    case True
    with Suc.prems(2) have "drop first (take (Suc l) s) = drop first (take l s) @ [s ! l]"
      by (simp add: take_Suc_conv_app_nth)
    with Suc True show ?thesis by (cases "is_space (s ! l)") auto
  next
    case False
    with Suc.prems have "first = Suc l" by simp
    then show ?thesis by simp
  qed
qed simp

lemma trim_whitespace_ends:
  "trim_ascii_whitespace s = rev (dropWhile is_space (rev (dropWhile is_space s)))"
proof -
  let ?first = "trim_first s 0"
  have le: "?first \<le> length s" by (rule trim_first_le) simp
  have "drop ?first s = dropWhile is_space s" using drop_trim_first [of 0 s] by simp
  with take_trim_last [OF le order.refl] show ?thesis
    by (simp add: trim_ascii_whitespace_def Let_def drop_take)
qed

text \<open>
  \<open>trim_ascii_whitespace\<close> with its two index loops removes exactly the leading and the trailing white space: it
  is the text without its longest white prefix and suffix.
\<close>

theorem trim_ascii_whitespace_correct:
  "trim_ascii_whitespace s = rev (dropWhile is_space (rev (dropWhile is_space s)))"
  by (rule trim_whitespace_ends)

lemma takeWhile_all: "takeWhile P xs = xs \<longleftrightarrow> list_all P xs"
  by (induction xs) auto

lemma takeWhile_dropWhile_Nil: "dropWhile P xs = [] \<longleftrightarrow> takeWhile P xs = xs"
  by (induction xs) auto

text \<open>
  C40: \<open>parse_size\<close> accepts exactly the decimal spellings of the sizes from 1 to \<open>2^64 - 1\<close>, leading zeros included, and
  returns their value; everything else, overflow included, is refused with the one message.
\<close>

theorem parse_size_exact:
  "parse_size s = (if list_all is_digit s \<and> 0 < decimal_value s \<and> decimal_value s < 2 ^ 64
     then Inr (decimal_value s) else Inl bad_size)"
proof (cases "list_all is_digit s")
  case True
  then have tw: "takeWhile is_digit s = s" "dropWhile is_digit s = []"
    by (simp_all only: takeWhile_all takeWhile_dropWhile_Nil)
  have "decimal_value [] = 0" by (simp add: decimal_value_def)
  then show ?thesis using True by (auto simp: parse_size_def from_chars_def Let_def tw)
next
  case False
  then have "dropWhile is_digit s \<noteq> []" by (simp only: takeWhile_all takeWhile_dropWhile_Nil) simp
  with False show ?thesis by (auto simp: parse_size_def from_chars_def Let_def split: option.splits)
qed

lemma hex_char_nibble: "is_hex_char c \<longleftrightarrow> decode_nibble c \<ge> 0"
  by (auto simp: is_hex_char_def decode_nibble_def schar_def)

lemma key_copy: "length ds = 32 \<Longrightarrow> map (\<lambda>index. ds ! index) [0..<32] = ds"
  using map_nth [of ds] by simp

text \<open>The text of a key, with white space around it, gives the key back.\<close>

lemma hex_digits_plain:
  assumes "c \<in> set (hex_encode_loop key)"
  shows "is_hex_char c \<and> \<not> is_space c"
proof -
  have "list_all (\<lambda>c. is_hex_char c \<and> \<not> is_space c) kDigits"
    by (simp add: kDigits_def is_hex_char_def is_space_def schar_def)
  with assms hex_encode_loop_digits [of key] show ?thesis by (auto simp: list_all_iff)
qed

lemma key_from_hex_encoded: "length key = 32 \<Longrightarrow> key_from_hex (hex_encode_loop key) = Inr key"
  using hex_digits_plain [of _ key]
  by (simp add: key_from_hex_def list_all_iff hex_decode_def hex_decode_encode_loop key_copy)

lemma trim_line:
  assumes "s \<noteq> []" and "\<forall>c \<in> set s. \<not> is_space c"
  shows "trim_ascii_whitespace (s @ [nl]) = s"
proof -
  have all: "dropWhile is_space (xs @ ys) = xs @ ys" if "xs \<noteq> []" "\<forall>c \<in> set xs. \<not> is_space c" for xs ys
    using that by (cases xs) simp_all
  have "dropWhile is_space (rev s) = rev s" using all [of "rev s" "[]"] assms by simp
  moreover have "is_space nl" by (simp add: is_space_def nl_def)
  ultimately show ?thesis using all [OF assms, of "[nl]"] by (simp add: trim_whitespace_ends)
qed

text \<open>
  \<open>key_from_hex\<close> accepts exactly 64 hexadecimal digits of either case, and the key it returns is the 32 bytes they
  spell: encoding it gives the text back in lower case. Everything else has the one message, and the key is never
  read beyond what was decoded.
\<close>

theorem key_from_hex_exact:
  "case key_from_hex s of
     Inr key \<Rightarrow> length s = 64 \<and> list_all is_hex_char s \<and> length key = 32 \<and> hex_encode key = Inr (map hex_lower s)
   | Inl e \<Rightarrow> e = bad_key \<and> \<not> (length s = 64 \<and> list_all is_hex_char s)"
proof (cases "length s = 64 \<and> list_all is_hex_char s")
  case True
  then have digits: "even (length s)" "\<forall>c \<in> set s. decode_nibble c \<ge> 0"
    by (auto simp: list_all_iff hex_char_nibble)
  then obtain bs where bs: "hex_encode_loop bs = map hex_lower s" using hex_lower_encoded by blast
  with digits have dec: "hex_decode s = Inr bs"
    by (simp add: hex_decode_def hex_decode_loop_Inr even_iff_mod_2_eq_zero)
  have "2 * length bs = 64" using bs True by (metis length_hex_encode_loop length_map)
  then have len: "length bs = 32" by simp
  have "key_from_hex s = Inr (map (\<lambda>index. bs ! index) [0..<32])"
    using True dec by (simp add: key_from_hex_def)
  then have "key_from_hex s = Inr bs" using key_copy [OF len] by simp
  with True len bs show ?thesis by (simp add: hex_encode_def string_max_size_def)
next
  case False
  then have "key_from_hex s = Inl bad_key" by (auto simp: key_from_hex_def)
  with False show ?thesis by simp
qed

end
