(* ===== verification/Definedness.thy ===== *)
theory Definedness
  imports Aead Key_Derivation Random_Hash Base64 Cli_Text
begin

section \<open>Operations that are always defined\<close>

text \<open>
  \<open>Undefined_behaviour\<close> marks where C++ would dereference a null pointer or read past an end. The operations that the
  files and the command line use never reach it, in any state and with any OpenSSL: they return or throw.
\<close>

definition always_defined :: "('s, exn, 'a) action \<Rightarrow> bool" where
  "always_defined m \<longleftrightarrow> (\<forall>s. defined (fst (m s)))"

named_theorems defined_intros "operations that are always defined"

lemma always_definedD: "always_defined m \<Longrightarrow> m s = (r, s') \<Longrightarrow> defined r"
  by (metis always_defined_def fst_conv)

lemma always_definedI: "(\<And>s r s'. m s = (r, s') \<Longrightarrow> defined r) \<Longrightarrow> always_defined m"
  by (metis always_defined_def surjective_pairing)

lemma defined_pure [defined_intros]:
  "always_defined (mreturn x)" "\<not> is_undefined e \<Longrightarrow> always_defined (mthrow e)" "defined r \<Longrightarrow> always_defined (mlift r)"
  "always_defined (mget f)" "always_defined (mmodify g)"
  by (simp_all add: always_defined_def mreturn_def mthrow_def mlift_def mget_def mmodify_def)

lemma defined_mbind [defined_intros]:
  assumes "always_defined m" and "\<And>x. always_defined (f x)"
  shows "always_defined (mbind m f)"
proof (rule always_definedI)
  fix s r s' assume run: "mbind m f s = (r, s')"
  obtain r1 t where 1: "m s = (r1, t)" by (metis surj_pair)
  from always_definedD [OF assms(1) 1] run 1 always_definedD [OF assms(2)] show "defined r"
    by (cases r1) (auto simp: mbind_def)
qed

lemma defined_if [defined_intros]:
  "(b \<Longrightarrow> always_defined m) \<Longrightarrow> (\<not> b \<Longrightarrow> always_defined m') \<Longrightarrow> always_defined (if b then m else m')"
  by simp

lemma defined_mzoom [defined_intros]: "always_defined m \<Longrightarrow> always_defined (mzoom get put m)"
  by (auto simp: always_defined_def mzoom_def split: prod.split) (metis fst_conv)

lemma defined_mon_error [defined_intros]: "always_defined m \<Longrightarrow> always_defined (mon_error m c)"
  by (auto simp: always_defined_def mon_error_def split: prod.split sum.split) (metis defined.simps(2) fst_conv)

lemma defined_result_if: "(b \<Longrightarrow> defined r) \<Longrightarrow> (\<not> b \<Longrightarrow> defined r') \<Longrightarrow> defined (if b then r else r')"
  by simp

lemma defined_rbind: "defined r \<Longrightarrow> (\<And>x. defined (f x)) \<Longrightarrow> defined (rbind r f)"
  by (cases r) simp_all

lemma code_defined: "code_of e = Some c \<Longrightarrow> \<not> is_undefined e"
  by (cases e) simp_all

lemma codes_defined: "code_of e \<in> {Some c, Some d} \<Longrightarrow> \<not> is_undefined e"
  by (cases e) simp_all

subsection \<open>Encodings\<close>

lemma hex_decode_loop_defined: "length s mod 2 = 0 \<Longrightarrow> defined (hex_decode_loop s)"
proof (induction s rule: hex_decode_loop.induct)
  case (3 c d cs)
  have "length cs mod 2 = 0" using 3(2) by simp
  with 3(1) show ?case by (auto simp: Let_def intro!: defined_rbind)
qed simp_all

lemma encodings_defined [defined_intros]:
  "defined (hex_encode data)" "defined (hex_decode s)" "defined (base64url_encode data)"
  by (auto simp: hex_encode_def hex_decode_def hex_decode_loop_defined base64url_encode_def base64_encode_def Let_def
      intro!: defined_rbind)

lemma base64url_decode_defined [defined_intros]: "defined (base64url_decode s)"
proof -
  have "\<not> is_undefined e" if "reject_invalid_base64url s = Inl e" for e
    using that by (auto simp: reject_invalid_base64url_def dest!: base64url_scan_error code_defined split: if_splits)
  then have 1: "defined (reject_invalid_base64url s)" by (cases "reject_invalid_base64url s") simp_all
  have 2: "defined (base64_decode x)" for x
    by (cases "base64_decode x") (auto dest!: base64_decode_error codes_defined simp del: insert_iff)
  have 3: "defined (base64url_encode x)" for x by (rule encodings_defined)
  show ?thesis
    unfolding base64url_decode_def Let_def by (auto intro!: defined_rbind 1 2 3)
qed

lemma cli_texts_defined [defined_intros]:
  "defined (key_from_hex s)" "defined (parse_size s)"
  by (auto simp: key_from_hex_def bad_key_def parse_size_def bad_size_def encodings_defined split: option.split
      intro!: defined_rbind)

subsection \<open>Random bytes, digests and keys\<close>

lemma random_bytes_defined [defined_intros]: "always_defined (random_bytes ssl n)"
  by (rule always_definedI) (drule random_bytes_result, auto split: sum.splits dest: code_defined)

lemma random_defined [defined_intros]: "always_defined (api_random_bytes ssl n)" "always_defined (api_generate_key ssl)"
proof -
  show "always_defined (api_random_bytes ssl n)" unfolding api_random_bytes_def by (rule random_bytes_defined)
  show "always_defined (api_generate_key ssl)"
  proof (rule always_definedI)
    fix s r s' assume "api_generate_key ssl s = (r, s')"
    then show "defined r"
      using fill_random_result [where ssl = ssl and secret = True and n = 32 and s = s]
      by (cases r) (auto simp: api_generate_key_def generate_key_def split: prod.splits dest: code_defined)
  qed
qed

lemma key_failures_defined [simp]:
  "\<not> is_undefined sha256_failure" "\<not> is_undefined hkdf_failure" "\<not> is_undefined hmac_failure"
  by (simp_all add: sha256_failure_def hkdf_failure_def hmac_failure_def)

lemma digests_defined [defined_intros]:
  "always_defined (api_sha256 ssl data)" "always_defined (api_hmac_sha256 ssl key data)"
  "always_defined (api_hkdf_sha256 ssl km salt info n)"
proof -
  show "always_defined (api_sha256 ssl data)" unfolding api_sha256_def
    by (rule always_definedI) (drule key_derivation_results(1), auto split: sum.splits)
  show "always_defined (api_hmac_sha256 ssl key data)" unfolding api_hmac_sha256_def
    by (rule always_definedI) (drule key_derivation_results(3), auto split: sum.splits)
  show "always_defined (api_hkdf_sha256 ssl km salt info n)" unfolding api_hkdf_sha256_def
    by (rule always_definedI) (drule key_derivation_results(2), auto split: sum.splits)
qed

lemma random_token_defined [defined_intros]: "always_defined (random_token ssl n)"
  unfolding random_token_def by (intro defined_intros) simp

lemma file_keys_defined [defined_intros]:
  "always_defined (make_header ssl)" "always_defined (make_password_header ssl)"
  "always_defined (derive_file_key ssl key h)" "always_defined (derive_password_file_key ssl password h')"
proof -
  show "always_defined (make_header ssl)" unfolding make_header_def Let_def by (intro defined_intros)
  show "always_defined (make_password_header ssl)" unfolding make_password_header_def Let_def by (intro defined_intros)
  show "always_defined (derive_file_key ssl key h)"
    by (rule always_definedI) (drule derive_file_key_result, auto split: sum.splits dest: code_defined)
  show "always_defined (derive_password_file_key ssl password h')"
    by (rule always_definedI) (drule derive_password_file_key_result, auto split: sum.splits dest: code_defined)
qed

lemma file_packet_error_defined [simp]: "\<not> is_undefined file_packet_error"
  by (simp add: file_packet_error_def)

lemma parsed_defined [defined_intros]:
  "defined (parse_header data)" "defined (parse_password_header data)" "defined (parse_record_header data)"
  "defined (require_non_empty_password password)"
  by (simp_all add: parse_header_def parse_password_header_def parse_record_header_def require_non_empty_password_def Let_def)

text \<open>The one-shot operations: every error they throw is named in the code.\<close>

lemma plain_or_result:
  "defined (case x of (Inl e, c) \<Rightarrow> Inl e | (Inr u, c) \<Rightarrow> f u c) \<longleftrightarrow>
     (\<forall>e c. x = (Inl e, c) \<longrightarrow> \<not> is_undefined e) \<and> (\<forall>u c. x = (Inr u, c) \<longrightarrow> defined (f u c))"
  by (auto split: prod.split sum.split)

lemma initialised_defined:
  assumes "\<And>e c'. init = (Inl e, c') \<Longrightarrow> \<not> is_undefined e" and "\<And>c'. always_defined (f c')"
  shows "always_defined (case init of (Inl e, c') \<Rightarrow> mthrow e | (Inr u, c') \<Rightarrow> f c')"
  using assms by (auto simp: always_defined_def mthrow_def split: prod.split sum.split)

lemma defined_case_call [defined_intros]:
  "(\<And>a b d c. always_defined (f a b d c)) \<Longrightarrow> always_defined (case p of ((a, b, d), c) \<Rightarrow> f a b d c)"
  "(\<And>a b c. always_defined (g a b c)) \<Longrightarrow> always_defined (case q of ((a, b), c) \<Rightarrow> g a b c)"
  by (auto split: prod.split)

lemma chunks_defined [defined_intros]:
  "always_defined (encrypt_chunk ssl p key nonce aad)" "always_defined (decrypt_chunk ssl ct tag key nonce aad)"
proof -
  have size: "defined (int_size n name)" for n name by (simp add: int_size_def)
  have ctx: "always_defined (make_aes256_gcm_context ssl)"
  proof (rule always_definedI)
    fix s r s' assume "make_aes256_gcm_context ssl s = (r, s')"
    from make_context_result [OF this] show "defined r" by (cases r) auto
  qed
  have init: "\<not> is_undefined e" if "initialize_encrypt_context ssl key nonce c = (Inl e, c')" for c e c'
    using plain_error_init(1) [OF that] by simp
  have feed: "\<not> is_undefined e" if "update_aad_impl ssl aad c = (Inl e, c')" for c e c'
    using plain_error_update_aad [OF that] by (rule plain_error_defined)
  show "always_defined (encrypt_chunk ssl p key nonce aad)"
    unfolding encrypt_chunk_def aes256_gcm_encrypt_def Let_def
    by (intro defined_intros size ctx initialised_defined init feed not_undefined)
  have "\<not> is_undefined authentication_failure" by (simp add: authentication_failure_def)
  then show "always_defined (decrypt_chunk ssl ct tag key nonce aad)"
    unfolding decrypt_chunk_def
    by (intro always_definedI) (metis aes256_gcm_decrypt_error defined.elims(3) plain_error_defined)
qed

subsection \<open>Packets\<close>

text \<open>Member functions called on an object that satisfies its invariant.\<close>

definition member_defined :: "(('c, 'o) packet_object, exn, 'a) action \<Rightarrow> bool" where
  "member_defined m \<longleftrightarrow> (\<forall>st r st'. object_ok st \<longrightarrow> m st = (r, st') \<longrightarrow> object_ok st' \<and> defined r)"

lemma member_definedD: "member_defined m \<Longrightarrow> object_ok st \<Longrightarrow> m st = (r, st') \<Longrightarrow> object_ok st' \<and> defined r"
  unfolding member_defined_def by blast

lemma member_definedI:
  "(\<And>st r st'. object_ok st \<Longrightarrow> m st = (r, st') \<Longrightarrow> object_ok st' \<and> defined r) \<Longrightarrow> member_defined m"
  unfolding member_defined_def by blast

lemma member_mbind:
  assumes m: "member_defined m" and f: "\<And>x. member_defined (f x)"
  shows "member_defined (mbind m f)"
  unfolding member_defined_def
proof (intro allI impI)
  fix st r st' assume ok: "object_ok st" and run: "mbind m f st = (r, st')"
  obtain r1 st1 where 1: "m st = (r1, st1)" by (meson surj_pair)
  note step = member_definedD [OF m ok 1]
  show "object_ok st' \<and> defined r"
  proof (cases r1)
    case (Inl e)
    with run 1 step show ?thesis by (auto simp: mbind_def)
  next
    case (Inr x)
    with run 1 have "f x st1 = (r, st')" by (simp add: mbind_def)
    from member_definedD [OF f _ this] step show ?thesis by blast
  qed
qed

lemma members_defined:
  "member_defined (encryptor_begin ssl)" "member_defined (encryptor_update ssl p)" "member_defined (encryptor_finalize ssl)"
  "member_defined (decryptor_update ssl p)" "member_defined (decryptor_finalize ssl tag)" "member_defined (mreturn x)"
  by (rule member_definedI, erule encs.call_ok [where c = "Begin []", unfolded encryptor_call.simps], assumption)
    (rule member_definedI, erule encs.call_ok [where c = "Update p", unfolded encryptor_call.simps], assumption,
     rule member_definedI, erule encs.call_ok [where c = "Finalize []", unfolded encryptor_call.simps], assumption,
     rule member_definedI, erule decs.call_ok [where c = "Update p", unfolded decryptor_call.simps], assumption,
     rule member_definedI, erule decs.call_ok [where c = "Finalize tag", unfolded decryptor_call.simps], assumption,
     simp add: member_defined_def mreturn_def)

lemma decryptor_begin_member: "member_defined (decryptor_begin ssl packet_prefix)"
  unfolding member_defined_def
proof (intro allI impI)
  fix st and r st'
  assume ok: "object_ok st" and run: "decryptor_begin ssl packet_prefix st = (r, st')"
  obtain x where call: "decryptor_call ssl (Begin packet_prefix) st = (x, st') \<and> (defined x \<longrightarrow> defined r)"
    using run by (cases r) (auto simp: mbind_def mreturn_def)
  from decs.call_ok [OF ok conjunct1 [OF call]] call show "object_ok st' \<and> defined r" by blast
qed

text \<open>A block with a local object.\<close>

lemma packet_scope_defined:
  fixes body :: "(('c, 'o) packet_object, exn, 'a) action"
  assumes "member_defined body"
  shows "always_defined (packet_scope key aad body)"
proof (rule always_definedI)
  fix s r s' assume run: "packet_scope key aad body s = (r, s')"
  obtain r1 :: "exn + 'c packet_impl option" and s1 where 1: "new_packet_impl key aad s = (r1, s1)" by (meson surj_pair)
  show "defined r"
  proof (cases r1)
    case (Inl e)
    with 1 have "\<not> is_undefined e"
      by (auto simp: new_packet_impl_def check_update_size_def action_iffs mlift_def split: if_splits)
    moreover have "r = Inl e" using run 1 Inl by (simp add: packet_scope_def mbind_def)
    ultimately show ?thesis by simp
  next
    case (Inr obj)
    obtain r2 st2 where 2: "body (obj, s1) = (r2, st2)" by (meson surj_pair)
    have "object_ok (obj, s1)" using 1 Inr by (auto simp: new_packet_impl_iff stream_ok_def)
    from member_definedD [OF assms this 2] have "defined r2" ..
    moreover have "r = r2" using run 1 2 Inr by (auto simp: packet_scope_def mbind_def split: prod.splits)
    ultimately show ?thesis by simp
  qed
qed

lemma packets_defined [defined_intros]:
  "always_defined (encrypt ssl p key aad)" "always_defined (decrypt ssl packet key aad)"
  "always_defined (wrap_key ssl k wk aad)" "always_defined (unwrap_key ssl packet wk aad)"
proof -
  show enc: "always_defined (encrypt ssl p key aad)" for p key aad
    unfolding encrypt_def by (intro packet_scope_defined member_mbind members_defined)
  then show "always_defined (wrap_key ssl k wk aad)" by (simp add: wrap_key_def)
  have fin: "member_defined (mon_error (decryptor_finalize ssl tag) (\<lambda>(obj, s). (obj, retire buf s)))" for tag buf
  proof -
    have "member_defined (mon_error m (\<lambda>(obj, s). (obj, retire buf s)))" if m: "member_defined m"
      for m
      unfolding member_defined_def
    proof (intro allI impI)
      fix st and r st'
      assume ok: "object_ok st" and run: "mon_error m (\<lambda>(obj, s). (obj, retire buf s)) st = (r, st')"
      obtain r1 obj s1 where 1: "m st = (r1, (obj, s1))" by (metis surj_pair)
      from member_definedD [OF m ok 1] run 1 show "object_ok st' \<and> defined r"
        by (cases obj; cases r1) (auto simp: mon_error_def)
    qed
    then show ?thesis using members_defined(5) by blast
  qed
  have keeps: "object_ok (obj, s) = object_ok (obj, s')" for obj and s s' by (cases obj) simp_all
  have rel: "member_defined (mmodify (\<lambda>(obj, s). (obj, retire buf s)))" for buf
    unfolding member_defined_def using keeps by (auto simp: mmodify_def)
  have valid: "defined (require_valid_packet packet)" for packet
    by (simp add: require_valid_packet_def require_valid_prefix_def packet_error_def)
  show dec: "always_defined (decrypt ssl packet key aad)" for packet key aad
    unfolding decrypt_def Let_def
    by (intro defined_intros valid packet_scope_defined member_mbind members_defined decryptor_begin_member fin rel)
  have wipe: "always_defined (wipe_on_exit buf m)" if "always_defined m" for buf m
    using that by (simp add: always_defined_def wipe_on_exit_def case_prod_beta)
  show "always_defined (unwrap_key ssl packet wk aad)"
    unfolding unwrap_key_def by (intro defined_intros dec wipe) simp
qed

end
