(* ===== verification/Sink_Invariant.thy ===== *)
theory Sink_Invariant
  imports File_Streams Definedness
begin

section \<open>Invariants of the output\<close>

text \<open>
  What the payload loops do to an output they do through its write operation. So whatever every write
  preserves, the loops preserve, however they end; and when the writes are defined, so are the loops.
\<close>

definition keeps_sink :: "('out \<Rightarrow> bool) \<Rightarrow> (('out, 'o) transfer, exn, 'a) action \<Rightarrow> bool" where
  "keeps_sink kept m \<longleftrightarrow> (\<forall>s r s'. kept (sink s) \<longrightarrow> m s = (r, s') \<longrightarrow>
     kept (sink s') \<and> defined r)"

named_theorems keeps_intros "rules for actions that preserve an invariant of the output"

lemma keeps_sinkD: "keeps_sink kept m \<Longrightarrow> kept (sink s) \<Longrightarrow> m s = (r, s') \<Longrightarrow> kept (sink s')"
  by (auto simp: keeps_sink_def)

lemma keeps_sink_defined: "keeps_sink kept m \<Longrightarrow> kept (sink s) \<Longrightarrow> m s = (r, s') \<Longrightarrow> defined r"
  by (auto simp: keeps_sink_def)

lemma keeps_sinkI:
  "(\<And>s r s'. kept (sink s) \<Longrightarrow> m s = (r, s') \<Longrightarrow> kept (sink s') \<and> defined r) \<Longrightarrow> keeps_sink kept m"
  by (auto simp: keeps_sink_def)

lemma keeps_mbind [keeps_intros]:
  assumes m: "keeps_sink kept m" and f: "\<And>x. keeps_sink kept (f x)"
  shows "keeps_sink kept (mbind m f)"
proof (rule keeps_sinkI)
  fix s r s' assume s: "kept (sink s)" and run: "mbind m f s = (r, s')"
  obtain r1 t where 1: "m s = (r1, t)" by fastforce
  note step = keeps_sinkD [OF m s 1] keeps_sink_defined [OF m s 1]
  show "kept (sink s') \<and> defined r"
  proof (cases r1)
    case (Inl e)
    with run 1 step show ?thesis by (auto simp: mbind_def)
  next
    case (Inr x)
    with run 1 have "f x t = (r, s')" by (simp add: mbind_def)
    from keeps_sinkD [OF f step(1) this] keeps_sink_defined [OF f step(1) this] show ?thesis ..
  qed
qed

lemma keeps_pure [keeps_intros]:
  "keeps_sink kept (mreturn x)" "\<not> is_undefined e \<Longrightarrow> keeps_sink kept (mthrow e)" "defined r \<Longrightarrow> keeps_sink kept (mlift r)"
  "\<not> is_undefined e \<Longrightarrow> keeps_sink kept (mguard b e)" "keeps_sink kept (mget g)"
  by (auto simp: keeps_sink_def mreturn_def mthrow_def mlift_def mguard_def mget_def split: if_splits)

lemma keeps_parts [keeps_intros]:
  "keeps_sink kept (on_source h)" "always_defined m \<Longrightarrow> keeps_sink kept (source_action m)"
  "always_defined m' \<Longrightarrow> keeps_sink kept (crypto_action m')"
  by (auto simp: keeps_sink_def transfer_iffs dest: always_definedD)

lemma keeps_wipe [keeps_intros]: "keeps_sink kept m \<Longrightarrow> keeps_sink kept (wipe_after buf m)"
  by (auto simp: keeps_sink_def transfer_iffs)

lemma keeps_if [keeps_intros]: "keeps_sink kept m \<Longrightarrow> keeps_sink kept m' \<Longrightarrow> keeps_sink kept (if b then m else m')"
  by simp

lemma keeps_case_prod [keeps_intros]: "(\<And>x y. keeps_sink kept (f x y)) \<Longrightarrow> keeps_sink kept (case p of (x, y) \<Rightarrow> f x y)"
  by (cases p) simp

lemma stream_errors_defined [simp]: "\<not> is_undefined read_failed" "\<not> is_undefined write_failed" "\<not> is_undefined too_large"
  by (simp_all add: read_failed_def write_failed_def too_large_def)

lemma readers_defined [defined_intros]: "always_defined (read_or_reject n)" "always_defined reject_trailing_data"
  by (auto simp: always_defined_def read_or_reject_def read_exact_def reject_trailing_data_def mbind_def mthrow_def mreturn_def
      split: prod.splits sum.splits option.splits)

locale sink_invariant =
  fixes put :: "'out put" and kept :: "'out \<Rightarrow> bool"
  assumes put_keeps: "kept out \<Longrightarrow> put data out = (r, out') \<Longrightarrow> kept out' \<and> defined r"
begin

lemma keeps_put [keeps_intros]: "keeps_sink kept (sink_action (put data))"
  using put_keeps by (auto simp: keeps_sink_def transfer_iffs)

lemma seal_chunk_keeps: "keeps_sink kept (seal_chunk ssl put hdr np key aad idx)"
  unfolding seal_chunk_def seal_is_final_def Let_def by (intro keeps_intros keeps_put defined_intros stream_errors_defined)

lemma open_chunk_keeps: "keeps_sink kept (open_chunk ssl put hdr np key aad idx)"
  unfolding open_chunk_def Let_def by (intro keeps_intros keeps_put defined_intros file_packet_error_defined)

lemma seal_loop_keeps: "kept (sink s) \<Longrightarrow> seal_loop ssl put hdr np key aad idx s = (r, s') \<Longrightarrow>
  kept (sink s') \<and> defined r"
proof (induction "length (remaining (source s))" arbitrary: idx s rule: less_induct)
  case less
  obtain r1 s1 where turn: "seal_chunk ssl put hdr np key aad idx s = (r1, s1)" by fastforce
  from keeps_sinkD [OF seal_chunk_keeps less.prems(1) turn] keeps_sink_defined [OF seal_chunk_keeps less.prems(1) turn]
  have kept: "kept (sink s1)" "defined r1" .
  show ?case
  proof (cases "r1 = Inr False \<and> idx \<noteq> - 1")
    case True
    with turn less.prems(2) have "seal_loop ssl put hdr np key aad (idx + 1) s1 = (r, s')"
      by (simp add: seal_loop.simps [of ssl put hdr np key aad idx s])
    with True turn kept less.hyps seal_chunk_consumes show ?thesis by metis
  next
    case False
    with turn less.prems(2) kept show ?thesis
      by (auto simp: seal_loop.simps [of ssl put hdr np key aad idx s] split: sum.splits if_splits)
  qed
qed

lemma open_loop_keeps: "kept (sink s) \<Longrightarrow> open_loop ssl put hdr np key aad idx s = (r, s') \<Longrightarrow>
  kept (sink s') \<and> defined r"
proof (induction "length (remaining (source s))" arbitrary: idx s rule: less_induct)
  case less
  obtain r1 s1 where turn: "open_chunk ssl put hdr np key aad idx s = (r1, s1)" by fastforce
  from keeps_sinkD [OF open_chunk_keeps less.prems(1) turn] keeps_sink_defined [OF open_chunk_keeps less.prems(1) turn]
  have kept: "kept (sink s1)" "defined r1" .
  show ?case
  proof (cases "r1 = Inr False \<and> idx \<noteq> - 1")
    case True
    with turn less.prems(2) have "open_loop ssl put hdr np key aad (idx + 1) s1 = (r, s')"
      by (simp add: open_loop.simps [of ssl put hdr np key aad idx s])
    with True turn kept less.hyps open_chunk_consumes show ?thesis by metis
  next
    case False
    with turn less.prems(2) kept show ?thesis
      by (auto simp: open_loop.simps [of ssl put hdr np key aad idx s] split: sum.splits if_splits)
  qed
qed

lemma payloads_keep [keeps_intros]:
  "keeps_sink kept (seal_stream_payload ssl put hdr np key aad)"
  "keeps_sink kept (open_file_payload ssl put hdr np key aad)"
  unfolding seal_stream_payload_def open_file_payload_def
  by (intro keeps_intros keeps_put keeps_sinkI; elim seal_loop_keeps; assumption)
    (intro keeps_sinkI; elim open_loop_keeps; assumption)

lemma open_with_keeps:
  assumes "\<And>data. defined (parse data)" and "\<And>h. always_defined (derive h)"
  shows "keeps_sink kept (open_with ssl put n parse serialized prefix derive aad)"
  unfolding open_with_def by (intro keeps_intros payloads_keep defined_intros assms)

lemma seal_with_keeps:
  assumes "always_defined create" and "\<And>h. always_defined (derive h)"
  shows "keeps_sink kept (seal_with ssl put create serialized prefix derive aad)"
  unfolding seal_with_def by (intro keeps_intros payloads_keep assms)

lemmas opening_keeps = open_with_keeps [OF parsed_defined(1) file_keys_defined(3)]
  open_with_keeps [OF parsed_defined(2) file_keys_defined(4)]
  seal_with_keeps [OF file_keys_defined(1,3)] seal_with_keeps [OF file_keys_defined(2,4)]

end

end
