(* ===== verification/File_Ops.thy ===== *)
theory File_Ops
  imports File_System Sink_Invariant
begin

section \<open>Sealing and opening files\<close>

text \<open>
  The path overloads of \<open>src/file.cpp\<close> and \<open>open_unique_temp_output\<close> of \<open>src/file_io.cpp\<close>. They write to a
  temporary file beside the output and link it to the output name when everything has succeeded. The
  state is the file system and the runtime; inside the scope of the \<open>OutputFile\<close> it is a \<open>transfer\<close> whose sink
  is that object with the file system.
\<close>

record 'o system =
  disk :: file_system
  rt :: "'o runtime"

definition disk_action :: "(file_system, exn, 'a) action \<Rightarrow> ('o system, exn, 'a) action" where
  "disk_action m = mzoom disk (\<lambda>d s. s\<lparr>disk := d\<rparr>) m"

definition rt_action :: "('o runtime, exn, 'a) action \<Rightarrow> ('o system, exn, 'a) action" where
  "rt_action m = mzoom rt (\<lambda>c s. s\<lparr>rt := c\<rparr>) m"

definition wipe_key_after :: "bytes \<Rightarrow> ('o system, exn, 'a) action \<Rightarrow> ('o system, exn, 'a) action" where
  "wipe_key_after key m s = (case m s of (r, s') \<Rightarrow> (r, s'\<lparr>rt := retire (secure_wipe key) (rt s')\<rparr>))"

text \<open>The attempts left of \<open>kMaxAttempts\<close>. A temporary object that was not opened is destroyed empty.\<close>

fun open_attempts :: "('o, 'c) openssl \<Rightarrow> path \<Rightarrow> nat \<Rightarrow> ('o system, exn, OutputFile) action" where
  "open_attempts ssl output 0 = mthrow (Error backend_failure ''Temporary file creation failed'')"
| "open_attempts ssl output (Suc attempts) =
     mbind (rt_action (make_unique_temp_path ssl output)) (\<lambda>p.
     mbind (disk_action (\<lambda>d. case try_open_output_exclusive p (default_OutputFile, d) of
         (result, (temp, d')) \<Rightarrow> (Inr (result, temp), d'))) (\<lambda>(result, temp).
       case result of
         opened \<Rightarrow> mreturn (fst (move_OutputFile temp))
       | failed \<Rightarrow> mthrow (Error backend_failure ''File open failed'')
       | already_exists \<Rightarrow> open_attempts ssl output attempts))"

definition open_unique_temp_output :: "('o, 'c) openssl \<Rightarrow> path \<Rightarrow> ('o system, exn, OutputFile) action" where
  "open_unique_temp_output ssl output = open_attempts ssl output 32"

text \<open>
  The scope of a local \<open>OutputFile out\<close>; its destructor runs at the end. The input stream of the scope is
  declared later, by \<open>open_source\<close>.
\<close>

definition with_output ::
  "OutputFile \<Rightarrow> ((output_state, 'o) transfer, exn, 'a) action \<Rightarrow> ('o system, exn, 'a) action" where
  "with_output out m s =
     (case m \<lparr>source = fresh_istream [], sink = (out, disk s), crypto = rt s\<rparr> of
        (r, t) \<Rightarrow> (r, \<lparr>disk = destroy_OutputFile (sink t), rt = crypto t\<rparr>))"

definition on_files :: "(file_system, exn, 'a) action \<Rightarrow> (output_state, exn, 'a) action" where
  "on_files m = mzoom snd (\<lambda>d st. (fst st, d)) m"

text \<open>\<open>std::ifstream in = open_input(input);\<close>\<close>

definition open_source :: "path \<Rightarrow> ((output_state, 'o) transfer, exn, unit) action" where
  "open_source input =
     mbind (sink_action (on_files (open_input input))) (\<lambda>i. mmodify (\<lambda>s. s\<lparr>source := i\<rparr>))"

text \<open>The handler: \<open>out.discard(); remove_quietly(temp_path); throw;\<close>\<close>

definition abandon :: "path \<Rightarrow> (output_state, 'o) transfer \<Rightarrow> (output_state, 'o) transfer" where
  "abandon temp_path s = (case discard (sink s) of (out, d) \<Rightarrow> s\<lparr>sink := (out, remove_quietly temp_path d)\<rparr>)"

definition seal_file_payload ::
  "('o, 'c) openssl \<Rightarrow> path \<Rightarrow> path \<Rightarrow> bytes \<Rightarrow> bytes \<Rightarrow> bytes \<Rightarrow> bytes \<Rightarrow> ('o system, exn, unit) action" where
  "seal_file_payload ssl input output serialized_header nonce_prefix key aad =
     mbind (open_unique_temp_output ssl output) (\<lambda>out.
     let temp_path = out_path out
     in with_output out (mon_error
       (mbind (open_source input) (\<lambda>_.
        mbind (seal_stream_payload ssl OutputFile_write serialized_header nonce_prefix key aad) (\<lambda>_.
        mbind (sink_action OutputFile_flush) (\<lambda>_.
        mbind (sink_action OutputFile_close) (\<lambda>_.
        sink_action (on_files (commit_temp_file temp_path output)))))))
       (abandon temp_path)))"

definition seal_file ::
  "('o, 'c) openssl \<Rightarrow> path \<Rightarrow> path \<Rightarrow> bytes \<Rightarrow> bytes \<Rightarrow> ('o system, exn, unit) action" where
  "seal_file ssl input output key aad =
     mbind (disk_action (ensure_output_does_not_exist output)) (\<lambda>_.
     mbind (rt_action (make_header ssl)) (\<lambda>header.
     mbind (rt_action (derive_file_key ssl key header)) (\<lambda>file_key.
     wipe_key_after file_key
       (seal_file_payload ssl input output (fh_serialized header) (fh_nonce_prefix header) file_key aad))))"

definition open_file ::
  "('o, 'c) openssl \<Rightarrow> path \<Rightarrow> path \<Rightarrow> bytes \<Rightarrow> bytes \<Rightarrow> ('o system, exn, unit) action" where
  "open_file ssl input output key aad =
     mbind (disk_action (ensure_output_does_not_exist output)) (\<lambda>_.
     mbind (open_unique_temp_output ssl output) (\<lambda>out.
     let temp_path = out_path out
     in with_output out (mon_error
       (mbind (open_source input) (\<lambda>_.
        mbind (source_action (read_or_reject kHeaderSize)) (\<lambda>header_bytes.
        mbind (mlift (parse_header header_bytes)) (\<lambda>header.
        mbind (crypto_action (derive_file_key ssl key header)) (\<lambda>file_key.
        wipe_after file_key
          (mbind (open_file_payload ssl OutputFile_write (fh_serialized header) (fh_nonce_prefix header) file_key aad) (\<lambda>_.
           mbind (sink_action OutputFile_flush) (\<lambda>_.
           mbind (sink_action OutputFile_close) (\<lambda>_.
           sink_action (on_files (commit_temp_file temp_path output)))))))))))
       (abandon temp_path))))"

definition seal_file_with_password ::
  "('o, 'c) openssl \<Rightarrow> path \<Rightarrow> path \<Rightarrow> bytes \<Rightarrow> bytes \<Rightarrow> ('o system, exn, unit) action" where
  "seal_file_with_password ssl input output password aad =
     mbind (mlift (require_non_empty_password password)) (\<lambda>_.
     mbind (disk_action (ensure_output_does_not_exist output)) (\<lambda>_.
     mbind (rt_action (make_password_header ssl)) (\<lambda>header.
     mbind (rt_action (derive_password_file_key ssl password header)) (\<lambda>file_key.
     wipe_key_after file_key
       (seal_file_payload ssl input output (ph_serialized header) (ph_nonce_prefix header) file_key aad)))))"

definition open_file_with_password ::
  "('o, 'c) openssl \<Rightarrow> path \<Rightarrow> path \<Rightarrow> bytes \<Rightarrow> bytes \<Rightarrow> ('o system, exn, unit) action" where
  "open_file_with_password ssl input output password aad =
     mbind (mlift (require_non_empty_password password)) (\<lambda>_.
     mbind (disk_action (ensure_output_does_not_exist output)) (\<lambda>_.
     mbind (open_unique_temp_output ssl output) (\<lambda>out.
     let temp_path = out_path out
     in with_output out (mon_error
       (mbind (open_source input) (\<lambda>_.
        mbind (source_action (read_or_reject kPasswordHeaderSize)) (\<lambda>header_bytes.
        mbind (mlift (parse_password_header header_bytes)) (\<lambda>header.
        mbind (crypto_action (derive_password_file_key ssl password header)) (\<lambda>file_key.
        wipe_after file_key
          (mbind (open_file_payload ssl OutputFile_write (ph_serialized header) (ph_nonce_prefix header) file_key aad) (\<lambda>_.
           mbind (sink_action OutputFile_flush) (\<lambda>_.
           mbind (sink_action OutputFile_close) (\<lambda>_.
           sink_action (on_files (commit_temp_file temp_path output)))))))))))
       (abandon temp_path)))))"

subsection \<open>The common course\<close>

definition finish :: "path \<Rightarrow> path \<Rightarrow> (output_state, exn, unit) action" where
  "finish temp_path output =
     mbind OutputFile_flush (\<lambda>_. mbind OutputFile_close (\<lambda>_. on_files (commit_temp_file temp_path output)))"

definition file_job ::
  "('o, 'c) openssl \<Rightarrow> path \<Rightarrow> path \<Rightarrow> ((output_state, 'o) transfer, exn, unit) action \<Rightarrow> ('o system, exn, unit) action" where
  "file_job ssl input output m =
     mbind (open_unique_temp_output ssl output) (\<lambda>out.
       with_output out (mon_error
         (mbind (open_source input) (\<lambda>_. mbind m (\<lambda>_. sink_action (finish (out_path out) output))))
         (abandon (out_path out))))"

lemma sink_action_mbind: "mbind (sink_action m) (\<lambda>x. sink_action (f x)) = sink_action (mbind m f)"
  by (rule ext) (auto simp: mbind_def sink_action_def mzoom_def split: prod.split sum.split)

lemma sink_action_finish:
  "mbind (sink_action OutputFile_flush) (\<lambda>_. mbind (sink_action OutputFile_close)
     (\<lambda>_. sink_action (on_files (commit_temp_file temp_path output)))) = sink_action (finish temp_path output)"
  by (simp add: finish_def sink_action_mbind)

text \<open>Wiping the key after the output is finished, or before, makes no difference.\<close>

lemma wipe_then_sink:
  "wipe_after buf (mbind m (\<lambda>_. sink_action a)) = mbind (wipe_after buf m) (\<lambda>_. sink_action a)"
  by (rule ext) (auto simp: mbind_def wipe_after_def sink_action_def mzoom_def split: prod.split sum.split)

lemma path_overloads:
  "seal_file_payload ssl input output hdr np key aad =
     file_job ssl input output (seal_stream_payload ssl OutputFile_write hdr np key aad)"
  "open_file ssl input output key aad =
     mbind (disk_action (ensure_output_does_not_exist output)) (\<lambda>_. file_job ssl input output
       (open_with ssl OutputFile_write 50 parse_header fh_serialized fh_nonce_prefix (derive_file_key ssl key) aad))"
  "password \<noteq> [] \<Longrightarrow> open_file_with_password ssl input output password aad =
     mbind (disk_action (ensure_output_does_not_exist output)) (\<lambda>_. file_job ssl input output
       (open_with ssl OutputFile_write 64 parse_password_header ph_serialized ph_nonce_prefix
         (derive_password_file_key ssl password) aad))"
  by (simp_all add: seal_file_payload_def open_file_def open_file_with_password_def file_job_def open_with_def Let_def
      sink_action_finish wipe_then_sink mbind_assoc require_non_empty_password_def mlift_Inr)

end
