(* ===== verification/File_Correct.thy ===== *)
theory File_Correct
  imports File_Ops
begin

section \<open>Files are never overwritten and never half written\<close>

text \<open>
  What the path overloads do to the file system: the temporary output, its commit, and the whole operation, first for
  any payload and then for the four operations.
\<close>

subsection \<open>Taking a temporary output\<close>

lemma create_file_keeps:
  assumes "names s p = None"
  shows "keeps_files s (create_file p data s)"
  using assms by (auto simp: keeps_files_def create_file_def fs_ok_def less_Suc_eq)

text \<open>A fresh file \<open>i\<close> named \<open>p\<close> has been added, open and empty.\<close>

definition temp_opened :: "path \<Rightarrow> nat \<Rightarrow> OutputFile \<Rightarrow> file_system \<Rightarrow> file_system \<Rightarrow> bool" where
  "temp_opened p i out s t \<longleftrightarrow> keeps_files s t \<and> out = \<lparr>out_path = p, out_file = Some \<lparr>inode = i, buffered = []\<rparr>\<rparr> \<and>
     fresh s \<le> i \<and> i < fresh t \<and> contents t i = [] \<and> names s p = None \<and> names t p = Some i \<and>
     (quiet s \<longrightarrow> names t = (names s)(p := Some i))"

lemma try_open_spec:
  assumes "try_open_output_exclusive p (default_OutputFile, s) = (result, (out, t))"
  shows "keeps_files s t \<and> (quiet s \<longrightarrow> (\<forall>q. q \<noteq> p \<longrightarrow> names t q = names s q)) \<and> (case result of
      opened \<Rightarrow> \<exists>i. temp_opened p i out s t
    | already_exists \<Rightarrow> (quiet s \<longrightarrow> names t = names s \<and> names s p \<noteq> None)
    | failed \<Rightarrow> \<not> no_faults s)"
proof -
  obtain fault s1 where c: "system_call s = (fault, s1)" by fastforce
  note e = conjunct1 [OF system_call_evolves [OF c]] and f = conjunct2 [OF system_call_evolves [OF c]]
  have k: "keeps_files s s1" using e by (rule evolves_keeps_files)
  consider (fail) "fault \<noteq> None" | (exists) "fault = None" "names s1 p \<noteq> None" | (new) "fault = None" "names s1 p = None"
    by blast
  then show ?thesis
  proof cases
    case fail
    with assms c have "result = failed" "t = s1"
      by (auto simp: try_open_output_exclusive_def sys_open_exclusive_def)
    with k fail f e show ?thesis by (auto simp: no_faults_def evolves_def)
  next
    case exists
    with assms c have r: "result = already_exists" "t = s1"
      by (auto simp: try_open_output_exclusive_def sys_open_exclusive_def)
    have "quiet s \<longrightarrow> names s1 = names s" using e unfolding evolves_def by blast
    with k exists r show ?thesis by auto
  next
    case new
    let ?s2 = "create_file p [] s1"
    have open_exclusive: "sys_open_exclusive p s = (Done (fresh s1), ?s2)"
      using new c by (simp add: sys_open_exclusive_def)
    have k2: "keeps_files s ?s2" using k create_file_keeps [OF new(2)] by (rule keeps_files_trans)
    obtain b s3 where stream: "sys_succeeds ?s2 = (b, s3)" by fastforce
    note e3 = sys_succeeds_evolves [OF stream]
    have k3: "keeps_files s s3" using k2 e3 keeps_files_trans evolves_keeps_files by blast
    show ?thesis
    proof (cases b)
      case False
      with assms open_exclusive stream have r: "result = failed" "t = snd (sys_succeeds s3)"
        by (auto simp: try_open_output_exclusive_def)
      obtain b' s4 where close: "sys_succeeds s3 = (b', s4)" by fastforce
      note e4 = conjunct1 [OF sys_succeeds_evolves [OF close]]
      have "quiet s \<longrightarrow> (\<forall>q. q \<noteq> p \<longrightarrow> names s4 q = names s q)"
        using e e3 e4 by (auto simp: evolves_def create_file_def quiet_def)
      moreover have "keeps_files s s4"
        using k3 sys_succeeds_evolves [OF close] keeps_files_trans evolves_keeps_files by blast
      moreover have "\<not> no_faults s"
        using e3 k2 False by (auto simp: no_faults_def keeps_files_def)
      ultimately show ?thesis using r close by simp
    next
      case True
      with assms open_exclusive stream
      have r: "result = opened" "out = \<lparr>out_path = p, out_file = Some \<lparr>inode = fresh s1, buffered = []\<rparr>\<rparr>" "t = s3"
        by (auto simp: try_open_output_exclusive_def assign_OutputFile_def close_quietly_def default_OutputFile_def
            new_OutputFile_def destroy_OutputFile_def)
      have "names s p = None"
        using new(2) e unfolding evolves_def by (metis not_None_eq)
      moreover have named: "quiet s \<longrightarrow> names s3 = (names s)(p := Some (fresh s1))"
        using e e3 by (auto simp: evolves_def create_file_def quiet_def)
      ultimately have "temp_opened p (fresh s1) out s t"
        using r k3 e e3 unfolding temp_opened_def
        by (auto simp: evolves_def create_file_def less_Suc_eq_le)
      with r k3 named show ?thesis by auto
    qed
  qed
qed

definition is_temp_path :: "path \<Rightarrow> path \<Rightarrow> bool" where
  "is_temp_path output p \<longleftrightarrow> (\<exists>token. length token = 16 \<and> p = output @ temp_suffix token)"

lemma make_unique_temp_path_result:
  assumes "make_unique_temp_path ssl output c = (r, c')"
  shows "retired c' = retired c \<and> (case r of Inl e \<Rightarrow> code_of e = Some backend_failure | Inr p \<Rightarrow> is_temp_path output p)"
proof -
  obtain r1 c1 where t: "random_bytes ssl 16 c = (r1, c1)" by fastforce
  with assms random_bytes_result [OF t] show ?thesis
    by (cases r1) (auto simp: make_unique_temp_path_def api_random_bytes_def mbind_def mreturn_def is_temp_path_def)
qed

lemma open_attempts_spec:
  assumes "open_attempts ssl output n s = (r, s')"
  shows "keeps_files (disk s) (disk s') \<and> retired (rt s') = retired (rt s) \<and>
    (quiet (disk s) \<longrightarrow> (\<forall>q. \<not> is_temp_path output q \<longrightarrow> names (disk s') q = names (disk s) q)) \<and>
    (case r of
       Inr out \<Rightarrow> \<exists>p i. is_temp_path output p \<and> temp_opened p i out (disk s) (disk s')
     | Inl e \<Rightarrow> code_of e = Some backend_failure \<and>
         (no_faults (disk s) \<longrightarrow> quiet (disk s) \<longrightarrow> names (disk s') = names (disk s)))"
  using assms
proof (induction n arbitrary: s)
  case 0
  then show ?case by (auto simp: mthrow_def)
next
  case (Suc n)
  obtain r1 c1 where p: "make_unique_temp_path ssl output (rt s) = (r1, c1)" by fastforce
  note made = make_unique_temp_path_result [OF p]
  show ?case
  proof (cases r1)
    case (Inl e)
    with Suc.prems p made show ?thesis by (auto simp: mbind_def rt_action_def mzoom_def)
  next
    case (Inr path)
    obtain result out d where t: "try_open_output_exclusive path (default_OutputFile, disk s) = (result, (out, d))"
      by (metis prod.exhaust)
    note spec = try_open_spec [OF t]
    let ?s = "s\<lparr>rt := c1, disk := d\<rparr>"
    have run: "(r, s') = (case result of opened \<Rightarrow> mreturn (fst (move_OutputFile out))
       | failed \<Rightarrow> mthrow (Error backend_failure ''File open failed'')
       | already_exists \<Rightarrow> open_attempts ssl output n) ?s"
      using Suc.prems p Inr t by (simp add: mbind_def rt_action_def disk_action_def mzoom_def)
    show ?thesis
    proof (cases result)
      case opened
      with run have "r = Inr out" "s' = ?s" by (auto simp: mreturn_def move_OutputFile_def)
      with spec opened made Inr show ?thesis by auto
    next
      case failed
      with run spec made Inr show ?thesis by (auto simp: mthrow_def)
    next
      case already_exists
      with run have rest: "open_attempts ssl output n ?s = (r, s')" by simp
      note IH = Suc.IH [OF rest]
      have d: "keeps_files (disk s) d" "quiet (disk s) \<longrightarrow> names d = names (disk s)"
        using spec already_exists by auto
      have same: "no_faults d = no_faults (disk s)" "quiet d = quiet (disk s)"
        using d(1) by (auto simp: keeps_files_def no_faults_def quiet_def)
      have "temp_opened p i o2 (disk s) (disk s')" if "temp_opened p i o2 d (disk s')" for p i o2
      proof -
        have "names (disk s) p = None"
          using that d(1) unfolding temp_opened_def keeps_files_def by (metis not_None_eq)
        then show ?thesis
          using that d same keeps_files_trans [OF d(1)]
          unfolding temp_opened_def by (auto simp: keeps_files_def)
      qed
      note opened_here = this
      have "keeps_files (disk s) (disk s')" using IH d(1) keeps_files_trans by auto
      then show ?thesis
        using IH d(2) made Inr same opened_here by (cases r) (simp_all, blast)
    qed
  qed
qed

subsection \<open>Publishing it\<close>

text \<open>
  \<open>i\<close> is the file of the temporary output, \<open>d0\<close> the file system since it is open. While the payload is
  written nothing but the contents of \<open>i\<close> changes, and the output stays open.
\<close>

definition job_inv :: "nat \<Rightarrow> file_system \<Rightarrow> output_state \<Rightarrow> bool" where
  "job_inv i d0 st \<longleftrightarrow> evolves {i} d0 (snd st) \<and> i < fresh d0 \<and> (\<exists>f. out_file (fst st) = Some f \<and> inode f = i)"

lemma job_inv_open: "job_inv i d0 st \<Longrightarrow> file_open st"
  by (auto simp: job_inv_def file_open_def evolves_def)

interpretation job: sink_invariant OutputFile_write "job_inv i d0" for i d0
proof
  fix st st' :: output_state and data r
  assume inv: "job_inv i d0 st" and w: "OutputFile_write data st = (r, st')"
  obtain out s out' t where st: "st = (out, s)" "st' = (out', t)" by (metis surj_pair)
  from inv st obtain f where f: "out_file out = Some f" "inode f = i" "evolves {i} d0 s" "i < fresh d0"
    by (auto simp: job_inv_def)
  then have "inode f < fresh s" by (simp add: evolves_def)
  from OutputFile_write_open [OF w [unfolded st] f(1) this] obtain f' n where
    "out' = out\<lparr>out_file := Some f'\<rparr>" "inode f' = inode f" "evolves {} s t"
    "r = (if n < length data then Inl file_write_failed else Inr ())" by blast
  with f st show "job_inv i d0 st' \<and> defined r"
    by (auto simp: job_inv_def file_write_failed_def intro: evolves_trans evolves_from_empty)
qed

lemma flush_spec:
  assumes "OutputFile_flush st = (r, st')" and "job_inv i d0 st"
  shows "job_inv i d0 st' \<and> (r = Inr () \<longrightarrow> file_content st' = file_content st \<and> contents (snd st') i = file_content st) \<and>
    (no_faults (snd st) \<longrightarrow> r = Inr ())"
proof -
  obtain out s out' t where st: "st = (out, s)" "st' = (out', t)" by (metis surj_pair)
  from assms(2) st obtain f where f: "out_file out = Some f" "inode f = i" "evolves {i} d0 s" "i < fresh d0"
    by (auto simp: job_inv_def)
  then have i: "inode f < fresh s" by (simp add: evolves_def)
  obtain flushed f' s1 where fl: "fflush f s = (flushed, f', s1)" by (metis prod.exhaust)
  note spec = fflush_spec [OF fl i]
  have e1: "evolves {i} d0 s1" using f spec evolves_trans by blast
  show ?thesis
  proof (cases flushed)
    case False
    with assms(1) st f fl have "r = Inl file_write_failed" "out' = out\<lparr>out_file := Some f'\<rparr>" "t = s1"
      by (auto simp: OutputFile_flush_def)
    with False st f spec e1 show ?thesis by (auto simp: job_inv_def)
  next
    case True
    obtain b s2 where sync: "sync_file s1 = (b, s2)" by fastforce
    note e2 = sync_file_evolves [OF sync]
    have same: "contents s2 i = contents s1 i" using e2 spec i f by (simp add: evolves_def)
    from True assms(1) st f fl sync have "r = (if b then Inr () else Inl file_write_failed)"
      "out' = out\<lparr>out_file := Some f'\<rparr>" "t = s2"
      by (auto simp: OutputFile_flush_def)
    moreover have "evolves {i} d0 s2" using e1 e2 evolves_from_empty evolves_trans by blast
    moreover have "no_faults s1 = no_faults s" using spec by (simp add: evolves_def no_faults_def)
    ultimately show ?thesis
      using True st f spec e2 same by (auto simp: job_inv_def file_content_def)
  qed
qed

lemma close_spec:
  assumes "OutputFile_close st = (r, st')" and "job_inv i d0 st"
  shows "evolves {i} d0 (snd st') \<and> out_file (fst st') = None \<and> evolves {i} (snd st) (snd st') \<and>
    (r = Inr () \<longrightarrow> contents (snd st') i = file_content st) \<and> (no_faults (snd st) \<longrightarrow> r = Inr ())"
proof -
  obtain out s out' t where st: "st = (out, s)" "st' = (out', t)" by (metis surj_pair)
  from assms(2) st obtain f where f: "out_file out = Some f" "inode f = i" "evolves {i} d0 s" "i < fresh d0"
    by (auto simp: job_inv_def)
  then have i: "inode f < fresh s" by (simp add: evolves_def)
  obtain flushed s1 where c: "fclose f s = (flushed, s1)" by fastforce
  note spec = fclose_spec [OF c i]
  from assms(1) st f c have "r = (if flushed then Inr () else Inl file_write_failed)" "out' = out\<lparr>out_file := None\<rparr>" "t = s1"
    by (auto simp: OutputFile_close_def)
  with st f spec show ?thesis by (auto simp: file_content_def intro: evolves_trans)
qed

lemma flush_parent_evolves:
  "flush_parent_directory p s = (r, t) \<Longrightarrow> evolves {} s t \<and> (no_faults s \<longrightarrow> r = Inr ())"
proof -
  assume run: "flush_parent_directory p s = (r, t)"
  obtain b1 s1 where 1: "sys_succeeds s = (b1, s1)" by fastforce
  obtain b2 s2 where 2: "sys_succeeds s1 = (b2, s2)" by fastforce
  define parent where "parent = (if parent_path p = [] then ''.'' else parent_path p)"
  obtain b3 s3 where 3: "sys_succeeds (s2\<lparr>synced_dirs := parent # synced_dirs s2\<rparr>) = (b3, s3)" by fastforce
  obtain b4 s4 where 4: "sys_succeeds s2 = (b4, s4)" by fastforce
  have e: "evolves {} s s1" "evolves {} s1 s2" "evolves {} (s2\<lparr>synced_dirs := parent # synced_dirs s2\<rparr>) s3" "evolves {} s2 s4"
    and n: "no_faults s \<longrightarrow> b1" "no_faults s1 \<longrightarrow> b2" "no_faults (s2\<lparr>synced_dirs := parent # synced_dirs s2\<rparr>) \<longrightarrow> b3"
    using sys_succeeds_evolves [OF 1] sys_succeeds_evolves [OF 2] sys_succeeds_evolves [OF 3] sys_succeeds_evolves [OF 4]
    by blast+
  have "evolves {} s2 (s2\<lparr>synced_dirs := parent # synced_dirs s2\<rparr>)" by (auto simp: evolves_def fs_ok_def)
  then have e': "evolves {} s s2" "evolves {} s s3" "evolves {} s s4" using e evolves_trans by blast+
  have nf: "no_faults s1 = no_faults s" "no_faults (s2\<lparr>synced_dirs := parent # synced_dirs s2\<rparr>) = no_faults s"
    using e(1) e'(1) by (simp_all add: evolves_def no_faults_def)
  have "(r, t) = (if platform s \<noteq> Unix then (Inr (), s) else if \<not> b1 then (Inl (Error backend_failure ''Directory open failed''), s1)
      else if \<not> b2 then (Inl (Error backend_failure ''Directory sync failed''), s4)
      else if \<not> b3 then (Inl (Error backend_failure ''Directory sync failed''), s3) else (Inr (), s3))"
    using run 1 2 3 4 unfolding flush_parent_directory_def Let_def parent_def [symmetric] by auto
  then show ?thesis using e(1) e' n nf by (auto split: if_splits)
qed

text \<open>As \<open>keeps_files\<close>, but the name \<open>p\<close> may go.\<close>

definition keeps_but :: "path \<Rightarrow> file_system \<Rightarrow> file_system \<Rightarrow> bool" where
  "keeps_but p s t \<longleftrightarrow> (\<forall>q j. q \<noteq> p \<longrightarrow> names s q = Some j \<longrightarrow> names t q = Some j) \<and>
     (\<forall>j < fresh s. contents t j = contents s j) \<and> fresh s \<le> fresh t \<and>
     faults t = faults s \<and> others t = others s \<and> (fs_ok s \<longrightarrow> fs_ok t)"

lemma keeps_but_trans: "keeps_but p s t \<Longrightarrow> keeps_but p t u \<Longrightarrow> keeps_but p s u"
  unfolding keeps_but_def by auto

lemma evolves_keeps_but: "evolves {} s t \<Longrightarrow> keeps_but p s t"
  unfolding keeps_but_def evolves_def by blast

lemma keeps_files_but: "keeps_files s0 s \<Longrightarrow> keeps_but p s t \<Longrightarrow> names s0 p = None \<Longrightarrow> keeps_files s0 t"
  unfolding keeps_files_def keeps_but_def by (metis le_trans less_le_trans not_None_eq)

lemma keeps_but_settings:
  "keeps_but p s t \<Longrightarrow> no_faults t = no_faults s \<and> quiet t = quiet s"
  by (simp add: keeps_but_def no_faults_def quiet_def)

lemma remove_spec:
  assumes "remove_quietly p s = t"
  shows "keeps_but p s t \<and> (quiet s \<longrightarrow> (\<forall>q. q \<noteq> p \<longrightarrow> names t q = names s q)) \<and>
    (quiet s \<longrightarrow> no_faults s \<longrightarrow> names t = (names s)(p := None))"
proof -
  obtain fault s1 where c: "system_call s = (fault, s1)" by fastforce
  note e = system_call_evolves [OF c]
  have "t = (if fault \<noteq> None then s1 else s1\<lparr>names := (names s1)(p := None)\<rparr>)"
    using assms c by (auto simp: remove_quietly_def fs_remove_def)
  with e show ?thesis by (auto simp: evolves_def keeps_but_def fs_ok_def no_faults_def)
qed

text \<open>
  What a commit owes to the operations, on every platform that has a call for it: the output name is taken only when it is
  free, it then belongs to the file that was written, and nothing but the temporary name may go.
\<close>

definition committed :: "path \<Rightarrow> path \<Rightarrow> nat \<Rightarrow> file_system \<Rightarrow> unit result \<Rightarrow> file_system \<Rightarrow> bool" where
  "committed temp output i s r t \<longleftrightarrow>
     keeps_but temp s t \<and> (r = Inr () \<longrightarrow> names s output = None \<and> names t output = Some i) \<and>
     (quiet s \<longrightarrow> (\<forall>q. q \<noteq> temp \<longrightarrow> q \<noteq> output \<longrightarrow> names t q = names s q) \<and>
        (names t output = names s output \<or> names s output = None \<and> names t output = Some i)) \<and>
     (quiet s \<longrightarrow> no_faults s \<longrightarrow>
        names t = (if r = Inr () then (names s)(output := Some i, temp := None) else names s) \<and>
        (r \<noteq> Inr () \<longrightarrow> names s output \<noteq> None))"

lemma commit_refused:
  assumes c: "system_call s = (fault, s1)" and "r = Inl x" and "fault = None \<longrightarrow> names s1 output \<noteq> None"
  shows "committed temp output i s r s1"
proof -
  note e = conjunct1 [OF system_call_evolves [OF c]] and f = conjunct2 [OF system_call_evolves [OF c]]
  have "quiet s \<Longrightarrow> names s1 = names s" using e by (simp add: evolves_def)
  with e f assms(2,3) show ?thesis by (auto simp: committed_def evolves_keeps_but no_faults_def)
qed

lemma commit_moved:
  assumes c: "system_call s = (fault, s1)" and "names s temp = Some i" and "i < fresh s" and "temp \<noteq> output"
    and "names s1 output = None"
  shows "committed temp output i s (Inr ()) (s1\<lparr>names := (names s1)(output := Some i, temp := None)\<rparr>)"
proof -
  note e = conjunct1 [OF system_call_evolves [OF c]]
  have temp: "names s1 temp = Some i" using e assms(2) by (simp add: evolves_def)
  have none: "names s output = None" using e assms(5) unfolding evolves_def by (metis not_None_eq)
  have "quiet s \<Longrightarrow> names s1 = names s" using e by (simp add: evolves_def)
  with e temp none assms(2-5) show ?thesis
    by (auto simp: committed_def evolves_def keeps_but_def fs_ok_def)
qed

lemma commit_linked:
  assumes c: "system_call s = (fault, s1)" and "names s temp = Some i" and "i < fresh s" and "temp \<noteq> output"
    and "names s1 output = None"
    and flush: "flush_parent_directory output (remove_quietly temp (s1\<lparr>names := (names s1)(output := Some i)\<rparr>)) = (r, t)"
  shows "committed temp output i s r t"
proof -
  note e = conjunct1 [OF system_call_evolves [OF c]]
  have temp: "names s1 temp = Some i" using e assms(2) by (simp add: evolves_def)
  have quiet: "quiet s \<Longrightarrow> names s1 = names s" using e by (simp add: evolves_def)
  let ?s2 = "s1\<lparr>names := (names s1)(output := Some i)\<rparr>"
  obtain s3 where rem: "remove_quietly temp ?s2 = s3" by blast
  note 3 = remove_spec [OF rem]
  note 4 = flush_parent_evolves [OF flush [unfolded rem]]
  have k2: "keeps_but temp s1 ?s2"
    using temp e assms(3,5) by (auto simp: keeps_but_def fs_ok_def evolves_def)
  have k: "keeps_but temp s t"
    by (rule keeps_but_trans [OF evolves_keeps_but [OF e] keeps_but_trans [OF k2 keeps_but_trans
          [OF conjunct1 [OF 3] evolves_keeps_but [OF conjunct1 [OF 4]]]]])
  have s2: "quiet ?s2 = quiet s" "no_faults ?s2 = no_faults s"
    using e by (auto simp: evolves_def quiet_def no_faults_def)
  have s3: "quiet s3 = quiet s" "no_faults s3 = no_faults s"
    using keeps_but_settings [OF conjunct1 [OF 3]] s2 by simp_all
  have out: "names t output = Some i"
    using 3 4 assms(4) by (auto simp: keeps_but_def evolves_def)
  have none: "names s output = None"
    using e assms(5) unfolding evolves_def by (metis not_None_eq)
  have eq: "quiet s \<Longrightarrow> names t = names s3" using 4 s3 by (simp add: evolves_def)
  have rest: "names t q = names s q" if "quiet s" "q \<noteq> temp" "q \<noteq> output" for q
    using that 3 s2(1) eq quiet by simp
  have exact: "names t = (names s)(output := Some i, temp := None)" "r = Inr ()" if "quiet s" "no_faults s"
    using that 3 4 s2 s3 eq quiet by simp_all
  show ?thesis unfolding committed_def
  proof (intro conjI impI)
    show "keeps_but temp s t" by (rule k)
    show "names s output = None" "names t output = Some i" by (rule none, rule out)
    show "\<forall>q. q \<noteq> temp \<longrightarrow> q \<noteq> output \<longrightarrow> names t q = names s q" if "quiet s" using rest that by blast
    show "names t output = names s output \<or> names s output = None \<and> names t output = Some i"
      using none out by blast
    show "names t = (if r = Inr () then (names s)(output := Some i, temp := None) else names s)"
      if "quiet s" "no_faults s" using exact that by simp
    show "names s output \<noteq> None" if "quiet s" "no_faults s" "r \<noteq> Inr ()" using exact(2) that by simp
  qed
qed

lemma commit_stops:
  assumes "system_call s = (fault, s1)" and "names s1 temp = Some i" and "\<not> (fault = None \<and> names s1 output = None)"
    and "platform s \<noteq> Elsewhere"
  shows "commit_temp_file temp output s = (Inl (if fault = None then output_exists else rename_failed), s1)"
  using assms
  by (cases "platform s"; cases fault; cases "names s1 output") (simp_all add: commit_temp_file_def sys_link_def sys_move_def)

lemma commit_spec:
  assumes run: "commit_temp_file temp output s = (r, t)" and temp: "names s temp = Some i" and i: "i < fresh s"
    and differ: "temp \<noteq> output" and platform: "platform s \<noteq> Elsewhere"
  shows "committed temp output i s r t"
proof -
  obtain fault s1 where c: "system_call s = (fault, s1)" by fastforce
  have temp1: "names s1 temp = Some i" using system_call_evolves [OF c] temp by (simp add: evolves_def)
  show ?thesis
  proof (cases "fault = None \<and> names s1 output = None")
    case False
    with run have "\<exists>x. r = Inl x" "t = s1" "fault = None \<longrightarrow> names s1 output \<noteq> None"
      unfolding commit_stops [OF c temp1 False platform] by auto
    with commit_refused [OF c] show ?thesis by blast
  next
    case free: True
    show ?thesis
    proof (cases "platform s")
      case Unix
      with run c temp1 free have
        "flush_parent_directory output (remove_quietly temp (s1\<lparr>names := (names s1)(output := Some i)\<rparr>)) = (r, t)"
        by (simp add: commit_temp_file_def sys_link_def)
      from commit_linked [OF c temp i differ conjunct2 [OF free] this] show ?thesis .
    next
      case Windows
      with run c temp1 free have "r = Inr ()" "t = s1\<lparr>names := (names s1)(output := Some i, temp := None)\<rparr>"
        by (simp_all add: commit_temp_file_def sys_move_def)
      with commit_moved [OF c temp i differ conjunct2 [OF free]] show ?thesis by simp
    next
      case Elsewhere
      with platform show ?thesis by simp
    qed
  qed
qed

text \<open>The situation while a job runs: \<open>s0\<close> is the file system before the temporary output was opened.\<close>

definition job_base :: "path \<Rightarrow> path \<Rightarrow> nat \<Rightarrow> file_system \<Rightarrow> file_system \<Rightarrow> bool" where
  "job_base temp output i s0 d0 \<longleftrightarrow> keeps_files s0 d0 \<and> fresh s0 \<le> i \<and> i < fresh d0 \<and> names s0 temp = None \<and>
     names d0 temp = Some i \<and> temp \<noteq> output \<and> (quiet s0 \<longrightarrow> names d0 = (names s0)(temp := Some i))"

text \<open>The state a job may leave before the handler or the destructor runs.\<close>

definition job_left :: "path \<Rightarrow> path \<Rightarrow> nat \<Rightarrow> bytes \<Rightarrow> file_system \<Rightarrow> output_state \<Rightarrow> bool" where
  "job_left temp output i data s0 st \<longleftrightarrow> keeps_files s0 (snd st) \<and> fresh s0 \<le> i \<and> i < fresh (snd st) \<and>
     (\<forall>f. out_file (fst st) = Some f \<longrightarrow> inode f = i) \<and>
     (quiet s0 \<longrightarrow> (\<forall>q. q \<noteq> temp \<longrightarrow> q \<noteq> output \<longrightarrow> names (snd st) q = names s0 q) \<and>
        (names (snd st) output = names s0 output \<or> names s0 output = None \<and> names (snd st) output = Some i \<and>
           contents (snd st) i = data \<and> out_file (fst st) = None))"

lemma job_inv_left:
  assumes "job_inv i d0 st" and "job_base temp output i s0 d0"
  shows "job_left temp output i data s0 st"
  using assms keeps_files_evolves [of s0 d0 "{i}" "snd st"]
  by (auto simp: job_inv_def job_base_def job_left_def evolves_def keeps_files_def quiet_def)

lemma finish_spec:
  assumes run: "finish temp output st = (r, st')" and inv: "job_inv i d0 st" and base: "job_base temp output i s0 d0"
    and ok: "fs_ok s0"
  shows "job_left temp output i (file_content st) s0 st'"
    and "r = Inr () \<Longrightarrow> names s0 output = None \<and> names (snd st') output = Some i \<and> contents (snd st') i = file_content st \<and>
      out_file (fst st') = None"
    and "quiet s0 \<Longrightarrow> no_faults s0 \<Longrightarrow>
      names (snd st') = (if r = Inr () then (names s0)(output := Some i) else (names s0)(temp := Some i)) \<and>
      (r \<noteq> Inr () \<longrightarrow> names s0 output \<noteq> None)"
proof -
  obtain r1 st1 where 1: "OutputFile_flush st = (r1, st1)" by (metis surj_pair)
  note f = flush_spec [OF 1 inv]
  note b = base [unfolded job_base_def]
  have nf: "no_faults (snd st) = no_faults s0" "quiet (snd st) = quiet s0"
    using inv b by (auto simp: job_inv_def evolves_def keeps_files_def no_faults_def quiet_def)
  have "job_left temp output i (file_content st) s0 st' \<and>
    (r = Inr () \<longrightarrow> names s0 output = None \<and> names (snd st') output = Some i \<and> contents (snd st') i = file_content st \<and>
      out_file (fst st') = None) \<and>
    (quiet s0 \<longrightarrow> no_faults s0 \<longrightarrow>
      names (snd st') = (if r = Inr () then (names s0)(output := Some i) else (names s0)(temp := Some i)) \<and>
      (r \<noteq> Inr () \<longrightarrow> names s0 output \<noteq> None))"
  proof (cases "r1 = Inr ()")
    case False
    then obtain e where "r1 = Inl e" by (cases r1) auto
    with run 1 have "r = Inl e" "st' = st1" by (auto simp: finish_def mbind_def)
    with False f nf job_inv_left [OF conjunct1 [OF f] base] show ?thesis by auto
  next
    case True
    obtain r2 st2 where 2: "OutputFile_close st1 = (r2, st2)" by (metis surj_pair)
    note c = close_spec [OF 2 conjunct1 [OF f]]
    obtain out2 d2 where st2: "st2 = (out2, d2)" by (metis surj_pair)
    have k2: "keeps_files s0 d2" "i < fresh d2"
      using c st2 keeps_files_evolves [of s0 d0 "{i}" d2] b by (auto simp: evolves_def)
    have q2: "quiet s0 \<longrightarrow> names d2 = (names s0)(temp := Some i)"
      using c st2 b by (auto simp: evolves_def keeps_files_def quiet_def)
    have nf1: "no_faults (snd st1) = no_faults s0"
      using f b by (auto simp: job_inv_def evolves_def keeps_files_def no_faults_def)
    have left2: "job_left temp output i data s0 (out2, d2)" for data
      using k2 q2 b c st2 by (auto simp: job_left_def)
    show ?thesis
    proof (cases "r2 = Inr ()")
      case False
      then obtain e where "r2 = Inl e" by (cases r2) auto
      with run 1 2 True have "r = Inl e" "st' = st2" by (auto simp: finish_def mbind_def)
      with False c nf1 st2 left2 show ?thesis by auto
    next
      case True2: True
      obtain d3 where commit: "commit_temp_file temp output d2 = (r, d3)" and st': "st' = (out2, d3)"
        using run 1 2 True True2 st2
        by (auto simp: finish_def mbind_def on_files_def mzoom_def split: prod.splits)
      have temp: "names d2 temp = Some i" using c st2 b by (auto simp: evolves_def)
      have "temp \<noteq> output" "platform d2 \<noteq> Elsewhere" using b ok k2(1) by (auto simp: keeps_files_def fs_ok_def)
      note m = commit_spec [OF commit temp k2(2) this, unfolded committed_def]
      have k3: "keeps_files s0 d3" using keeps_files_but [OF k2(1) conjunct1 [OF m]] b by simp
      have content: "contents d3 i = file_content st"
        using m k2(2) c True2 st2 f True by (auto simp: keeps_but_def)
      have fresh3: "i < fresh d3" using m k2(2) by (auto simp: keeps_but_def)
      have none: "names d2 output = None \<Longrightarrow> names s0 output = None"
        using k2(1) unfolding keeps_files_def by (metis not_None_eq)
      have same: "quiet d2 = quiet s0" "no_faults d2 = no_faults s0"
        using k2(1) by (auto simp: keeps_files_def quiet_def no_faults_def)
      have temp_output: "temp \<noteq> output" using b by blast
      have names_out: "quiet s0 \<Longrightarrow> names d2 output = names s0 output" using q2 temp_output by simp
      have exact: "names d3 = (if r = Inr () then (names s0)(output := Some i) else (names s0)(temp := Some i))"
        "r \<noteq> Inr () \<Longrightarrow> names s0 output \<noteq> None" if "quiet s0" "no_faults s0"
        using that m same q2 names_out b by (auto simp: fun_upd_twist)
      have "job_left temp output i (file_content st) s0 st'"
        using k3 fresh3 b c st2 st' m same q2 names_out content none by (auto simp: job_left_def)
      then show ?thesis using exact m none content c st' st2 by auto
    qed
  qed
  then show "job_left temp output i (file_content st) s0 st'"
    and "r = Inr () \<Longrightarrow> names s0 output = None \<and> names (snd st') output = Some i \<and> contents (snd st') i = file_content st \<and>
      out_file (fst st') = None"
    and "quiet s0 \<Longrightarrow> no_faults s0 \<Longrightarrow>
      names (snd st') = (if r = Inr () then (names s0)(output := Some i) else (names s0)(temp := Some i)) \<and>
      (r \<noteq> Inr () \<longrightarrow> names s0 output \<noteq> None)"
    by blast+
qed

lemma abandon_spec:
  assumes "job_left temp output i data s0 (sink t)" and "temp \<noteq> output" and "names s0 temp = None"
  shows "keeps_files s0 (snd (sink (abandon temp t))) \<and> out_file (fst (sink (abandon temp t))) = None"
    and "quiet s0 \<Longrightarrow> (\<forall>q. q \<noteq> temp \<longrightarrow> q \<noteq> output \<longrightarrow> names (snd (sink (abandon temp t))) q = names s0 q) \<and>
      (names (snd (sink (abandon temp t))) output = names s0 output \<or> names s0 output = None \<and>
         names (snd (sink (abandon temp t))) output = Some i \<and> contents (snd (sink (abandon temp t))) i = data)"
    and "quiet s0 \<Longrightarrow> no_faults s0 \<Longrightarrow> names (snd (sink t)) = (names s0)(temp := Some i) \<Longrightarrow>
      names (snd (sink (abandon temp t))) = names s0"
proof -
  obtain out d where sink: "sink t = (out, d)" by (metis surj_pair)
  obtain out1 d1 where 1: "close_quietly (out, d) = (out1, d1)" by (metis surj_pair)
  obtain d2 where 2: "remove_quietly temp d1 = d2" by blast
  have ab: "sink (abandon temp t) = (out1, d2)" using sink 1 2 by (simp add: abandon_def discard_def)
  note left = assms(1) [unfolded sink job_left_def]
  have c: "evolves {i} d d1 \<and> out_file out1 = None \<and> (out_file out = None \<longrightarrow> d1 = d)"
  proof (cases "out_file out")
    case None
    then show ?thesis using 1 by (auto simp: close_quietly_def)
  next
    case (Some f)
    obtain b s1 where fc: "fclose f d = (b, s1)" by fastforce
    from Some left have "inode f = i" "i < fresh d" by auto
    with fclose_spec [OF fc] 1 Some fc show ?thesis by (auto simp: close_quietly_def)
  qed
  note r = remove_spec [OF 2]
  have k1: "keeps_files s0 d1" using keeps_files_evolves [of s0 d "{i}" d1] c left by simp
  have k2: "keeps_files s0 d2" using keeps_files_but [OF k1 conjunct1 [OF r] assms(3)] .
  then show "keeps_files s0 (snd (sink (abandon temp t))) \<and> out_file (fst (sink (abandon temp t))) = None"
    using ab c by simp
  have q: "quiet d1 = quiet s0" "quiet d = quiet s0" "no_faults d1 = no_faults s0"
    using k1 left by (auto simp: keeps_files_def quiet_def no_faults_def)
  have n1: "quiet s0 \<Longrightarrow> names d1 = names d" using c q by (simp add: evolves_def)
  have cont: "contents d2 i = data" if "contents d i = data" "out_file out = None"
    using that c r left by (auto simp: keeps_but_def)
  show "(\<forall>q. q \<noteq> temp \<longrightarrow> q \<noteq> output \<longrightarrow> names (snd (sink (abandon temp t))) q = names s0 q) \<and>
      (names (snd (sink (abandon temp t))) output = names s0 output \<or> names s0 output = None \<and>
         names (snd (sink (abandon temp t))) output = Some i \<and> contents (snd (sink (abandon temp t))) i = data)"
    if "quiet s0"
    using that left r q n1 assms(2) cont ab by auto
  show "names (snd (sink (abandon temp t))) = names s0"
    if "quiet s0" "no_faults s0" "names (snd (sink t)) = (names s0)(temp := Some i)"
    using that r q n1 ab sink assms(3) by (auto simp: fun_upd_idem_iff)
qed

lemma open_ifstream_spec:
  assumes "open_ifstream p s = (r, t)"
  shows "evolves {} s t \<and> (case r of
      Some i \<Rightarrow> istream_good i \<and> (\<forall>j. fs_ok s \<longrightarrow> names s p = Some j \<longrightarrow> \<not> broken i \<longrightarrow> remaining i = contents s j) \<and>
        (no_faults s \<longrightarrow> \<not> broken i)
    | None \<Rightarrow> no_faults s \<longrightarrow> names s p = None)"
proof -
  obtain f1 s1 where 1: "system_call s = (f1, s1)" by fastforce
  obtain f2 s2 where 2: "system_call s1 = (f2, s2)" by fastforce
  note e1 = system_call_evolves [OF 1] and e2 = system_call_evolves [OF 2]
  have e: "evolves {} s s2" using e1 e2 evolves_trans by blast
  have same: "contents s1 j = contents s j" "names s1 p = Some j" if "fs_ok s" "names s p = Some j" for j
    using e1 that by (auto simp: evolves_def fs_ok_def)
  have n: "names s1 p = None \<Longrightarrow> names s p = None" using e1 unfolding evolves_def by (metis not_None_eq)
  have nf: "no_faults s \<Longrightarrow> f1 = None \<and> f2 = None"
    using e1 e2 by (auto simp: no_faults_def evolves_def)
  consider (bad) "f1 \<noteq> None \<or> names s1 p = None" | (good) j where "f1 = None" "names s1 p = Some j" by fastforce
  then show ?thesis
  proof cases
    case bad
    with assms 1 have "r = None" "t = s1"
      by (auto simp: open_ifstream_def split: option.splits)
    with bad e1 n nf show ?thesis by auto
  next
    case good
    with assms 1 2 have "t = s2" "r = Some (case f2 of None \<Rightarrow> fresh_istream (contents s1 j)
        | Some k \<Rightarrow> (fresh_istream (take k (contents s1 j)))\<lparr>broken := True\<rparr>)"
      by (auto simp: open_ifstream_def split: option.splits)
    with good e same nf show ?thesis
      by (auto simp: istream_good_def fresh_istream_def split: option.splits)
  qed
qed

lemma open_input_spec:
  assumes "open_input p s = (r, t)"
  shows "evolves {} s t \<and> (case r of
      Inr i \<Rightarrow> istream_good i \<and> (\<forall>j. fs_ok s \<longrightarrow> names s p = Some j \<longrightarrow> \<not> broken i \<longrightarrow> remaining i = contents s j) \<and>
        (no_faults s \<longrightarrow> \<not> broken i)
    | Inl e \<Rightarrow> code_of e = Some backend_failure \<and> (no_faults s \<longrightarrow> names s p = None))"
proof -
  obtain o1 s1 where o1: "open_ifstream p s = (o1, s1)" by fastforce
  from open_ifstream_spec [OF this] assms o1 show ?thesis
    by (cases o1) (auto simp: open_input_def)
qed

subsection \<open>A whole job\<close>

text \<open>
  The output has been published: it did not exist, and it is now the file that the payload \<open>m\<close>, started on a
  fresh output with the contents of the input, has written completely.
\<close>

definition published ::
  "((output_state, 'o) transfer, exn, unit) action \<Rightarrow> path \<Rightarrow> path \<Rightarrow> file_system \<Rightarrow> file_system \<Rightarrow> bool" where
  "published m input output s s' \<longleftrightarrow> names s output = None \<and> (\<exists>i t0 t1. m t0 = (Inr (), t1) \<and>
     istream_good (source t0) \<and>
     (\<forall>j. names s input = Some j \<longrightarrow> \<not> broken (source t0) \<longrightarrow> remaining (source t0) = contents s j) \<and>
     file_open (sink t0) \<and> file_content (sink t0) = [] \<and>
     names s' output = Some i \<and> contents s' i = file_content (sink t1))"

lemma temp_path_differs: "is_temp_path output p \<Longrightarrow> p \<noteq> output"
  by (auto simp: is_temp_path_def temp_suffix_def)

lemma temp_opened_base:
  assumes "temp_opened p i out s0 d0" and "is_temp_path output p"
  shows "job_base p output i s0 d0" and "job_inv i d0 (out, d0)" and "out_path out = p"
    and "file_content (out, d0) = []"
  using assms temp_path_differs [OF assms(2)]
  by (auto simp: temp_opened_def job_base_def job_inv_def file_content_def)

lemma file_job_runs:
  assumes ok: "fs_ok s0" and base: "job_base p output i s0 d0" and inv: "job_inv i d0 (out, d0)"
    and empty: "file_content (out, d0) = []"
    and keeps: "\<And>i d. keeps_sink (job_inv i d) m"
    and run: "mbind (open_source input) (\<lambda>_. mbind m (\<lambda>_. sink_action (finish p output)))
      \<lparr>source = fresh_istream [], sink = (out, d0), crypto = c\<rparr> = (r, t)"
  shows "\<exists>data. job_left p output i data s0 (sink t) \<and>
      (r = Inr () \<longrightarrow> out_file (fst (sink t)) = None \<and> names s0 output = None \<and>
        names (snd (sink t)) output = Some i \<and> contents (snd (sink t)) i = data) \<and>
      (quiet s0 \<longrightarrow> no_faults s0 \<longrightarrow> names (snd (sink t)) =
        (if r = Inr () then (names s0)(output := Some i) else (names s0)(p := Some i))) \<and>
      ((names (snd (sink t)) output \<noteq> names s0 output \<or> r = Inr ()) \<longrightarrow> quiet s0 \<or> r = Inr () \<longrightarrow>
        (\<exists>t0 t1. m t0 = (Inr (), t1) \<and> istream_good (source t0) \<and>
          (\<forall>j. names s0 input = Some j \<longrightarrow> \<not> broken (source t0) \<longrightarrow> remaining (source t0) = contents s0 j) \<and>
          file_open (sink t0) \<and> file_content (sink t0) = [] \<and> data = file_content (sink t1)))"
proof -
  note b = base [unfolded job_base_def]
  let ?t = "\<lparr>source = fresh_istream [], sink = (out, d0), crypto = c\<rparr>"
  obtain r1 d1 where 1: "open_input input d0 = (r1, d1)" by fastforce
  note oi = open_input_spec [OF 1]
  have inv1: "job_inv i d0 (out, d1)"
    using inv evolves_trans [OF _ evolves_from_empty [OF conjunct1 [OF oi]]] by (simp add: job_inv_def)
  have content1: "file_content (out, d1) = []"
    using empty oi inv by (auto simp: file_content_def job_inv_def evolves_def)
  have left: "job_left p output i data s0 st" and
    same: "quiet s0 \<Longrightarrow> names (snd st) = (names s0)(p := Some i)" and
    out_same: "quiet s0 \<Longrightarrow> names (snd st) output = names s0 output" if "job_inv i d0 st" for st data
    using that job_inv_left [OF that base] b by (auto simp: job_inv_def evolves_def keeps_files_def quiet_def)
  show ?thesis
  proof (cases r1)
    case (Inl e)
    with run 1 have r: "r = Inl e" "sink t = (out, d1)"
      by (auto simp: mbind_def open_source_def sink_action_def on_files_def mzoom_def)
    with left [OF inv1] same [OF inv1] out_same [OF inv1] show ?thesis by auto
  next
    case (Inr stream)
    let ?t0 = "\<lparr>source = stream, sink = (out, d1), crypto = c\<rparr>"
    have run1: "mbind m (\<lambda>_. sink_action (finish p output)) ?t0 = (r, t)"
      using run 1 Inr by (simp add: mbind_def open_source_def sink_action_def on_files_def mzoom_def mmodify_def)
    have input: "remaining stream = contents s0 j" if "names s0 input = Some j" "\<not> broken stream" for j
    proof -
      have "names d0 input = Some j" "fs_ok d0" "contents d0 j = contents s0 j"
        using b that(1) ok by (auto simp: keeps_files_def fs_ok_def)
      with oi Inr that(2) show ?thesis by simp
    qed
    have good: "istream_good stream" using oi Inr by simp
    obtain r2 t1 where 2: "m ?t0 = (r2, t1)" by (metis surj_pair)
    have inv2: "job_inv i d0 (sink t1)" using keeps_sinkD [OF keeps _ 2] inv1 by simp
    show ?thesis
    proof (cases r2)
      case (Inl e)
      with run1 2 have "r = Inl e" "t = t1" by (auto simp: mbind_def)
      with left [OF inv2] same [OF inv2] out_same [OF inv2] show ?thesis by auto
    next
      case Inr2: (Inr u)
      obtain st where fin: "finish p output (sink t1) = (r, st)" and st: "sink t = st"
        using run1 2 Inr2 by (auto simp: mbind_def sink_action_def mzoom_def split: prod.splits)
      note f = finish_spec [OF fin inv2 base ok]
      have "\<exists>t0 t1'. m t0 = (Inr (), t1') \<and> istream_good (source t0) \<and>
          (\<forall>j. names s0 input = Some j \<longrightarrow> \<not> broken (source t0) \<longrightarrow> remaining (source t0) = contents s0 j) \<and>
          file_open (sink t0) \<and> file_content (sink t0) = [] \<and> file_content (sink t1) = file_content (sink t1')"
        using 2 Inr2 good input content1 job_inv_open [OF inv1]
        by (intro exI [of _ ?t0] exI [of _ t1]) simp
      note wrote = this
      show ?thesis
        unfolding st
      proof (rule exI [of _ "file_content (sink t1)"], intro conjI impI)
        show "job_left p output i (file_content (sink t1)) s0 st" by (rule f(1))
        show "out_file (fst st) = None" "names s0 output = None" "names (snd st) output = Some i"
          "contents (snd st) i = file_content (sink t1)" if "r = Inr ()"
          using f(2) [OF that] by blast+
        show "names (snd st) = (if r = Inr () then (names s0)(output := Some i) else (names s0)(p := Some i))"
          if "quiet s0" "no_faults s0" using f(3) [OF that] by blast
        show "\<exists>t0 t1'. m t0 = (Inr (), t1') \<and> istream_good (source t0) \<and>
          (\<forall>j. names s0 input = Some j \<longrightarrow> \<not> broken (source t0) \<longrightarrow> remaining (source t0) = contents s0 j) \<and>
          file_open (sink t0) \<and> file_content (sink t0) = [] \<and> file_content (sink t1) = file_content (sink t1')"
          by (rule wrote)
      qed
    qed
  qed
qed

text \<open>What a job leaves behind, and what it has done when it returns.\<close>

definition job_outcome ::
  "((output_state, 'o) transfer, exn, unit) action \<Rightarrow> path \<Rightarrow> path \<Rightarrow> unit result \<Rightarrow> file_system \<Rightarrow> file_system \<Rightarrow> bool" where
  "job_outcome m input output r s s' \<longleftrightarrow> keeps_files s s' \<and>
     (r = Inr () \<longrightarrow> published m input output s s') \<and>
     (quiet s \<longrightarrow> (names s' output = names s output \<or> published m input output s s') \<and>
        (\<forall>q. q \<noteq> output \<longrightarrow> \<not> is_temp_path output q \<longrightarrow> names s' q = names s q)) \<and>
     (quiet s \<longrightarrow> no_faults s \<longrightarrow>
        names s' = (if r = Inr () then (names s)(output := names s' output) else names s))"

lemma destroy_closed: "out_file (fst st) = None \<Longrightarrow> destroy_OutputFile st = snd st"
  by (cases st) (simp add: destroy_OutputFile_def close_quietly_def)

lemma with_output_spec:
  assumes ok: "fs_ok s0" and temp: "is_temp_path output p" and opened: "temp_opened p i out s0 d0"
    and keeps: "\<And>i d. keeps_sink (job_inv i d) m"
    and body: "mbind (open_source input) (\<lambda>_. mbind m (\<lambda>_. sink_action (finish p output)))
      \<lparr>source = fresh_istream [], sink = (out, d0), crypto = c\<rparr> = (r, t)"
    and d': "d' = (if r = Inr () then snd (sink t) else snd (sink (abandon p t)))"
  shows "job_outcome m input output r s0 d'"
proof -
  note base = temp_opened_base [OF opened temp]
  have p: "p \<noteq> output" "names s0 p = None" using base(1) by (auto simp: job_base_def)
  from file_job_runs [OF ok base(1,2,4) keeps body] obtain data where
    left: "job_left p output i data s0 (sink t)" and
    ret: "r = Inr () \<Longrightarrow> names s0 output = None \<and> names (snd (sink t)) output = Some i \<and> contents (snd (sink t)) i = data" and
    exact: "quiet s0 \<Longrightarrow> no_faults s0 \<Longrightarrow> names (snd (sink t)) =
      (if r = Inr () then (names s0)(output := Some i) else (names s0)(p := Some i))" and
    wrote: "names (snd (sink t)) output \<noteq> names s0 output \<or> r = Inr () \<Longrightarrow> quiet s0 \<or> r = Inr () \<Longrightarrow>
      \<exists>t0 t1. m t0 = (Inr (), t1) \<and> istream_good (source t0) \<and>
        (\<forall>j. names s0 input = Some j \<longrightarrow> \<not> broken (source t0) \<longrightarrow> remaining (source t0) = contents s0 j) \<and>
        file_open (sink t0) \<and> file_content (sink t0) = [] \<and> data = file_content (sink t1)"
    by blast
  show ?thesis
  proof (cases "r = Inr ()")
    case True
    have "published m input output s0 d'"
      unfolding published_def using ret [OF True] wrote True d' by auto
    moreover have "keeps_files s0 d'" "quiet s0 \<longrightarrow> (\<forall>q. q \<noteq> output \<longrightarrow> \<not> is_temp_path output q \<longrightarrow> names d' q = names s0 q)"
      using left d' True temp by (auto simp: job_left_def)
    moreover have "quiet s0 \<longrightarrow> no_faults s0 \<longrightarrow> names d' = (names s0)(output := names d' output)"
      using exact True d' ret by simp
    ultimately show ?thesis using True by (simp add: job_outcome_def)
  next
    case False
    note ab = abandon_spec [OF left p]
    have d': "d' = snd (sink (abandon p t))" using d' False by simp
    have "names (snd (sink t)) output \<noteq> names s0 output" if "quiet s0" "names d' output \<noteq> names s0 output"
    proof
      assume "names (snd (sink t)) output = names s0 output"
      moreover have "names d' output = names (snd (sink t)) output"
      proof -
        obtain out1 d1 where 1: "sink t = (out1, d1)" by (metis surj_pair)
        obtain out2 d2 where 2: "close_quietly (out1, d1) = (out2, d2)" by (metis surj_pair)
        have q: "quiet d1" using left that(1) 1 by (auto simp: job_left_def keeps_files_def quiet_def)
        have "evolves {i} d1 d2"
        proof (cases "out_file out1")
          case None
          then show ?thesis using 2 by (simp add: close_quietly_def)
        next
          case (Some f)
          with left 1 have "inode f = i" "i < fresh d1" by (auto simp: job_left_def)
          with fclose_spec [of f d1 "fst (fclose f d1)" "snd (fclose f d1)"] 2 Some show ?thesis
            by (auto simp: close_quietly_def)
        qed
        then have "names d2 = names d1" "quiet d2" using q by (auto simp: evolves_def quiet_def)
        with remove_spec [of p d2 d'] d' 1 2 p(1) show ?thesis by (simp add: abandon_def discard_def)
      qed
      ultimately show False using that(2) by simp
    qed
    then have "published m input output s0 d'" if "quiet s0" "names d' output \<noteq> names s0 output"
      unfolding published_def using that ab(2) [OF that(1)] wrote d' by auto
    moreover have "keeps_files s0 d'" using ab(1) d' by simp
    moreover have "names d' q = names s0 q" if "quiet s0" "q \<noteq> output" "\<not> is_temp_path output q" for q
      using ab(2) [OF that(1)] that temp d' by auto
    moreover have "names d' = names s0" if "quiet s0" "no_faults s0"
      using ab(3) [OF that] exact [OF that] False d' by simp
    ultimately show ?thesis using False by (auto simp: job_outcome_def)
  qed
qed

lemma file_job_spec:
  assumes ok: "fs_ok (disk s)" and keeps: "\<And>i d. keeps_sink (job_inv i d) m"
    and run: "file_job ssl input output m s = (r, s')"
  shows "job_outcome m input output r (disk s) (disk s')"
proof -
  obtain r1 s1 where 1: "open_unique_temp_output ssl output s = (r1, s1)" by fastforce
  note temp = open_attempts_spec [OF 1 [unfolded open_unique_temp_output_def]]
  show ?thesis
  proof (cases r1)
    case (Inl e)
    with run 1 have "r = Inl e" "s' = s1" by (auto simp: file_job_def mbind_def)
    with temp Inl temp_path_differs [of "output" "output"] show ?thesis by (auto simp: job_outcome_def)
  next
    case (Inr out)
    with temp obtain p i where p: "is_temp_path output p" "temp_opened p i out (disk s) (disk s1)" by auto
    note base = temp_opened_base [OF p(2,1)]
    let ?body = "mbind (open_source input) (\<lambda>_. mbind m (\<lambda>_. sink_action (finish p output)))"
    obtain r2 t where body: "?body \<lparr>source = fresh_istream [], sink = (out, disk s1), crypto = rt s1\<rparr> = (r2, t)"
      by (metis surj_pair)
    have closed: "out_file (fst (sink (if r2 = Inr () then t else abandon p t))) = None"
    proof -
      from file_job_runs [OF ok base(1,2,4) keeps body] obtain data where
        "job_left p output i data (disk s) (sink t)" "r2 = Inr () \<longrightarrow> out_file (fst (sink t)) = None" by blast
      with abandon_spec(1) [of p "output" i data "disk s" t] base(1) show ?thesis by (simp add: job_base_def)
    qed
    have "with_output out (mon_error ?body (abandon p)) s1 =
      (r2, \<lparr>disk = snd (sink (if r2 = Inr () then t else abandon p t)), rt = crypto (if r2 = Inr () then t else abandon p t)\<rparr>)"
      using body closed by (cases r2) (simp_all add: with_output_def mon_error_def destroy_closed)
    with run 1 Inr base(3) have "r = r2" and
      "disk s' = (if r = Inr () then snd (sink t) else snd (sink (abandon p t)))"
      by (auto simp: file_job_def mbind_def split: if_splits)
    with with_output_spec [OF ok p keeps body] show ?thesis by simp
  qed
qed

subsection \<open>No undefined behaviour\<close>

lemma output_calls_defined [defined_intros]:
  "always_defined OutputFile_flush" "always_defined OutputFile_close" "always_defined (commit_temp_file temp_path output)"
  "always_defined (ensure_output_does_not_exist p)" "always_defined (open_input p)" "always_defined (make_unique_temp_path ssl p)"
proof -
  have parent: "defined (fst (flush_parent_directory p s))" for p s
    by (simp add: flush_parent_directory_def Let_def split: prod.split)
  show "always_defined OutputFile_flush" "always_defined OutputFile_close"
    by (simp_all add: always_defined_def OutputFile_flush_def OutputFile_close_def file_write_failed_def split: prod.split option.split)
  show "always_defined (commit_temp_file temp_path output)"
  proof (unfold always_defined_def, intro allI)
    show "defined (fst (commit_temp_file temp_path output s))" for s
      using parent
      by (cases "platform s")
        (simp_all add: commit_temp_file_def output_exists_def rename_failed_def split: prod.split exclusive.split option.split bool.split)
  qed
  show "always_defined (ensure_output_does_not_exist p)" "always_defined (open_input p)"
    by (simp_all add: always_defined_def ensure_output_does_not_exist_def open_input_def output_exists_def
        split: prod.split option.split bool.split)
  show "always_defined (make_unique_temp_path ssl p)"
    unfolding make_unique_temp_path_def by (intro defined_intros)
qed

lemma finish_defined: "always_defined (finish temp_path output)"
  unfolding finish_def on_files_def by (intro defined_intros)

lemma open_source_keeps: "keeps_sink (job_inv i d0) (open_source input)"
proof (rule keeps_sinkI)
  fix s s' :: "(output_state, 'o) transfer" and r assume inv: "job_inv i d0 (sink s)" and run: "open_source input s = (r, s')"
  obtain out d where st: "sink s = (out, d)" by (metis surj_pair)
  obtain x d1 where x: "open_input input d = (x, d1)" by (metis surj_pair)
  have "evolves {} d d1" "defined x"
    using open_input_spec [OF x] always_definedD [OF output_calls_defined(5) x] by blast+
  with inv st have 1: "job_inv i d0 (out, d1)"
    by (auto simp: job_inv_def intro: evolves_trans evolves_from_empty)
  have "sink s' = (out, d1) \<and> r = (case x of Inl e \<Rightarrow> Inl e | Inr i \<Rightarrow> Inr ())"
    using run x st by (cases x) (auto simp: open_source_def mbind_def sink_action_def on_files_def mzoom_def mmodify_def)
  with 1 \<open>defined x\<close> show "job_inv i d0 (sink s') \<and> defined r" by (cases x) auto
qed

lemma file_job_defined:
  assumes keeps: "\<And>i d. keeps_sink (job_inv i d) m"
  shows "always_defined (file_job ssl input output m)"
proof (rule always_definedI)
  fix s r s' assume run: "file_job ssl input output m s = (r, s')"
  obtain r1 s1 where 1: "open_unique_temp_output ssl output s = (r1, s1)" by fastforce
  note temp = open_attempts_spec [OF 1 [unfolded open_unique_temp_output_def]]
  show "defined r"
  proof (cases r1)
    case (Inl e)
    with run 1 temp show ?thesis by (auto simp: file_job_def mbind_def dest: code_defined)
  next
    case (Inr out)
    with temp obtain p i where p: "is_temp_path output p" "temp_opened p i out (disk s) (disk s1)" by auto
    note inv = temp_opened_base(2) [OF p(2,1)]
    let ?body = "mbind (open_source input) (\<lambda>_. mbind m (\<lambda>_. sink_action (finish (out_path out) output)))"
    obtain r2 t where 2: "?body \<lparr>source = fresh_istream [], sink = (out, disk s1), crypto = rt s1\<rparr> = (r2, t)" by fastforce
    have tail: "defined x" if "sink_action (finish (out_path out) output) u = (x, u')" for u x u'
      using that finish_defined by (auto simp: transfer_iffs dest: always_definedD)
    have "defined r2"
    proof -
      obtain ra ta where a: "open_source input \<lparr>source = fresh_istream [], sink = (out, disk s1), crypto = rt s1\<rparr> = (ra, ta)"
        by fastforce
      have ka: "job_inv i (disk s1) (sink ta)" "defined ra"
        using keeps_sinkD [OF open_source_keeps _ a] keeps_sink_defined [OF open_source_keeps _ a] inv by simp_all
      obtain rb tb where b: "m ta = (rb, tb)" by fastforce
      have kb: "defined rb" using keeps_sink_defined [OF keeps ka(1) b] .
      show ?thesis
        using 2 a b ka(2) kb by (cases ra; cases rb) (auto simp: mbind_def intro: tail)
    qed
    moreover have "r = r2"
      using run 1 Inr 2 by (auto simp: file_job_def mbind_def with_output_def mon_error_def split: prod.splits sum.splits)
    ultimately show ?thesis by simp
  qed
qed

end
