(* ===== verification/File_Properties.thy ===== *)
theory File_Properties
  imports File_Correct
begin

section \<open>Properties of sealed files\<close>

text \<open>
  The properties of the four operations on paths: no existing file is ever changed, an output appears complete
  or not at all, nothing is left behind by a failure, and a sealed file opens to what was sealed.
\<close>

interpretation keyed_file: reliable_sealing OutputFile_write file_content file_open ssl kdf "make_header ssl" 50 parse_header
  fh_serialized fh_nonce_prefix "derive_file_key ssl key" valid_header "\<lambda>h. file_key kdf key (fh_salt h)" True
  file_reliable
  for ssl :: "('o, 'c) openssl" and kdf :: kdf_alg and key :: bytes
  by unfold_locales

interpretation pass_file: reliable_sealing OutputFile_write file_content file_open ssl kdf "make_password_header ssl" 64
  parse_password_header ph_serialized ph_nonce_prefix "derive_password_file_key ssl password" valid_password_header
  "\<lambda>h. password_file_key kdf password (ph_salt h)" "password \<noteq> []" file_reliable
  for ssl :: "('o, 'c) openssl" and kdf :: kdf_alg and password :: bytes
  by unfold_locales

subsection \<open>The relation between a sealed file and its plaintext\<close>

definition is_sealed :: "gcm_alg \<Rightarrow> kdf_alg \<Rightarrow> bytes \<Rightarrow> bytes \<Rightarrow> bytes \<Rightarrow> bytes \<Rightarrow> bool" where
  "is_sealed alg kdf key aad sealed plaintext \<longleftrightarrow> (\<exists>h ps. valid_header h \<and> well_chunked ps \<and> concat ps = plaintext \<and>
     sealed = sealed_file alg (file_key kdf key (fh_salt h)) (fh_serialized h) (fh_nonce_prefix h) aad ps)"

definition is_password_sealed :: "gcm_alg \<Rightarrow> kdf_alg \<Rightarrow> bytes \<Rightarrow> bytes \<Rightarrow> bytes \<Rightarrow> bytes \<Rightarrow> bool" where
  "is_password_sealed alg kdf password aad sealed plaintext \<longleftrightarrow> (\<exists>h ps. valid_password_header h \<and> well_chunked ps \<and>
     concat ps = plaintext \<and> sealed = sealed_file alg (password_file_key kdf password (ph_salt h)) (ph_serialized h)
       (ph_nonce_prefix h) aad ps)"

lemma record_bytes_inject:
  "record_bytes i n f = record_bytes i n' f' \<longleftrightarrow> n = n' \<and> f = f'"
proof -
  have "record_bytes i n f = record_bytes i n' f' \<longleftrightarrow> u32_be n = u32_be n' \<and> [f] = [f']"
    unfolding record_bytes_def by (subst same_append_eq) (simp add: append_eq_append_conv)
  then show ?thesis by simp
qed

lemma sealed_chunk_inject:
  assumes prov: "gcm_provider ssl view alg" and small: "length p \<le> 1048576" "length p' \<le> 1048576"
    and eq: "sealed_chunk alg key hdr np aad i p f @ r = sealed_chunk alg key hdr np aad i p' f' @ r'"
  shows "p = p' \<and> f = f' \<and> r = r'"
proof -
  let ?ct = "gcm_ciphertext alg key (np @ u32_be i)"
  from eq have parts: "record_bytes i (word_of_nat (length p)) (final_flag f) = record_bytes i (word_of_nat (length p')) (final_flag f')"
    "\<exists>t t'. ?ct p @ t @ r = ?ct p' @ t' @ r' \<and> length t = 16 \<and> length t' = 16"
    using provider_tag_length(2) [OF prov] by (auto simp: sealed_chunk_def Let_def append_eq_append_conv, blast?)
  from parts(1) have "(word_of_nat (length p) :: u32) = word_of_nat (length p')" "f = f'"
    by (auto simp: record_bytes_inject final_flag_def split: if_splits)
  then have len: "length p = length p'" using small small_of_nat by metis
  with parts(2) have "?ct p = ?ct p'" "r = r'" by (auto simp: append_eq_append_conv)
  then have "p = p'" by (metis gcm_ciphertext_inverse)
  with \<open>f = f'\<close> \<open>r = r'\<close> show ?thesis by simp
qed

lemma chunk_body_inject:
  assumes prov: "gcm_provider ssl view alg"
  shows "well_chunked ps \<Longrightarrow> well_chunked qs \<Longrightarrow> chunk_body alg key hdr np aad i ps = chunk_body alg key hdr np aad i qs \<Longrightarrow>
    ps = qs"
proof (induction ps arbitrary: i qs)
  case (Cons p ps)
  obtain q qs' where qs: "qs = q # qs'" using Cons.prems(2) by (cases qs) auto
  have head: "\<exists>f rest. chunk_body alg key hdr np aad i (x # xs) = sealed_chunk alg key hdr np aad i x f @ rest \<and>
      length x \<le> 1048576 \<and> f = (xs = []) \<and> rest = chunk_body alg key hdr np aad (i + 1) xs" if "well_chunked (x # xs)" for x xs
    using that by (cases xs) auto
  from head [OF Cons.prems(1)] obtain r where 1:
    "chunk_body alg key hdr np aad i (p # ps) = sealed_chunk alg key hdr np aad i p (ps = []) @ r" "length p \<le> 1048576"
    "r = chunk_body alg key hdr np aad (i + 1) ps" by blast
  from head [of q qs'] Cons.prems(2) qs obtain r' where 2:
    "chunk_body alg key hdr np aad i (q # qs') = sealed_chunk alg key hdr np aad i q (qs' = []) @ r'" "length q \<le> 1048576"
    "r' = chunk_body alg key hdr np aad (i + 1) qs'" by blast
  have same: "p = q" "(ps = []) = (qs' = [])" "r = r'"
    using sealed_chunk_inject [OF prov 1(2) 2(2)] Cons.prems(3) 1(1) 2(1) qs by metis+
  show ?case
  proof (cases "ps = []")
    case False
    then have "well_chunked ps" "well_chunked qs'"
      using Cons.prems(1,2) qs same(2) by (simp_all add: chunk_body_Cons)
    with Cons.IH 1(3) 2(3) same qs show ?thesis by metis
  qed (use same qs in simp)
qed simp

text \<open>Under one key and associated data a file is the sealing of at most one plaintext.\<close>

lemma is_sealed_unique:
  assumes prov: "gcm_provider ssl view alg"
    and "is_sealed alg kdf key aad sealed p" and "is_sealed alg kdf key aad sealed q"
  shows "p = q"
proof -
  from assms(2,3) obtain h ps h' qs where
    1: "valid_header h" "well_chunked ps" "concat ps = p" and
    2: "valid_header h'" "well_chunked qs" "concat qs = q" and
    eq: "sealed_file alg (file_key kdf key (fh_salt h)) (fh_serialized h) (fh_nonce_prefix h) aad ps =
      sealed_file alg (file_key kdf key (fh_salt h')) (fh_serialized h') (fh_nonce_prefix h') aad qs"
    unfolding is_sealed_def by blast
  have "length (fh_serialized h) = 50" "length (fh_serialized h') = 50"
    using keyed.parses 1(1) 2(1) by blast+
  then have len: "length (fh_serialized h) = length (fh_serialized h')" by simp
  have "fh_serialized h = fh_serialized h' \<and>
      chunk_body alg (file_key kdf key (fh_salt h)) (fh_serialized h) (fh_nonce_prefix h) aad 0 ps =
      chunk_body alg (file_key kdf key (fh_salt h')) (fh_serialized h') (fh_nonce_prefix h') aad 0 qs"
    by (rule append_eq_append_conv [OF disjI1 [OF len], THEN iffD1, OF eq [unfolded sealed_file_def]])
  then have hdr: "fh_serialized h = fh_serialized h'" and
    body: "chunk_body alg (file_key kdf key (fh_salt h)) (fh_serialized h) (fh_nonce_prefix h) aad 0 ps =
      chunk_body alg (file_key kdf key (fh_salt h')) (fh_serialized h') (fh_nonce_prefix h') aad 0 qs"
    by (rule conjunct1, rule conjunct2)
  from hdr have "h = h'" using headerc.decode_encode 1(1) 2(1) by (metis sum.inject(2))
  have "ps = qs" by (rule chunk_body_inject [OF prov 1(2) 2(2) body [unfolded \<open>h = h'\<close>]])
  with 1 2 show ?thesis by simp
qed

subsection \<open>From the payload to the file\<close>

lemma published_open:
  assumes prov: "gcm_provider ssl view alg" "kdf_provider ssl kdf" and input: "names s input = Some j"
    and pub: "published (open_with ssl OutputFile_write 50 parse_header fh_serialized fh_nonce_prefix
      (derive_file_key ssl key) aad) input output s s'"
  shows "names s output = None \<and> (\<exists>i. names s' output = Some i \<and> is_sealed alg kdf key aad (contents s j) (contents s' i))"
proof -
  from pub obtain i t0 t1 where none: "names s output = None" and
    run: "open_with ssl OutputFile_write 50 parse_header fh_serialized fh_nonce_prefix (derive_file_key ssl key) aad t0 =
      (Inr (), t1)" and t0: "istream_good (source t0)" "file_open (sink t0)" "file_content (sink t0) = []" and
    src: "\<not> broken (source t0) \<longrightarrow> remaining (source t0) = contents s j" and
    i: "names s' output = Some i" "contents s' i = file_content (sink t1)"
    unfolding published_def using input by blast
  from keyed_file.open_with_spec [OF prov t0(1,2) run] t0(3) src i none show ?thesis
    unfolding is_sealed_def by (auto, blast)
qed

lemma published_password_open:
  assumes prov: "gcm_provider ssl view alg" "kdf_provider ssl kdf" and input: "names s input = Some j"
    and pub: "published (open_with ssl OutputFile_write 64 parse_password_header ph_serialized ph_nonce_prefix
      (derive_password_file_key ssl password) aad) input output s s'"
  shows "names s output = None \<and>
    (\<exists>i. names s' output = Some i \<and> is_password_sealed alg kdf password aad (contents s j) (contents s' i))"
proof -
  from pub obtain i t0 t1 where none: "names s output = None" and
    run: "open_with ssl OutputFile_write 64 parse_password_header ph_serialized ph_nonce_prefix
      (derive_password_file_key ssl password) aad t0 = (Inr (), t1)" and
    t0: "istream_good (source t0)" "file_open (sink t0)" "file_content (sink t0) = []" and
    src: "\<not> broken (source t0) \<longrightarrow> remaining (source t0) = contents s j" and
    i: "names s' output = Some i" "contents s' i = file_content (sink t1)"
    unfolding published_def using input by blast
  from pass_file.open_with_spec [OF prov t0(1,2) run] t0(3) src i none show ?thesis
    unfolding is_password_sealed_def by (auto, blast)
qed

lemma seal_payload_spec:
  assumes prov: "gcm_provider ssl view alg" and key: "length key = 32" and np: "length np = 8"
    and t0: "istream_good (source t0)" "file_open (sink t0)" "file_content (sink t0) = []"
    and run: "seal_stream_payload ssl OutputFile_write hdr np key aad t0 = (Inr (), t1)"
  shows "file_content (sink t1) = sealed_file alg key hdr np aad (file_chunks (remaining (source t0))) \<and>
    \<not> broken (source t0)"
proof -
  from run obtain out where out: "OutputFile_write hdr (sink t0) = (Inr (), out)" and
    loop: "seal_loop ssl OutputFile_write hdr np key aad 0 (t0\<lparr>sink := out\<rparr>) = (Inr (), t1)"
    by (auto simp: seal_stream_payload_def action_iffs transfer_iffs)
  from ofile.write_returned [OF t0(2) out] have o: "file_content out = hdr" "file_open out" using t0(3) by simp_all
  from ofile.seal_loop_spec [OF prov key np _ _ loop] o t0(1) show ?thesis
    by (simp add: sealed_file_def file_body_def)
qed

lemma published_seal:
  assumes prov: "gcm_provider ssl view alg" and key: "length key = 32" and np: "length np = 8" and input: "names s input = Some j"
    and pub: "published (seal_stream_payload ssl OutputFile_write hdr np key aad) input output s s'"
  shows "names s output = None \<and> (\<exists>i. names s' output = Some i \<and>
    contents s' i = sealed_file alg key hdr np aad (file_chunks (contents s j)))"
proof -
  from pub obtain i t0 t1 where none: "names s output = None" and
    run: "seal_stream_payload ssl OutputFile_write hdr np key aad t0 = (Inr (), t1)" and
    t0: "istream_good (source t0)" "file_open (sink t0)" "file_content (sink t0) = []" and
    src: "\<not> broken (source t0) \<longrightarrow> remaining (source t0) = contents s j" and
    i: "names s' output = Some i" "contents s' i = file_content (sink t1)"
    unfolding published_def using input by blast
  from seal_payload_spec [OF prov key np t0 run] src i none show ?thesis by auto
qed

text \<open>The check before a job changes nothing.\<close>

lemma ensure_spec:
  assumes "ensure_output_does_not_exist output s = (r, t)"
  shows "evolves {} s t \<and> (case r of
      Inr u \<Rightarrow> names s output = None
    | Inl e \<Rightarrow> no_faults s \<longrightarrow> quiet s \<longrightarrow> e = output_exists \<and> names s output \<noteq> None)"
proof -
  obtain f s1 where c: "system_call s = (f, s1)" by fastforce
  note e = system_call_evolves [OF c]
  have none: "names s1 output = None \<Longrightarrow> names s output = None" using e unfolding evolves_def by (metis not_None_eq)
  have "(r, t) = (if f \<noteq> None then Inl (Error backend_failure ''File status check failed'')
      else if names s1 output = None then Inr () else Inl output_exists, s1)"
    using assms c by (cases "names s1 output"; cases f) (simp_all add: ensure_output_does_not_exist_def fs_exists_def)
  then show ?thesis
    using e none by (auto simp: no_faults_def evolves_def)
qed

lemma job_outcome_failed: "evolves {} s s' \<Longrightarrow> job_outcome m input output (Inl e) s s'"
  using evolves_keeps_files [of s s'] by (auto simp: job_outcome_def evolves_def)

lemma job_outcome_after:
  assumes first: "evolves {} s s1" and ok: "fs_ok s" and job: "job_outcome m input output r s1 s'"
  shows "job_outcome m input output r s s'"
proof -
  have k: "keeps_files s s1" by (rule evolves_keeps_files [OF first])
  have input: "names s1 input = Some j \<and> contents s1 j = contents s j" if "names s input = Some j" for j
    using k that ok by (simp add: keeps_files_def fs_ok_def)
  have none: "names s1 output = None \<Longrightarrow> names s output = None"
    using k unfolding keeps_files_def by (metis not_None_eq)
  have "published m input output s s'" if "published m input output s1 s'"
    using that input none unfolding published_def by metis
  moreover have "quiet s1 = quiet s" "no_faults s1 = no_faults s" "quiet s \<Longrightarrow> names s1 = names s"
    using first by (auto simp: evolves_def quiet_def no_faults_def)
  ultimately show ?thesis
    using job keeps_files_trans [OF k] by (auto simp: job_outcome_def)
qed

lemma checked_job_outcome:
  assumes ok: "fs_ok (disk s)" and keeps: "\<And>i d. keeps_sink (job_inv i d) m"
    and run: "mbind (disk_action (ensure_output_does_not_exist output)) (\<lambda>_. file_job ssl input output m) s = (r, s')"
  shows "job_outcome m input output r (disk s) (disk s')"
proof -
  obtain r1 d where 1: "ensure_output_does_not_exist output (disk s) = (r1, d)" by fastforce
  note e = conjunct1 [OF ensure_spec [OF 1]]
  show ?thesis
  proof (cases r1)
    case (Inl x)
    with run 1 e show ?thesis by (auto simp: mbind_def disk_action_def mzoom_def intro: job_outcome_failed)
  next
    case (Inr u)
    with run 1 have job: "file_job ssl input output m (s\<lparr>disk := d\<rparr>) = (r, s')"
      by (simp add: mbind_def disk_action_def mzoom_def)
    have "fs_ok (disk (s\<lparr>disk := d\<rparr>))" using e ok by (simp add: evolves_def)
    from file_job_spec [OF this keeps job] have "job_outcome m input output r d (disk s')" by simp
    then show ?thesis by (rule job_outcome_after [OF e ok])
  qed
qed

lemma open_file_outcome:
  assumes "fs_ok (disk s)" and "open_file ssl input output key aad s = (r, s')"
  shows "job_outcome (open_with ssl OutputFile_write 50 parse_header fh_serialized fh_nonce_prefix (derive_file_key ssl key) aad)
    input output r (disk s) (disk s')"
  using checked_job_outcome [OF assms(1) job.opening_keeps(1) assms(2) [unfolded path_overloads]] .

lemma open_file_with_password_outcome:
  assumes "fs_ok (disk s)" and "open_file_with_password ssl input output password aad s = (r, s')"
  shows "job_outcome (open_with ssl OutputFile_write 64 parse_password_header ph_serialized ph_nonce_prefix
      (derive_password_file_key ssl password) aad) input output r (disk s) (disk s')"
proof (cases "password = []")
  case True
  with assms(2) have "r = Inl (Error invalid_input ''password must not be empty'')" "s' = s"
    by (auto simp: open_file_with_password_def require_non_empty_password_def mbind_def mlift_def)
  then show ?thesis by (simp add: job_outcome_failed)
next
  case False
  show ?thesis
    using checked_job_outcome [OF assms(1) job.opening_keeps(2) assms(2) [unfolded path_overloads(3) [OF False]]] .
qed

text \<open>Sealing: the header and the key are made before the job.\<close>

lemma seal_course:
  fixes create :: "('o runtime, exn, 'h) action"
  assumes ok: "fs_ok (disk s)"
    and run: "mbind (disk_action (ensure_output_does_not_exist dest)) (\<lambda>_.
      mbind (rt_action create) (\<lambda>h. mbind (rt_action (derive h)) (\<lambda>k.
      wipe_key_after k (seal_file_payload ssl input dest (serialized h) (prefix h) k aad)))) s = (r, s')"
  shows "(\<exists>e. r = Inl e \<and> evolves {} (disk s) (disk s')) \<or>
    (\<exists>h k c1 c2. create (rt s) = (Inr h, c1) \<and> derive h c1 = (Inr k, c2) \<and>
       job_outcome (seal_stream_payload ssl OutputFile_write (serialized h) (prefix h) k aad) input dest r (disk s) (disk s'))"
proof -
  obtain r1 d where 1: "ensure_output_does_not_exist dest (disk s) = (r1, d)" by fastforce
  note e = conjunct1 [OF ensure_spec [OF 1]]
  obtain r2 c1 where 2: "create (rt s) = (r2, c1)" by fastforce
  show ?thesis
  proof (cases r1)
    case (Inl x)
    with run 1 e show ?thesis by (auto simp: mbind_def disk_action_def mzoom_def)
  next
    case Inr1: (Inr u)
    show ?thesis
    proof (cases r2)
      case (Inl x)
      with run 1 2 Inr1 e show ?thesis by (auto simp: mbind_def disk_action_def rt_action_def mzoom_def)
    next
      case Inr2: (Inr h)
      obtain r3 c2 where 3: "derive h c1 = (r3, c2)" by fastforce
      show ?thesis
      proof (cases r3)
        case (Inl x)
        with run 1 2 3 Inr1 Inr2 e show ?thesis by (auto simp: mbind_def disk_action_def rt_action_def mzoom_def)
      next
        case Inr3: (Inr k)
        let ?m = "seal_stream_payload ssl OutputFile_write (serialized h) (prefix h) k aad"
        have "wipe_key_after k (file_job ssl input dest ?m) (s\<lparr>disk := d, rt := c2\<rparr>) = (r, s')"
          using run 1 2 3 Inr1 Inr2 Inr3
          by (simp add: mbind_def disk_action_def rt_action_def mzoom_def path_overloads)
        then obtain t where job: "file_job ssl input dest ?m (s\<lparr>disk := d, rt := c2\<rparr>) = (r, t)" and t: "disk s' = disk t"
          by (auto simp: wipe_key_after_def split: prod.splits)
        have "fs_ok d" using e ok by (simp add: evolves_def)
        with file_job_spec [OF _ job.payloads_keep(1) job] have "job_outcome ?m input dest r d (disk t)" by simp
        then have "job_outcome ?m input dest r (disk s) (disk s')" using job_outcome_after [OF e ok] t by simp
        with 2 3 Inr2 Inr3 show ?thesis by blast
      qed
    qed
  qed
qed

subsection \<open>When nothing fails\<close>

text \<open>A disk on which a job can succeed: no faults, nobody else, a file to read, and free names.\<close>

definition disk_ready :: "path \<Rightarrow> path \<Rightarrow> nat \<Rightarrow> file_system \<Rightarrow> bool" where
  "disk_ready input output j s \<longleftrightarrow> fs_ok s \<and> no_faults s \<and> quiet s \<and> names s input = Some j \<and> names s output = None \<and>
     (\<forall>p. is_temp_path output p \<longrightarrow> names s p = None)"

lemma disk_ready_after:
  assumes "evolves {} s t" and "disk_ready input output j s"
  shows "disk_ready input output j t" and "contents t j = contents s j"
  using assms by (auto simp: evolves_def disk_ready_def no_faults_def quiet_def fs_ok_def)

lemma open_temp_returns:
  assumes healthy: "gcm_healthy ssl view alg" and ready: "disk_ready input output j (disk s)"
  shows "\<exists>out s'. open_unique_temp_output ssl output s = (Inr out, s')"
proof -
  obtain token c where "random_bytes ssl 16 (rt s) = (Inr token, c)" using random_bytes_returns [OF healthy] by blast
  then have p: "make_unique_temp_path ssl output (rt s) = (Inr (output @ temp_suffix token), c)"
    by (simp add: make_unique_temp_path_def api_random_bytes_def mbind_def mreturn_def)
  let ?p = "output @ temp_suffix token"
  have temp: "is_temp_path output ?p" using make_unique_temp_path_result [OF p] by simp
  obtain result out d where t: "try_open_output_exclusive ?p (default_OutputFile, disk s) = (result, (out, d))"
    by (metis prod.exhaust)
  have "result = opened"
    using try_open_spec [OF t] ready temp by (cases result) (auto simp: disk_ready_def)
  moreover obtain n where n: "(32 :: nat) = Suc n" by (rule that [of 31]) simp
  ultimately show ?thesis
    using p t unfolding open_unique_temp_output_def n by (simp add: mbind_def rt_action_def disk_action_def mzoom_def mreturn_def)
qed

lemma file_job_returns:
  assumes healthy: "gcm_healthy ssl view alg" and ready: "disk_ready input output j (disk s)"
    and keeps: "\<And>i d. keeps_sink (job_inv i d) m"
    and m: "\<And>t0. istream_good (source t0) \<Longrightarrow> \<not> broken (source t0) \<Longrightarrow> remaining (source t0) = contents (disk s) j \<Longrightarrow>
      file_reliable (sink t0) \<Longrightarrow> \<exists>t1. m t0 = (Inr (), t1)"
  shows "\<exists>s'. file_job ssl input output m s = (Inr (), s')"
proof -
  note r = ready [unfolded disk_ready_def]
  obtain out s1 where 1: "open_unique_temp_output ssl output s = (Inr out, s1)"
    using open_temp_returns [OF healthy ready] by blast
  from open_attempts_spec [OF 1 [unfolded open_unique_temp_output_def]] obtain p i where
    p: "is_temp_path output p" "temp_opened p i out (disk s) (disk s1)" by auto
  note base = temp_opened_base [OF p(2,1)]
  note b = base(1) [unfolded job_base_def]
  obtain r1 d1 where 2: "open_input input (disk s1) = (r1, d1)" by fastforce
  note oi = open_input_spec [OF 2]
  have nf: "no_faults (disk s1)" using r b by (auto simp: keeps_files_def no_faults_def)
  have in1: "names (disk s1) input = Some j" "contents (disk s1) j = contents (disk s) j" "fs_ok (disk s1)"
    using r b by (auto simp: keeps_files_def fs_ok_def)
  from oi nf in1 obtain stream where r1: "r1 = Inr stream" and
    stream: "istream_good stream" "\<not> broken stream" "remaining stream = contents (disk s) j"
    by (cases r1) auto
  have inv1: "job_inv i (disk s1) (out, d1)"
    using base(2) evolves_trans [OF _ evolves_from_empty [OF conjunct1 [OF oi]]] by (simp add: job_inv_def)
  have rel: "file_reliable (out, d1)"
    using job_inv_open [OF inv1] nf oi by (auto simp: file_reliable_def evolves_def no_faults_def)
  let ?t0 = "\<lparr>source = stream, sink = (out, d1), crypto = rt s1\<rparr>"
  from m [of ?t0] stream rel obtain t1 where t1: "m ?t0 = (Inr (), t1)" by auto
  have inv2: "job_inv i (disk s1) (sink t1)" using keeps_sinkD [OF keeps _ t1] inv1 by simp
  obtain r3 st where fin: "finish p output (sink t1) = (r3, st)" by (metis surj_pair)
  have "r3 = Inr ()"
  proof (rule ccontr)
    assume "r3 \<noteq> Inr ()"
    with finish_spec(3) [OF fin inv2 base(1) conjunct1 [OF r]] r show False by simp
  qed
  then have "mbind (open_source input) (\<lambda>_. mbind m (\<lambda>_. sink_action (finish p output)))
      \<lparr>source = fresh_istream [], sink = (out, disk s1), crypto = rt s1\<rparr> = (Inr (), t1\<lparr>sink := st\<rparr>)"
    using 2 r1 t1 fin
    by (simp add: mbind_def open_source_def sink_action_def on_files_def mzoom_def mmodify_def)
  then show ?thesis
    using 1 base(3) by (simp add: file_job_def mbind_def with_output_def mon_error_def)
qed

lemma seal_payload_returns:
  assumes prov: "gcm_provider ssl view alg" "gcm_healthy ssl view alg" and key: "length key = 32" and np: "length np = 8"
    and aad: "aad_fits hdr aad" and t0: "istream_good (source t0)" "\<not> broken (source t0)" "file_reliable (sink t0)"
    and small: "chunk_count (remaining (source t0)) \<le> 2 ^ 32"
  shows "\<exists>t1. seal_stream_payload ssl OutputFile_write hdr np key aad t0 = (Inr (), t1)"
proof -
  obtain out where out: "OutputFile_write hdr (sink t0) = (Inr (), out)" "file_reliable out"
    using ofile.reliable_returns [OF t0(3)] by blast
  have "istream_good (source (t0\<lparr>sink := out\<rparr>))" "\<not> broken (source (t0\<lparr>sink := out\<rparr>))" "file_reliable (sink (t0\<lparr>sink := out\<rparr>))"
    "unat (0 :: u32) + chunk_count (remaining (source (t0\<lparr>sink := out\<rparr>))) \<le> 2 ^ 32"
    using t0 out small by simp_all
  from ofile.seal_loop_returns [OF prov key np aad this] out show ?thesis
    by (auto simp: seal_stream_payload_def mbind_def sink_action_def mzoom_def)
qed

lemma ensure_returns:
  assumes "disk_ready input output j s"
  shows "\<exists>t. ensure_output_does_not_exist output s = (Inr (), t) \<and> evolves {} s t"
proof -
  obtain r t where 1: "ensure_output_does_not_exist output s = (r, t)" by fastforce
  from ensure_spec [OF 1] assms have "r = Inr ()" by (cases r) (auto simp: disk_ready_def)
  with 1 ensure_spec [OF 1] show ?thesis by blast
qed

lemma seal_file_returns:
  assumes prov: "gcm_provider ssl view alg" "gcm_healthy ssl view alg" "kdf_healthy ssl"
    and ready: "disk_ready input output j (disk s)" and small: "chunk_count (contents (disk s) j) \<le> 2 ^ 32"
    and aad: "length aad \<le> 2000000000"
  shows "\<exists>s'. seal_file ssl input output key aad s = (Inr (), s')"
proof -
  obtain d where 1: "ensure_output_does_not_exist output (disk s) = (Inr (), d)" "evolves {} (disk s) d"
    using ensure_returns [OF ready] by blast
  obtain h c1 where 2: "make_header ssl (rt s) = (Inr h, c1)" using make_header_returns [OF prov(2)] by blast
  have h: "valid_header h" using keyed.created [OF 2] by simp
  obtain k c2 where 3: "derive_file_key ssl key h c1 = (Inr k, c2)" using derive_file_key_returns [OF prov(3)] by blast
  have k: "length k = 32" using keyed.derived [OF 3] by simp
  note p = keyed.parses [OF h]
  have fits: "aad_fits (fh_serialized h) aad" using aad p by (simp add: aad_fits_def int_max_def)
  let ?s = "s\<lparr>disk := d, rt := c2\<rparr>"
  have ready': "disk_ready input output j (disk ?s)" and same: "contents (disk ?s) j = contents (disk s) j"
    using disk_ready_after [OF 1(2) ready] by simp_all
  have "\<exists>s'. file_job ssl input output
      (seal_stream_payload ssl OutputFile_write (fh_serialized h) (fh_nonce_prefix h) k aad) ?s = (Inr (), s')"
    by (rule file_job_returns [OF prov(2) ready' job.payloads_keep(1)],
        rule seal_payload_returns [OF prov(1,2) k _ fits]) (use p small same in simp_all)
  with 1 2 3 show ?thesis
    by (auto simp: seal_file_def mbind_def disk_action_def rt_action_def mzoom_def wipe_key_after_def path_overloads)
qed

lemma open_file_returns:
  fixes ssl :: "('o, 'c) openssl"
  assumes prov: "gcm_provider ssl view alg" "gcm_healthy ssl view alg" "kdf_provider ssl kdf" "kdf_healthy ssl"
    and ready: "disk_ready input output j (disk s)" and aad: "length aad \<le> 2000000000"
    and sealed: "valid_header h" "well_chunked ps" "length ps \<le> 2 ^ 32"
      "contents (disk s) j = sealed_file alg (file_key kdf key (fh_salt h)) (fh_serialized h) (fh_nonce_prefix h) aad ps"
  shows "\<exists>s'. open_file ssl input output key aad s = (Inr (), s')"
proof -
  obtain d where 1: "ensure_output_does_not_exist output (disk s) = (Inr (), d)" "evolves {} (disk s) d"
    using ensure_returns [OF ready] by blast
  have fits: "length aad \<le> int_max - 9 - 50" "(50 :: nat) \<le> 1000" using aad by (simp_all add: int_max_def)
  let ?s = "s\<lparr>disk := d\<rparr>"
  have ready': "disk_ready input output j (disk ?s)" and same: "contents (disk ?s) j = contents (disk s) j"
    using disk_ready_after [OF 1(2) ready] by simp_all
  have "\<exists>s'. file_job ssl input output (open_with ssl OutputFile_write 50 parse_header fh_serialized fh_nonce_prefix
      (derive_file_key ssl key) aad) ?s = (Inr (), s')"
  proof (rule file_job_returns [OF prov(2) ready' job.opening_keeps(1)])
    fix t0 :: "(output_state, 'o) transfer"
    assume t0: "istream_good (source t0)" "\<not> broken (source t0)" "remaining (source t0) = contents (disk ?s) j"
      "file_reliable (sink t0)"
    have input: "remaining (source t0) =
        sealed_file alg (file_key kdf key (fh_salt h)) (fh_serialized h) (fh_nonce_prefix h) aad ps"
      using t0(3) same sealed(4) by simp
    from keyed_file.open_with_returns [OF prov TrueI t0(1,2,4) fits sealed(1-3) input]
    show "\<exists>t1. open_with ssl OutputFile_write 50 parse_header fh_serialized fh_nonce_prefix (derive_file_key ssl key) aad t0 =
        (Inr (), t1)" by blast
  qed
  with 1 show ?thesis
    unfolding path_overloads by (auto simp: mbind_def disk_action_def mzoom_def)
qed

subsection \<open>No undefined behaviour\<close>

lemma system_actions_defined [defined_intros]:
  "always_defined m \<Longrightarrow> always_defined (disk_action m)" "always_defined m' \<Longrightarrow> always_defined (rt_action m')"
  "always_defined m'' \<Longrightarrow> always_defined (wipe_key_after k m'')"
  by (simp_all add: disk_action_def rt_action_def defined_mzoom)
    (simp add: always_defined_def wipe_key_after_def case_prod_beta)

lemma path_overloads_defined [defined_intros]:
  "always_defined (seal_file ssl input output key aad)" "always_defined (open_file ssl input output key aad)"
  "always_defined (seal_file_with_password ssl input output password aad)"
  "always_defined (open_file_with_password ssl input output password aad)"
proof -
  have payload: "always_defined (seal_file_payload ssl input output hdr np k aad)" for hdr np k
    unfolding path_overloads by (intro file_job_defined job.payloads_keep)
  show "always_defined (seal_file ssl input output key aad)"
    unfolding seal_file_def by (intro defined_intros payload)
  show "always_defined (seal_file_with_password ssl input output password aad)"
    unfolding seal_file_with_password_def by (intro defined_intros payload)
  show "always_defined (open_file ssl input output key aad)"
    unfolding path_overloads by (intro defined_intros file_job_defined job.opening_keeps)
  show "always_defined (open_file_with_password ssl input output password aad)"
  proof (cases "password = []")
    case True
    then show ?thesis
      by (simp add: open_file_with_password_def require_non_empty_password_def always_defined_def mbind_def mlift_def)
  next
    case False
    show ?thesis
      unfolding path_overloads(3) [OF False] by (intro defined_intros file_job_defined job.opening_keeps)
  qed
qed

subsection \<open>Properties\<close>

lemma outcome_of_all:
  fixes ssl :: "('o, 'c) openssl"
  assumes "action \<in> {seal_file ssl input output secret aad, open_file ssl input output secret aad,
      seal_file_with_password ssl input output secret aad, open_file_with_password ssl input output secret aad}"
    and ok: "fs_ok (disk s)" and "action s = (r, s')"
  shows "\<exists>m :: ((output_state, 'o) transfer, exn, unit) action. job_outcome m input output r (disk s) (disk s')"
proof -
  from assms(1) consider "action = seal_file ssl input output secret aad" | "action = open_file ssl input output secret aad" |
    "action = seal_file_with_password ssl input output secret aad" | "action = open_file_with_password ssl input output secret aad"
    by blast
  then show ?thesis
  proof cases
    case 1
    with assms(3) seal_course [OF ok, where create = "make_header ssl" and serialized = fh_serialized and
        prefix = fh_nonce_prefix and derive = "derive_file_key ssl secret" and ssl = ssl and input = input and
        dest = "output" and aad = aad and r = r and s' = s'] job_outcome_failed
    show ?thesis unfolding 1 seal_file_def by blast
  next
    case 2
    with assms(3) open_file_outcome [OF ok] show ?thesis by blast
  next
    case 3
    show ?thesis
    proof (cases "secret = []")
      case True
      with 3 assms(3) have "r = Inl (Error invalid_input ''password must not be empty'')" "s' = s"
        by (auto simp: seal_file_with_password_def require_non_empty_password_def mbind_def mlift_def)
      then show ?thesis using job_outcome_failed [OF evolves_refl] by blast
    next
      case False
      with 3 assms(3) seal_course [OF ok, where create = "make_password_header ssl" and serialized = ph_serialized and
          prefix = ph_nonce_prefix and derive = "derive_password_file_key ssl secret" and ssl = ssl and input = input and
          dest = "output" and aad = aad and r = r and s' = s'] job_outcome_failed
      show ?thesis by (simp add: seal_file_with_password_def require_non_empty_password_def mlift_Inr) blast
    qed
  next
    case 4
    with assms(3) open_file_with_password_outcome [OF ok] show ?thesis by blast
  qed
qed

definition toy_system :: "bytes \<Rightarrow> nat system" where
  "toy_system data = \<lparr>disk = \<lparr>platform = Unix, names = [''in'' \<mapsto> 0], contents = (\<lambda>_. data), fresh = 1, calls = 0, faults = (\<lambda>_. None),
     others = (\<lambda>_. None), synced_dirs = []\<rparr>, rt = \<lparr>provider = 0, retired = []\<rparr>\<rparr>"

lemma toy_system_ready:
  "disk_ready ''in'' ''out'' 0 (disk (toy_system data))" "contents (disk (toy_system data)) 0 = data"
  "fs_ok (disk (toy_system data))" "quiet (disk (toy_system data))" "no_faults (disk (toy_system data))"
  "names (disk (toy_system data)) ''in'' = Some 0" "names (disk (toy_system data)) ''out'' = None"
  by (auto simp: disk_ready_def toy_system_def fs_ok_def no_faults_def quiet_def is_temp_path_def)



text \<open>
  C2: An opened file appears complete and authenticated, or not at all. Whatever fails: when \<open>open_file\<close> returns, the
  output did not exist and holds exactly the plaintext of which the input is a sealing; and if nobody else creates
  the output meanwhile, then also when it throws the output is either as before or complete.
\<close>

theorem open_file_all_or_nothing:
  assumes "gcm_provider ssl view alg" and "kdf_provider ssl kdf" and "fs_ok (disk s)" and "names (disk s) input = Some j"
    and "open_file ssl input output key aad s = (r, s')"
  defines "complete \<equiv> names (disk s) output = None \<and> (\<exists>i. names (disk s') output = Some i \<and>
      is_sealed alg kdf key aad (contents (disk s) j) (contents (disk s') i))"
  shows "(r = Inr () \<longrightarrow> complete) \<and>
    (quiet (disk s) \<longrightarrow> complete \<or> names (disk s') output = names (disk s) output)"
  using open_file_outcome [OF assms(3,5)] published_open [OF assms(1,2,4)] unfolding job_outcome_def complete_def by blast

text \<open>
  C4: The same for sealing: the output appears as the complete sealing of the whole input, or not at all.
\<close>

theorem seal_file_all_or_nothing:
  assumes "gcm_provider ssl view alg" and "kdf_provider ssl kdf" and "fs_ok (disk s)" and "names (disk s) input = Some j"
    and "seal_file ssl input output key aad s = (r, s')"
  defines "complete \<equiv> names (disk s) output = None \<and> (\<exists>i. names (disk s') output = Some i \<and>
      is_sealed alg kdf key aad (contents (disk s') i) (contents (disk s) j))"
  shows "(r = Inr () \<longrightarrow> complete) \<and>
    (quiet (disk s) \<longrightarrow> complete \<or> names (disk s') output = names (disk s) output)"
  using seal_course [OF assms(3,5) [unfolded seal_file_def]]
proof (elim disjE exE conjE)
  fix e assume "r = Inl e" "evolves {} (disk s) (disk s')"
  then show ?thesis by (auto simp: evolves_def)
next
  fix h k c1 c2
  assume h: "make_header ssl (rt s) = (Inr h, c1)" and k: "derive_file_key ssl key h c1 = (Inr k, c2)"
    and job: "job_outcome (seal_stream_payload ssl OutputFile_write (fh_serialized h) (fh_nonce_prefix h) k aad)
      input output r (disk s) (disk s')"
  have valid: "valid_header h" using keyed.created [OF h] by simp
  have key: "length k = 32" "k = file_key kdf key (fh_salt h)"
    using keyed.derived [OF k] keyed.derived_value [OF assms(2) valid k] by simp_all
  have np: "length (fh_nonce_prefix h) = 8" using keyed.parses [OF valid] by simp
  have complete if "published (seal_stream_payload ssl OutputFile_write (fh_serialized h) (fh_nonce_prefix h) k aad)
      input output (disk s) (disk s')"
    using published_seal [OF assms(1) key(1) np assms(4) that] valid key(2) well_chunked_file_chunks
    unfolding complete_def is_sealed_def by (metis concat_file_chunks)
  with job show ?thesis unfolding job_outcome_def by blast
qed

lemma open_file_all_or_nothing_witness:
  "names (disk (snd (open_file toy_ssl ''in'' ''out'' toy_key [] (toy_system [1, 2])))) ''out'' = None"
proof -
  obtain r s' where run: "open_file toy_ssl ''in'' ''out'' toy_key [] (toy_system [1, 2]) = (r, s')" by fastforce
  have "\<not> is_sealed toy_alg toy_kdf toy_key [] [1, 2] p" for p
    by (auto simp: is_sealed_def sealed_file_def valid_header_def dest: arg_cong [where f = length])
  then show ?thesis
    using open_file_all_or_nothing [OF toy_provider toy_kdf_laws(1) toy_system_ready(3,6) run]
      toy_system_ready(2,4,7) run by simp
qed

lemma seal_file_all_or_nothing_witness:
  "\<exists>i s'. seal_file toy_ssl ''in'' ''out'' toy_key [7] (toy_system [1, 2]) = (Inr (), s') \<and> names (disk s') ''out'' = Some i \<and>
     is_sealed toy_alg toy_kdf toy_key [7] (contents (disk s') i) [1, 2]"
proof -
  have "length [7 :: byte] \<le> 2000000000" "chunk_count (contents (disk (toy_system [1, 2])) 0) \<le> 2 ^ 32"
    by (simp_all add: toy_system_ready small_chunk_count)
  with seal_file_returns [OF toy_provider toy_healthy toy_kdf_laws(2) toy_system_ready(1)] obtain s' where
    run: "seal_file toy_ssl ''in'' ''out'' toy_key [7] (toy_system [1, 2]) = (Inr (), s')" by blast
  from seal_file_all_or_nothing [OF toy_provider toy_kdf_laws(1) toy_system_ready(3,6) run] run
  show ?thesis by (auto simp: toy_system_ready)
qed

text \<open>
  C17: The same for files under a password: whichever of the two operations it is, the output appears complete or not
  at all, and when the operation returns it is complete.
\<close>

theorem password_files_all_or_nothing:
  assumes "gcm_provider ssl view alg" and "kdf_provider ssl kdf" and "fs_ok (disk s)" and "names (disk s) input = Some j"
  shows "(case open_file_with_password ssl input output password aad s of (r, s') \<Rightarrow>
      let complete = names (disk s) output = None \<and> (\<exists>i. names (disk s') output = Some i \<and>
        is_password_sealed alg kdf password aad (contents (disk s) j) (contents (disk s') i))
      in (r = Inr () \<longrightarrow> complete) \<and> (quiet (disk s) \<longrightarrow> complete \<or> names (disk s') output = names (disk s) output)) \<and>
    (case seal_file_with_password ssl input output password aad s of (r, s') \<Rightarrow>
      let complete = names (disk s) output = None \<and> (\<exists>i. names (disk s') output = Some i \<and>
        is_password_sealed alg kdf password aad (contents (disk s') i) (contents (disk s) j))
      in (r = Inr () \<longrightarrow> complete) \<and> (quiet (disk s) \<longrightarrow> complete \<or> names (disk s') output = names (disk s) output))"
proof
  obtain r s' where run: "open_file_with_password ssl input output password aad s = (r, s')" by fastforce
  from open_file_with_password_outcome [OF assms(3) run] published_password_open [OF assms(1,2,4)]
  show "case open_file_with_password ssl input output password aad s of (r, s') \<Rightarrow>
      let complete = names (disk s) output = None \<and> (\<exists>i. names (disk s') output = Some i \<and>
        is_password_sealed alg kdf password aad (contents (disk s) j) (contents (disk s') i))
      in (r = Inr () \<longrightarrow> complete) \<and> (quiet (disk s) \<longrightarrow> complete \<or> names (disk s') output = names (disk s) output)"
    unfolding run prod.case Let_def job_outcome_def by blast
next
  obtain r s' where run: "seal_file_with_password ssl input output password aad s = (r, s')" by fastforce
  let ?complete = "names (disk s) output = None \<and> (\<exists>i. names (disk s') output = Some i \<and>
        is_password_sealed alg kdf password aad (contents (disk s') i) (contents (disk s) j))"
  have "(r = Inr () \<longrightarrow> ?complete) \<and> (quiet (disk s) \<longrightarrow> ?complete \<or> names (disk s') output = names (disk s) output)"
  proof (cases "password = []")
    case True
    with run have "r = Inl (Error invalid_input ''password must not be empty'')" "s' = s"
      by (auto simp: seal_file_with_password_def require_non_empty_password_def mbind_def mlift_def)
    then show ?thesis by simp
  next
    case False
    with run have "mbind (disk_action (ensure_output_does_not_exist output)) (\<lambda>_. mbind (rt_action (make_password_header ssl)) (\<lambda>h.
        mbind (rt_action (derive_password_file_key ssl password h)) (\<lambda>k. wipe_key_after k
          (seal_file_payload ssl input output (ph_serialized h) (ph_nonce_prefix h) k aad)))) s = (r, s')"
      by (simp add: seal_file_with_password_def require_non_empty_password_def mlift_Inr)
    from seal_course [OF assms(3) this] show ?thesis
    proof (elim disjE exE conjE)
      fix e assume "r = Inl e" "evolves {} (disk s) (disk s')"
      then show ?thesis by (auto simp: evolves_def)
    next
      fix h k c1 c2
      assume h: "make_password_header ssl (rt s) = (Inr h, c1)" and k: "derive_password_file_key ssl password h c1 = (Inr k, c2)"
        and job: "job_outcome (seal_stream_payload ssl OutputFile_write (ph_serialized h) (ph_nonce_prefix h) k aad)
          input output r (disk s) (disk s')"
      have valid: "valid_password_header h" using pass.created [OF h] by simp
      have key: "length k = 32" "k = password_file_key kdf password (ph_salt h)"
        using pass.derived [OF k] pass.derived_value [OF assms(2) valid k] by simp_all
      have np: "length (ph_nonce_prefix h) = 8" using pass.parses [OF valid] by simp
      have ?complete if "published (seal_stream_payload ssl OutputFile_write (ph_serialized h) (ph_nonce_prefix h) k aad)
          input output (disk s) (disk s')"
        using published_seal [OF assms(1) key(1) np assms(4) that] valid key(2) well_chunked_file_chunks
        unfolding is_password_sealed_def by (metis concat_file_chunks)
      with job show ?thesis unfolding job_outcome_def by blast
    qed
  qed
  then show "case seal_file_with_password ssl input output password aad s of (r, s') \<Rightarrow>
      let complete = names (disk s) output = None \<and> (\<exists>i. names (disk s') output = Some i \<and>
        is_password_sealed alg kdf password aad (contents (disk s') i) (contents (disk s) j))
      in (r = Inr () \<longrightarrow> complete) \<and> (quiet (disk s) \<longrightarrow> complete \<or> names (disk s') output = names (disk s) output)"
    unfolding run prod.case Let_def .
qed

lemma password_files_all_or_nothing_witness:
  "names (disk (snd (open_file_with_password toy_ssl ''in'' ''out'' [112] [] (toy_system [1, 2])))) ''out'' = None"
proof -
  obtain r s' where run: "open_file_with_password toy_ssl ''in'' ''out'' [112] [] (toy_system [1, 2]) = (r, s')" by fastforce
  have "\<not> is_password_sealed toy_alg toy_kdf [112] [] [1, 2] p" for p
    by (auto simp: is_password_sealed_def sealed_file_def valid_password_header_def dest: arg_cong [where f = length])
  then show ?thesis
    using password_files_all_or_nothing [OF toy_provider toy_kdf_laws(1) toy_system_ready(3,6),
        of "[1, 2]" "''out''" "[112]" "[]"]
      toy_system_ready(2,4,7) run by (simp add: Let_def)
qed



text \<open>
  C3: A sealed file opens to what was sealed, and both operations succeed. With OpenSSL and the file system working, an
  input of at most \<open>2^32\<close> chunks and free output names, \<open>seal_file\<close> returns, and \<open>open_file\<close> on its output, under the
  same key and associated data, returns and leaves a file with the contents of the input.
\<close>

theorem sealed_file_opens:
  assumes prov: "gcm_provider ssl view alg" "gcm_healthy ssl view alg" "kdf_provider ssl kdf" "kdf_healthy ssl"
    and ready: "disk_ready input sealed_path j (disk s)" and aad: "length aad \<le> 2000000000"
    and small: "chunk_count (contents (disk s) j) \<le> 2 ^ 32"
    and free: "names (disk s) output = None" "output \<noteq> sealed_path" "\<forall>p. is_temp_path output p \<longrightarrow> names (disk s) p = None"
      "\<not> is_temp_path output sealed_path"
  shows "\<exists>s1 s2 i. seal_file ssl input sealed_path key aad s = (Inr (), s1) \<and>
    open_file ssl sealed_path output key aad s1 = (Inr (), s2) \<and>
    names (disk s2) output = Some i \<and> contents (disk s2) i = contents (disk s) j"
proof -
  note r = ready [unfolded disk_ready_def]
  obtain s1 where seal: "seal_file ssl input sealed_path key aad s = (Inr (), s1)"
    using seal_file_returns [OF prov(1,2,4) ready small aad] by blast
  from seal_course [OF conjunct1 [OF r] seal [unfolded seal_file_def]] obtain h k c1 c2 where
    h: "make_header ssl (rt s) = (Inr h, c1)" and k: "derive_file_key ssl key h c1 = (Inr k, c2)" and
    job: "job_outcome (seal_stream_payload ssl OutputFile_write (fh_serialized h) (fh_nonce_prefix h) k aad)
      input sealed_path (Inr ()) (disk s) (disk s1)" by blast
  have valid: "valid_header h" using keyed.created [OF h] by simp
  have key: "length k = 32" "k = file_key kdf key (fh_salt h)"
    using keyed.derived [OF k] keyed.derived_value [OF prov(3) valid k] by simp_all
  have np: "length (fh_nonce_prefix h) = 8" using keyed.parses [OF valid] by simp
  from job have pub: "published (seal_stream_payload ssl OutputFile_write (fh_serialized h) (fh_nonce_prefix h) k aad)
      input sealed_path (disk s) (disk s1)" by (simp add: job_outcome_def)
  from published_seal [OF prov(1) key(1) np _ pub, of j] r obtain m where
    m: "names (disk s1) sealed_path = Some m" "contents (disk s1) m =
      sealed_file alg (file_key kdf key (fh_salt h)) (fh_serialized h) (fh_nonce_prefix h) aad (file_chunks (contents (disk s) j))"
    using key(2) by auto
  have keeps: "keeps_files (disk s) (disk s1)" using job by (simp add: job_outcome_def)
  have names1: "names (disk s1) = (names (disk s))(sealed_path := Some m)"
    using job r m(1) by (simp add: job_outcome_def)
  have ready1: "disk_ready sealed_path output m (disk s1)"
    using keeps r names1 free m(1) by (auto simp: disk_ready_def keeps_files_def no_faults_def quiet_def)
  have count: "length (file_chunks (contents (disk s) j)) \<le> 2 ^ 32" using small by (simp add: length_file_chunks)
  obtain s2 where open': "open_file ssl sealed_path output key aad s1 = (Inr (), s2)"
    using open_file_returns [OF prov ready1 aad valid well_chunked_file_chunks count m(2)] by blast
  have "job_outcome (open_with ssl OutputFile_write 50 parse_header fh_serialized fh_nonce_prefix (derive_file_key ssl key) aad)
      sealed_path output (Inr ()) (disk s1) (disk s2)"
    using open_file_outcome [OF _ open'] ready1 by (simp add: disk_ready_def)
  then have opened: "published (open_with ssl OutputFile_write 50 parse_header fh_serialized fh_nonce_prefix
      (derive_file_key ssl key) aad) sealed_path output (disk s1) (disk s2)" by (simp add: job_outcome_def)
  from published_open [OF prov(1,3) m(1) opened] obtain i where
    i: "names (disk s2) output = Some i" "is_sealed alg kdf key aad (contents (disk s1) m) (contents (disk s2) i)" by blast
  have "is_sealed alg kdf key aad (contents (disk s1) m) (contents (disk s) j)"
    unfolding is_sealed_def using valid well_chunked_file_chunks m(2) concat_file_chunks by blast
  with i is_sealed_unique [OF prov(1)] have "contents (disk s2) i = contents (disk s) j" by blast
  with seal open' i(1) show ?thesis by blast
qed

lemma sealed_file_opens_witness:
  "\<exists>s1 s2 i. seal_file toy_ssl ''in'' ''mid'' toy_key [7] (toy_system [1, 2, 3]) = (Inr (), s1) \<and>
    open_file toy_ssl ''mid'' ''out'' toy_key [7] s1 = (Inr (), s2) \<and> names (disk s2) ''out'' = Some i \<and>
    contents (disk s2) i = [1, 2, 3]"
proof -
  have ready: "disk_ready ''in'' ''mid'' 0 (disk (toy_system [1, 2, 3]))"
    by (auto simp: disk_ready_def toy_system_def fs_ok_def no_faults_def quiet_def is_temp_path_def)
  have "length [7 :: byte] \<le> 2000000000" "chunk_count (contents (disk (toy_system [1, 2, 3])) 0) \<le> 2 ^ 32"
    "names (disk (toy_system [1, 2, 3])) ''out'' = None" "''out'' \<noteq> ''mid''"
    "\<forall>p. is_temp_path ''out'' p \<longrightarrow> names (disk (toy_system [1, 2, 3])) p = None" "\<not> is_temp_path ''out'' ''mid''"
    by (auto simp: toy_system_ready small_chunk_count toy_system_def is_temp_path_def)
  from sealed_file_opens [OF toy_provider toy_healthy toy_kdf_laws ready this, of toy_key] show ?thesis
    by (simp add: toy_system_ready)
qed

text \<open>
  C26: An error can be reported after the output has been published. When on Unix the link succeeds and the parent directory
  cannot be opened afterwards, \<open>commit_temp_file\<close> throws a backend failure although the output exists, complete.
\<close>

theorem commit_error_after_publication:
  assumes "platform s = Unix" and "names s temp_path = Some i" and "names s output = None" and "temp_path \<noteq> output" and "quiet s"
    and "faults s (calls s) = None" and "faults s (calls s + 2) = Some k"
  shows "\<exists>t. commit_temp_file temp_path output s = (Inl (Error backend_failure ''Directory open failed''), t) \<and>
    names t output = Some i \<and> contents t i = contents s i"
  using assms
  by (cases "faults s (Suc (calls s))")
    (simp_all add: commit_temp_file_def sys_link_def system_call_def remove_quietly_def fs_remove_def quiet_def Let_def
      flush_parent_directory_def sys_succeeds_def)

lemma commit_error_after_publication_witness:
  "\<exists>t. commit_temp_file ''t'' ''out'' \<lparr>platform = Unix, names = [''t'' \<mapsto> 0], contents = (\<lambda>_. [5]), fresh = 1, calls = 0,
      faults = (\<lambda>n. if n = 2 then Some 0 else None), others = (\<lambda>_. None), synced_dirs = []\<rparr> =
      (Inl (Error backend_failure ''Directory open failed''), t) \<and> names t ''out'' = Some 0 \<and> contents t 0 = [5]"
  using commit_error_after_publication [of "\<lparr>platform = Unix, names = [''t'' \<mapsto> 0], contents = (\<lambda>_. [5]), fresh = 1, calls = 0,
      faults = (\<lambda>n. if n = 2 then Some 0 else None), others = (\<lambda>_. None), synced_dirs = []\<rparr>" "''t''" 0 "''out''" 0]
  by (simp add: quiet_def)

text \<open>
  C25: On a platform that is neither Unix nor Windows a commit can destroy a file. When another process creates the output
  after it has been found free and before the rename, \<open>commit_temp_file\<close> returns, the output is the temporary file and
  the other file has no name any more.
\<close>

theorem portable_commit_overwrites:
  assumes "platform s = Elsewhere" and "no_faults s" and "\<forall>p i. names s p = Some i \<longrightarrow> i < fresh s"
    and "names s temp_path = Some i" and "names s output = None"
    and "others s (calls s) = None" and "others s (Suc (calls s)) = Some (output, data)"
  shows "\<exists>t. commit_temp_file temp_path output s = (Inr (), t) \<and> names t output = Some i \<and>
    contents t (fresh s) = data \<and> (\<forall>q. names t q \<noteq> Some (fresh s))"
proof -
  have "temp_path \<noteq> output" using assms(4,5) by auto
  moreover have "i \<noteq> fresh s" using assms(3,4) by blast
  moreover have "names s q \<noteq> Some (fresh s)" for q using assms(3) by blast
  ultimately show ?thesis
    using assms(1,2,4-7)
    by (simp add: commit_temp_file_def fs_exists_def fs_rename_def system_call_def Let_def no_faults_def create_file_def)
qed

lemma portable_commit_overwrites_witness:
  "\<exists>t. commit_temp_file ''t'' ''out'' \<lparr>platform = Elsewhere, names = [''t'' \<mapsto> 0], contents = (\<lambda>_. [5]), fresh = 1, calls = 0,
      faults = (\<lambda>_. None), others = (\<lambda>n. if n = 1 then Some (''out'', [7]) else None), synced_dirs = []\<rparr> = (Inr (), t) \<and>
    names t ''out'' = Some 0 \<and> contents t 1 = [7] \<and> (\<forall>q. names t q \<noteq> Some 1)"
  using portable_commit_overwrites [of "\<lparr>platform = Elsewhere, names = [''t'' \<mapsto> 0], contents = (\<lambda>_. [5]), fresh = 1, calls = 0,
      faults = (\<lambda>_. None), others = (\<lambda>n. if n = 1 then Some (''out'', [7]) else None), synced_dirs = []\<rparr>" "''t''" 0 "''out''" "[7]"]
  by (simp add: no_faults_def)

end
