(* ===== verification/Cli_Io.thy ===== *)
theory Cli_Io
  imports File_Properties Cli_Text Aead
begin

section \<open>The command line: files and streams\<close>

text \<open>
  The input and output helpers of \<open>src/cli/commands.cpp\<close>. The state of the tool is the file system, the runtime and the
  three standard streams. The tool has its own exclusive output files: an \<open>std::ostream\<close> on a stream buffer that writes
  to a descriptor without buffering. As in the library, an output is written under a temporary name and linked to
  its name at the end.
\<close>

text \<open>
  \<open>stdout_flushes\<close> is the environment's answer to \<open>fflush(stdout)\<close>: whether what the stream has taken reaches its file.
\<close>

record 'o console =
  sys :: "'o system"
  cin :: istream
  cout :: ostream
  cerr :: string
  stdout_flushes :: bool

definition con_disk :: "(file_system, exn, 'a) action \<Rightarrow> ('o console, exn, 'a) action" where
  "con_disk m = mzoom (\<lambda>s. disk (sys s)) (\<lambda>d s. s\<lparr>sys := (sys s)\<lparr>disk := d\<rparr>\<rparr>) m"

definition con_rt :: "('o runtime, exn, 'a) action \<Rightarrow> ('o console, exn, 'a) action" where
  "con_rt m = mzoom (\<lambda>s. rt (sys s)) (\<lambda>c s. s\<lparr>sys := (sys s)\<lparr>rt := c\<rparr>\<rparr>) m"

definition con_system :: "('o system, exn, 'a) action \<Rightarrow> ('o console, exn, 'a) action" where
  "con_system m = mzoom sys (\<lambda>x s. s\<lparr>sys := x\<rparr>) m"

subsection \<open>Standard output and error\<close>

text \<open>\<open>_setmode\<close> on Windows; elsewhere there is nothing to do.\<close>

definition set_standard_stream_binary :: "nat \<Rightarrow> (file_system, exn, unit) action" where
  "set_standard_stream_binary fd s =
     (if platform s = Windows
      then case sys_succeeds s of (changed, s1) \<Rightarrow>
        (if changed then Inr () else Inl (Runtime_error ''failed to set standard stream binary mode''), s1)
      else (Inr (), s))"

definition set_stdin_binary :: "(file_system, exn, unit) action" where
  "set_stdin_binary = set_standard_stream_binary 0"

definition set_stdout_binary :: "(file_system, exn, unit) action" where
  "set_stdout_binary = set_standard_stream_binary 1"

text \<open>\<open>std::cout << text\<close>; a failure only shows in the state of the stream.\<close>

definition print :: "string \<Rightarrow> ('o console, exn, unit) action" where
  "print s = mmodify (\<lambda>c. c\<lparr>cout := ostream_write (bytes_from_text s) (cout c)\<rparr>)"

definition print_line :: "string \<Rightarrow> ('o console, exn, unit) action" where
  "print_line s = mbind (print s) (\<lambda>_. print [nl])"

definition write_bytes :: "bytes \<Rightarrow> ('o console, exn, unit) action" where
  "write_bytes bs = mbind (mmodify (\<lambda>c. c\<lparr>cout := fold (\<lambda>b out. ostream_write [b] out) bs (cout c)\<rparr>)) (\<lambda>_. print [nl])"

text \<open>\<open>std::cout.flush()\<close>: a flush that fails sets \<open>badbit\<close>.\<close>

definition ostream_flush :: "bool \<Rightarrow> ostream \<Rightarrow> ostream" where
  "ostream_flush flushes out = (if flushes then out else out\<lparr>out_failed := True\<rparr>)"

definition fail :: "string \<Rightarrow> ('o console, exn, int) action" where
  "fail message = mbind (mmodify (\<lambda>c. c\<lparr>cerr := cerr c @ message @ [nl]\<rparr>)) (\<lambda>_. mreturn 1)"

definition print_command_help :: "string \<Rightarrow> ('o console, exn, bool) action" where
  "print_command_help command =
     (case command_help command of
        Some text \<Rightarrow> mbind (print_line text) (\<lambda>_. mreturn True)
      | None \<Rightarrow> mreturn False)"

subsection \<open>Reading files\<close>

definition open_cli_input_file :: "path \<Rightarrow> (file_system, exn, istream) action" where
  "open_cli_input_file p s =
     (case open_ifstream p s of
        (None, s1) \<Rightarrow> (Inl (Runtime_error ''failed to open input file''), s1)
      | (Some i, s1) \<Rightarrow> (Inr i, s1))"

text \<open>
  \<open>read_file\<close> takes the characters from the buffer with iterators, which leave the state of the stream alone; a read
  error of a file buffer is an exception of the library.
\<close>

definition buffer_error :: exn where
  "buffer_error = Runtime_error ''basic_filebuf::underflow error reading the file''"

definition read_file :: "path \<Rightarrow> (file_system, exn, bytes) action" where
  "read_file p =
     mbind (open_cli_input_file p) (\<lambda>i.
       if broken i then mthrow buffer_error
       else if \<not> istream_good i \<and> \<not> eofbit i then mthrow (Runtime_error ''failed to read input file'')
       else mreturn (map byte_of_char (map char_of_byte (remaining i))))"

definition password_from_file :: "path \<Rightarrow> (file_system, exn, bytes) action" where
  "password_from_file p =
     mbind (read_file p) (\<lambda>password.
       if password = [] then mthrow (Runtime_error ''password must not be empty'') else mreturn password)"

definition key_from_file :: "path \<Rightarrow> (file_system, exn, bytes) action" where
  "key_from_file p =
     mbind (read_file p) (\<lambda>key_bytes. mlift (key_from_hex (trim_ascii_whitespace (text_of_bytes key_bytes))))"

definition unsupported_command :: exn where
  "unsupported_command = Runtime_error ''unsupported command''"

definition key_from_option :: "string \<Rightarrow> string \<Rightarrow> (file_system, exn, bytes) action" where
  "key_from_option option v =
     (if option = ''--key-hex'' then mlift (key_from_hex v)
      else if option = ''--key-file'' then key_from_file v
      else mthrow unsupported_command)"

definition wrapping_key_from_option :: "string \<Rightarrow> string \<Rightarrow> (file_system, exn, bytes) action" where
  "wrapping_key_from_option option v =
     (if option = ''--wrapping-key-hex'' then mlift (key_from_hex v)
      else if option = ''--wrapping-key-file'' then key_from_file v
      else mthrow unsupported_command)"

definition aad_from_option :: "string \<Rightarrow> string \<Rightarrow> bytes result" where
  "aad_from_option option v =
     (if option = ''--aad-text'' then Inr (bytes_from_text v)
      else if option = ''--aad-hex'' then hex_decode v
      else Inl unsupported_command)"

subsection \<open>Exclusive output files\<close>

record cli_stream =
  descriptor :: "nat option"
  stream_failed :: bool

type_synonym cli_file = "cli_stream \<times> file_system"

text \<open>
  \<open>exclusive_output_stream_buffer::xsputn\<close>: calls of \<open>write\<close> until everything is written or one writes nothing; the
  result is the number of bytes written. On Windows a call takes at most \<open>INT_MAX\<close> bytes. A call that was interrupted before it wrote anything is repeated, and
  does not count.
\<close>

definition write_chunk :: "bytes \<Rightarrow> file_system \<Rightarrow> nat" where
  "write_chunk data s = (if platform s = Windows then min (length data) int_max else length data)"

function xsputn :: "nat \<Rightarrow> bytes \<Rightarrow> file_system \<Rightarrow> nat \<times> file_system" where
  "xsputn i data s =
     (if data = [] then (0, s)
      else case system_call s of (fault, s1) \<Rightarrow>
        let n = (case fault of None \<Rightarrow> write_chunk data s1 | Some k \<Rightarrow> min k (write_chunk data s1))
        in if n = 0 then (0, s1)
           else case xsputn i (drop n data) (append_to i (take n data) s1) of (rest, s2) \<Rightarrow> (n + rest, s2))"
  by pat_completeness auto
termination
  by (relation "measure (\<lambda>(i, data, s). length data)")
    (auto simp: write_chunk_def split: option.splits if_splits)

declare xsputn.simps [simp del]

text \<open>\<open>std::ostream::write\<close> on it. A stream that has failed takes nothing; a closed descriptor cannot be written.\<close>

definition cli_stream_write :: "bytes \<Rightarrow> cli_file \<Rightarrow> cli_file" where
  "cli_stream_write data f = (case f of (out, s) \<Rightarrow>
     if stream_failed out then f
     else case descriptor out of
       None \<Rightarrow> (out\<lparr>stream_failed := (data \<noteq> [])\<rparr>, s)
     | Some i \<Rightarrow> (case xsputn i data s of (n, s1) \<Rightarrow> (out\<lparr>stream_failed := (n \<noteq> length data)\<rparr>, s1)))"

text \<open>\<open>sync\<close> and \<open>close\<close> of the buffer, and \<open>close_quietly\<close> of its destructor.\<close>

definition buffer_sync :: "cli_file \<Rightarrow> bool \<times> cli_file" where
  "buffer_sync f = (case f of (out, s) \<Rightarrow> case sys_succeeds s of (synced, s1) \<Rightarrow> (synced, (out, s1)))"

definition buffer_close :: "cli_file \<Rightarrow> bool \<times> cli_file" where
  "buffer_close f = (case f of (out, s) \<Rightarrow>
     if descriptor out = None then (True, f)
     else case sys_succeeds s of (closed, s1) \<Rightarrow> (closed, (out\<lparr>descriptor := None\<rparr>, s1)))"

definition reset_output :: "cli_file \<Rightarrow> file_system" where
  "reset_output f = (case f of (out, s) \<Rightarrow>
     if descriptor out = None then s else snd (sys_succeeds s))"

definition stream_flush :: "cli_file \<Rightarrow> cli_file" where
  "stream_flush f =
     (if stream_failed (fst f) then f
      else case buffer_sync f of (synced, (out, s)) \<Rightarrow> (out\<lparr>stream_failed := \<not> synced\<rparr>, s))"

definition stream_close :: "cli_file \<Rightarrow> bool \<times> cli_file" where
  "stream_close f =
     (let f1 = stream_flush f;
          stream_ok = \<not> stream_failed (fst f1)
      in case buffer_close f1 of (closed, f2) \<Rightarrow> (closed \<and> stream_ok, f2))"

definition temporary_output_path_for :: "('o, 'c) openssl \<Rightarrow> path \<Rightarrow> ('o runtime, exn, path) action" where
  "temporary_output_path_for ssl output =
     mbind (api_random_bytes ssl 16) (\<lambda>token. mreturn (output @ temp_suffix token))"

definition remove_file_quietly :: "path \<Rightarrow> file_system \<Rightarrow> file_system" where
  "remove_file_quietly p s = fs_remove p s"

definition try_open_cli_output_exclusive :: "path \<Rightarrow> file_system \<Rightarrow> (ExclusiveOpenResult \<times> nat option) \<times> file_system" where
  "try_open_cli_output_exclusive p s =
     (case sys_open_exclusive p s of
        (Done i, s1) \<Rightarrow> ((opened, Some i), s1)
      | (Name_exists, s1) \<Rightarrow> ((already_exists, None), s1)
      | (Call_failed, s1) \<Rightarrow> ((failed, None), s1))"

text \<open>
  \<open>open_cli_output_file\<close>: the attempts left. The temporary path is an output parameter, so the caller sees the last one
  tried even when no file was opened.
\<close>

fun open_cli_attempts ::
  "('o, 'c) openssl \<Rightarrow> path \<Rightarrow> path \<Rightarrow> nat \<Rightarrow> 'o system \<Rightarrow> (cli_stream result \<times> path) \<times> 'o system" where
  "open_cli_attempts ssl output temp_path 0 s = ((Inl (Runtime_error ''failed to open output file''), temp_path), s)"
| "open_cli_attempts ssl output temp_path (Suc attempts) s =
     (case rt_action (temporary_output_path_for ssl output) s of
        (Inl e, s1) \<Rightarrow> ((Inl e, temp_path), s1)
      | (Inr p, s1) \<Rightarrow>
          (case try_open_cli_output_exclusive p (disk s1) of
             ((already_exists, _), d) \<Rightarrow> open_cli_attempts ssl output p attempts (s1\<lparr>disk := d\<rparr>)
           | ((opened, fd), d) \<Rightarrow> ((Inr \<lparr>descriptor = fd, stream_failed = False\<rparr>, p), s1\<lparr>disk := d\<rparr>)
           | ((failed, _), d) \<Rightarrow> ((Inl (Runtime_error ''failed to open output file''), p), s1\<lparr>disk := d\<rparr>)))"

definition open_cli_output_file ::
  "('o, 'c) openssl \<Rightarrow> path \<Rightarrow> path \<Rightarrow> 'o system \<Rightarrow> (cli_stream result \<times> path) \<times> 'o system" where
  "open_cli_output_file ssl output temp_path s = open_cli_attempts ssl output temp_path 32 s"

text \<open>\<open>std::filesystem::exists(path)\<close> without an error code throws when the status cannot be had.\<close>

definition cli_output_exists :: exn where
  "cli_output_exists = Runtime_error ''Output file already exists''"

definition ensure_output_file_does_not_exist :: "path \<Rightarrow> (file_system, exn, unit) action" where
  "ensure_output_file_does_not_exist p s =
     (case fs_exists p s of
        (None, s1) \<Rightarrow> (Inl (Runtime_error ''filesystem error''), s1)
      | (Some True, s1) \<Rightarrow> (Inl cli_output_exists, s1)
      | (Some False, s1) \<Rightarrow> (Inr (), s1))"

definition cli_write_failed :: exn where
  "cli_write_failed = Runtime_error ''failed to write output file''"

definition commit_output_file :: "path \<Rightarrow> path \<Rightarrow> (file_system, exn, unit) action" where
  "commit_output_file temp_path output s =
     (case sys_link temp_path output s of
        (Done _, s1) \<Rightarrow> (Inr (), remove_file_quietly temp_path s1)
      | (_, s1) \<Rightarrow> (case fs_exists output s1 of
          (Some True, s2) \<Rightarrow> (Inl cli_output_exists, s2)
        | (_, s2) \<Rightarrow> (Inl cli_write_failed, s2)))"

text \<open>
  The end of an exclusive output: the stream is closed, reset and committed. A handler removes the temporary file.
\<close>

definition close_and_commit :: "path \<Rightarrow> path \<Rightarrow> cli_file \<Rightarrow> unit result \<times> file_system" where
  "close_and_commit temp_path output f =
     (case stream_close f of (closed, f2) \<Rightarrow>
        if \<not> closed then (Inl cli_write_failed, reset_output f2)
        else commit_output_file temp_path output (reset_output f2))"

definition removing_on_error :: "path \<Rightarrow> unit result \<times> file_system \<Rightarrow> unit result \<times> file_system" where
  "removing_on_error temp_path x =
     (case x of (Inl e, d) \<Rightarrow> (Inl e, remove_file_quietly temp_path d) | (Inr _, d) \<Rightarrow> (Inr (), d))"

text \<open>
  \<open>write_new_output_file\<close>; the writer only writes to the stream. The handler removes the temporary path whenever
  there is one, opened or not.
\<close>

definition write_new_output_file ::
  "('o, 'c) openssl \<Rightarrow> path \<Rightarrow> (cli_file \<Rightarrow> cli_file) \<Rightarrow> ('o system, exn, unit) action" where
  "write_new_output_file ssl p writer =
     mbind (disk_action (ensure_output_file_does_not_exist p)) (\<lambda>_. \<lambda>s.
       case open_cli_output_file ssl p [] s of
         ((Inl e, temp_path), s1) \<Rightarrow>
           (Inl e, if temp_path \<noteq> [] then s1\<lparr>disk := remove_file_quietly temp_path (disk s1)\<rparr> else s1)
       | ((Inr out, temp_path), s1) \<Rightarrow>
           (case removing_on_error temp_path
               (let f = writer (out, disk s1)
                in if stream_failed (fst f) then (Inl cli_write_failed, reset_output f)
                   else close_and_commit temp_path p f)
            of (r, d) \<Rightarrow> (r, s1\<lparr>disk := d\<rparr>)))"

definition write_binary_file :: "('o, 'c) openssl \<Rightarrow> path \<Rightarrow> bytes \<Rightarrow> ('o system, exn, unit) action" where
  "write_binary_file ssl p bs = write_new_output_file ssl p (cli_stream_write bs)"

text \<open>Encoding a key of 32 bytes never throws, so the writer is total.\<close>

definition write_key_file :: "('o, 'c) openssl \<Rightarrow> path \<Rightarrow> bytes \<Rightarrow> ('o system, exn, unit) action" where
  "write_key_file ssl p key =
     write_new_output_file ssl p (\<lambda>f. case hex_encode key of
         Inr text \<Rightarrow> cli_stream_write [byte_of_char nl] (cli_stream_write (bytes_from_text text) f)
       | Inl _ \<Rightarrow> f)"

definition write_generated_key :: "('o, 'c) openssl \<Rightarrow> path \<Rightarrow> ('o system, exn, unit) action" where
  "write_generated_key ssl p =
     mbind (rt_action (api_generate_key ssl)) (\<lambda>key. write_key_file ssl p key)"

end
