(* ===== verification/Cli_Options.thy ===== *)
theory Cli_Options
  imports Cli_Io
begin

section \<open>The command line: options\<close>

text \<open>
  The option parsers of \<open>src/cli/commands.cpp\<close>. \<open>argv\<close> is the list of arguments with the name of the program first. Parsing
  has effects: files with keys, passwords, packets and plaintext are read at their options. Each parser is a
  loop over pairs of an option and its value; one definition models what the body of the loop does with a pair.
\<close>

record file_command_options =
  fc_input :: path
  fc_output :: path
  fc_key :: bytes
  fc_aad :: bytes
  fc_has_input :: bool
  fc_has_output :: bool
  fc_has_key :: bool
  fc_has_aad :: bool
  fc_input_is_stdin :: bool
  fc_output_is_stdout :: bool

record password_file_command_options =
  pc_input :: path
  pc_output :: path
  pc_password :: bytes
  pc_aad :: bytes
  pc_has_input :: bool
  pc_has_output :: bool
  pc_has_password :: bool
  pc_has_aad :: bool
  pc_input_is_stdin :: bool
  pc_output_is_stdout :: bool

record wrap_key_options =
  wk_key :: bytes
  wk_wrapping_key :: bytes
  wk_output :: path
  wk_has_key :: bool
  wk_has_wrapping_key :: bool
  wk_has_output :: bool

record unwrap_key_options =
  uk_packet :: bytes
  uk_wrapping_key :: bytes
  uk_output :: path
  uk_has_packet :: bool
  uk_has_wrapping_key :: bool
  uk_has_output :: bool

record encrypt_options =
  eo_plaintext :: bytes
  eo_key :: bytes
  eo_aad :: bytes
  eo_output :: path
  eo_has_plaintext :: bool
  eo_has_key :: bool
  eo_has_aad :: bool
  eo_has_output :: bool

record decrypt_options =
  do_packet :: bytes
  do_key :: bytes
  do_aad :: bytes
  do_output :: path
  do_has_packet :: bool
  do_has_key :: bool
  do_has_aad :: bool
  do_has_output :: bool

text \<open>Objects as their declarations initialise them.\<close>

definition no_file_command_options :: file_command_options where
  "no_file_command_options = \<lparr>fc_input = [], fc_output = [], fc_key = replicate 32 0, fc_aad = [],
     fc_has_input = False, fc_has_output = False, fc_has_key = False, fc_has_aad = False,
     fc_input_is_stdin = False, fc_output_is_stdout = False\<rparr>"

definition no_password_file_command_options :: password_file_command_options where
  "no_password_file_command_options = \<lparr>pc_input = [], pc_output = [], pc_password = [], pc_aad = [],
     pc_has_input = False, pc_has_output = False, pc_has_password = False, pc_has_aad = False,
     pc_input_is_stdin = False, pc_output_is_stdout = False\<rparr>"

definition no_wrap_key_options :: wrap_key_options where
  "no_wrap_key_options = \<lparr>wk_key = replicate 32 0, wk_wrapping_key = replicate 32 0, wk_output = [],
     wk_has_key = False, wk_has_wrapping_key = False, wk_has_output = False\<rparr>"

definition no_unwrap_key_options :: unwrap_key_options where
  "no_unwrap_key_options = \<lparr>uk_packet = [], uk_wrapping_key = replicate 32 0, uk_output = [],
     uk_has_packet = False, uk_has_wrapping_key = False, uk_has_output = False\<rparr>"

definition no_encrypt_options :: encrypt_options where
  "no_encrypt_options = \<lparr>eo_plaintext = [], eo_key = replicate 32 0, eo_aad = [], eo_output = [],
     eo_has_plaintext = False, eo_has_key = False, eo_has_aad = False, eo_has_output = False\<rparr>"

definition no_decrypt_options :: decrypt_options where
  "no_decrypt_options = \<lparr>do_packet = [], do_key = replicate 32 0, do_aad = [], do_output = [],
     do_has_packet = False, do_has_key = False, do_has_aad = False, do_has_output = False\<rparr>"

definition reject_duplicate :: "bool \<Rightarrow> string \<Rightarrow> (file_system, exn, unit) action" where
  "reject_duplicate already_set option =
     (if already_set then mthrow (Runtime_error (''duplicate option: '' @ option)) else mreturn ())"

definition conflicting :: "bool \<Rightarrow> string \<Rightarrow> (file_system, exn, unit) action" where
  "conflicting already_set message = (if already_set then mthrow (Runtime_error message) else mreturn ())"

text \<open>
  The loop over \<open>argv[index], argv[index + 1]\<close>. With an odd number of arguments it would read the null pointer at the end
  of \<open>argv\<close>.
\<close>

fun parse_pairs ::
  "(string \<Rightarrow> string \<Rightarrow> 'opts \<Rightarrow> (file_system, exn, 'opts) action) \<Rightarrow> string list \<Rightarrow> 'opts \<Rightarrow>
     (file_system, exn, 'opts) action" where
  "parse_pairs step [] options = mreturn options"
| "parse_pairs step [option] options = mthrow (Undefined_behaviour ''null argument'')"
| "parse_pairs step (option # v # rest) options =
     mbind (step option v options) (\<lambda>options'. parse_pairs step rest options')"

definition usage_error :: "string \<Rightarrow> (file_system, exn, 'a) action" where
  "usage_error usage = mthrow (Runtime_error usage)"

subsection \<open>Files\<close>

definition file_command_option ::
  "bool \<Rightarrow> string \<Rightarrow> string \<Rightarrow> file_command_options \<Rightarrow> (file_system, exn, file_command_options) action" where
  "file_command_option requires_output option v options =
     (if option = ''--in''
      then mbind (reject_duplicate (fc_has_input options) option) (\<lambda>_.
           mreturn (options\<lparr>fc_input := v, fc_input_is_stdin := is_standard_stream_marker v,
             fc_has_input := True\<rparr>))
      else if option = ''--out''
      then if \<not> requires_output then mthrow (Runtime_error (''unsupported file option: '' @ option))
           else mbind (reject_duplicate (fc_has_output options) option) (\<lambda>_.
             mreturn (options\<lparr>fc_output := v, fc_output_is_stdout := is_standard_stream_marker v,
               fc_has_output := True\<rparr>))
      else if option = ''--key-hex'' \<or> option = ''--key-file''
      then mbind (conflicting (fc_has_key options) ''conflicting key options'') (\<lambda>_.
           mbind (key_from_option option v) (\<lambda>key.
           mreturn (options\<lparr>fc_key := key, fc_has_key := True\<rparr>)))
      else if option = ''--aad-text'' \<or> option = ''--aad-hex''
      then mbind (conflicting (fc_has_aad options) ''conflicting AAD options'') (\<lambda>_.
           mbind (mlift (aad_from_option option v)) (\<lambda>aad.
           mreturn (options\<lparr>fc_aad := aad, fc_has_aad := True\<rparr>)))
      else mthrow (Runtime_error (''unsupported file option: '' @ option)))"

definition parse_file_command_options :: "string list \<Rightarrow> (file_system, exn, file_command_options) action" where
  "parse_file_command_options argv =
     (let requires_output = (argv ! 1 \<noteq> ''verify-file'')
      in if length argv < (if requires_output then 8 else 6) \<or> (length argv - 2) mod 2 \<noteq> 0 then usage_error (file_command_usage (argv ! 1))
      else mbind (parse_pairs (file_command_option requires_output) (drop 2 argv) no_file_command_options) (\<lambda>options.
        if \<not> fc_has_input options \<or> requires_output \<and> \<not> fc_has_output options \<or> \<not> fc_has_key options then usage_error (file_command_usage (argv ! 1))
        else mreturn options))"

definition password_file_command_option ::
  "bool \<Rightarrow> string \<Rightarrow> string \<Rightarrow> password_file_command_options \<Rightarrow> (file_system, exn, password_file_command_options) action" where
  "password_file_command_option requires_output option v options =
     (if option = ''--in''
      then mbind (reject_duplicate (pc_has_input options) option) (\<lambda>_.
           mreturn (options\<lparr>pc_input := v, pc_input_is_stdin := is_standard_stream_marker v,
             pc_has_input := True\<rparr>))
      else if option = ''--out''
      then if \<not> requires_output then mthrow (Runtime_error (''unsupported password file option: '' @ option))
           else mbind (reject_duplicate (pc_has_output options) option) (\<lambda>_.
             mreturn (options\<lparr>pc_output := v, pc_output_is_stdout := is_standard_stream_marker v,
               pc_has_output := True\<rparr>))
      else if option = ''--password-file''
      then mbind (reject_duplicate (pc_has_password options) option) (\<lambda>_.
           mbind (password_from_file v) (\<lambda>password.
           mreturn (options\<lparr>pc_password := password, pc_has_password := True\<rparr>)))
      else if option = ''--aad-text'' \<or> option = ''--aad-hex''
      then mbind (conflicting (pc_has_aad options) ''conflicting AAD options'') (\<lambda>_.
           mbind (mlift (aad_from_option option v)) (\<lambda>aad.
           mreturn (options\<lparr>pc_aad := aad, pc_has_aad := True\<rparr>)))
      else mthrow (Runtime_error (''unsupported password file option: '' @ option)))"

definition parse_password_file_command_options :: "string list \<Rightarrow> (file_system, exn, password_file_command_options) action" where
  "parse_password_file_command_options argv =
     (let requires_output = (argv ! 1 \<noteq> ''verify-file-password'')
      in if length argv < (if requires_output then 8 else 6) \<or> (length argv - 2) mod 2 \<noteq> 0 then usage_error (password_file_command_usage (argv ! 1))
      else mbind (parse_pairs (password_file_command_option requires_output) (drop 2 argv) no_password_file_command_options) (\<lambda>options.
        if \<not> pc_has_input options \<or> requires_output \<and> \<not> pc_has_output options \<or> \<not> pc_has_password options then usage_error (password_file_command_usage (argv ! 1))
        else mreturn options))"

subsection \<open>Keys and packets\<close>

definition wrap_key_option ::
  "string \<Rightarrow> string \<Rightarrow> wrap_key_options \<Rightarrow> (file_system, exn, wrap_key_options) action" where
  "wrap_key_option option v options =
     (if option = ''--key-hex'' \<or> option = ''--key-file''
      then mbind (conflicting (wk_has_key options) ''conflicting key options'') (\<lambda>_.
           mbind (key_from_option option v) (\<lambda>key.
           mreturn (options\<lparr>wk_key := key, wk_has_key := True\<rparr>)))
      else if option = ''--wrapping-key-hex'' \<or> option = ''--wrapping-key-file''
      then mbind (conflicting (wk_has_wrapping_key options) ''conflicting wrapping key options'') (\<lambda>_.
           mbind (wrapping_key_from_option option v) (\<lambda>key.
           mreturn (options\<lparr>wk_wrapping_key := key, wk_has_wrapping_key := True\<rparr>)))
      else if option = ''--out''
      then mbind (reject_duplicate (wk_has_output options) option) (\<lambda>_.
           mreturn (options\<lparr>wk_output := v, wk_has_output := True\<rparr>))
      else mthrow (Runtime_error (''unsupported key wrapping option: '' @ option)))"

definition parse_wrap_key_options :: "string list \<Rightarrow> (file_system, exn, wrap_key_options) action" where
  "parse_wrap_key_options argv =
     (if length argv < 6 \<or> (length argv - 2) mod 2 \<noteq> 0 then usage_error (wrap_key_usage)
      else mbind (parse_pairs wrap_key_option (drop 2 argv) no_wrap_key_options) (\<lambda>options.
        if \<not> wk_has_key options \<or> \<not> wk_has_wrapping_key options then usage_error (wrap_key_usage)
        else mreturn options))"

definition unwrap_key_option ::
  "string \<Rightarrow> string \<Rightarrow> unwrap_key_options \<Rightarrow> (file_system, exn, unwrap_key_options) action" where
  "unwrap_key_option option v options =
     (if option = ''--packet-hex'' \<or> option = ''--packet-file''
      then mbind (conflicting (uk_has_packet options) ''conflicting packet options'') (\<lambda>_.
           mbind (if option = ''--packet-hex'' then mlift (hex_decode v) else read_file v) (\<lambda>packet.
           mreturn (options\<lparr>uk_packet := packet, uk_has_packet := True\<rparr>)))
      else if option = ''--wrapping-key-hex'' \<or> option = ''--wrapping-key-file''
      then mbind (conflicting (uk_has_wrapping_key options) ''conflicting wrapping key options'') (\<lambda>_.
           mbind (wrapping_key_from_option option v) (\<lambda>key.
           mreturn (options\<lparr>uk_wrapping_key := key, uk_has_wrapping_key := True\<rparr>)))
      else if option = ''--out''
      then mbind (reject_duplicate (uk_has_output options) option) (\<lambda>_.
           mreturn (options\<lparr>uk_output := v, uk_has_output := True\<rparr>))
      else mthrow (Runtime_error (''unsupported key wrapping option: '' @ option)))"

definition parse_unwrap_key_options :: "string list \<Rightarrow> (file_system, exn, unwrap_key_options) action" where
  "parse_unwrap_key_options argv =
     (if length argv < 6 \<or> (length argv - 2) mod 2 \<noteq> 0 then usage_error (unwrap_key_usage)
      else mbind (parse_pairs unwrap_key_option (drop 2 argv) no_unwrap_key_options) (\<lambda>options.
        if \<not> uk_has_packet options \<or> \<not> uk_has_wrapping_key options then usage_error (unwrap_key_usage)
        else mreturn options))"

definition encrypt_option ::
  "string \<Rightarrow> string \<Rightarrow> encrypt_options \<Rightarrow> (file_system, exn, encrypt_options) action" where
  "encrypt_option option v options =
     (if option = ''--text'' \<or> option = ''--in''
      then mbind (conflicting (eo_has_plaintext options) ''conflicting input options'') (\<lambda>_.
           mbind (if option = ''--text'' then mreturn (bytes_from_text v) else read_file v) (\<lambda>plaintext.
           mreturn (options\<lparr>eo_plaintext := plaintext, eo_has_plaintext := True\<rparr>)))
      else if option = ''--key-hex'' \<or> option = ''--key-file''
      then mbind (conflicting (eo_has_key options) ''conflicting key options'') (\<lambda>_.
           mbind (key_from_option option v) (\<lambda>key.
           mreturn (options\<lparr>eo_key := key, eo_has_key := True\<rparr>)))
      else if option = ''--aad-text'' \<or> option = ''--aad-hex''
      then mbind (conflicting (eo_has_aad options) ''conflicting AAD options'') (\<lambda>_.
           mbind (mlift (aad_from_option option v)) (\<lambda>aad.
           mreturn (options\<lparr>eo_aad := aad, eo_has_aad := True\<rparr>)))
      else if option = ''--out''
      then mbind (reject_duplicate (eo_has_output options) option) (\<lambda>_.
           mreturn (options\<lparr>eo_output := v, eo_has_output := True\<rparr>))
      else mthrow (Runtime_error (''unsupported packet option: '' @ option)))"

definition parse_encrypt_options :: "string list \<Rightarrow> (file_system, exn, encrypt_options) action" where
  "parse_encrypt_options argv =
     (if length argv < 6 \<or> (length argv - 2) mod 2 \<noteq> 0 then usage_error (packet_command_usage (argv ! 1))
      else mbind (parse_pairs encrypt_option (drop 2 argv) no_encrypt_options) (\<lambda>options.
        if \<not> eo_has_plaintext options \<or> \<not> eo_has_key options then usage_error (packet_command_usage (argv ! 1))
        else mreturn options))"

definition decrypt_option ::
  "string \<Rightarrow> string \<Rightarrow> decrypt_options \<Rightarrow> (file_system, exn, decrypt_options) action" where
  "decrypt_option option v options =
     (if option = ''--packet-hex'' \<or> option = ''--packet-file''
      then mbind (conflicting (do_has_packet options) ''conflicting packet options'') (\<lambda>_.
           mbind (if option = ''--packet-hex'' then mlift (hex_decode v) else read_file v) (\<lambda>packet.
           mreturn (options\<lparr>do_packet := packet, do_has_packet := True\<rparr>)))
      else if option = ''--key-hex'' \<or> option = ''--key-file''
      then mbind (conflicting (do_has_key options) ''conflicting key options'') (\<lambda>_.
           mbind (key_from_option option v) (\<lambda>key.
           mreturn (options\<lparr>do_key := key, do_has_key := True\<rparr>)))
      else if option = ''--aad-text'' \<or> option = ''--aad-hex''
      then mbind (conflicting (do_has_aad options) ''conflicting AAD options'') (\<lambda>_.
           mbind (mlift (aad_from_option option v)) (\<lambda>aad.
           mreturn (options\<lparr>do_aad := aad, do_has_aad := True\<rparr>)))
      else if option = ''--out''
      then mbind (reject_duplicate (do_has_output options) option) (\<lambda>_.
           mreturn (options\<lparr>do_output := v, do_has_output := True\<rparr>))
      else mthrow (Runtime_error (''unsupported packet option: '' @ option)))"

definition parse_decrypt_options :: "string list \<Rightarrow> (file_system, exn, decrypt_options) action" where
  "parse_decrypt_options argv =
     (if length argv < 6 \<or> (length argv - 2) mod 2 \<noteq> 0 then usage_error (packet_command_usage (argv ! 1))
      else mbind (parse_pairs decrypt_option (drop 2 argv) no_decrypt_options) (\<lambda>options.
        if \<not> do_has_packet options \<or> \<not> do_has_key options then usage_error (packet_command_usage (argv ! 1))
        else mreturn options))"

end
