(* ===== verification/Cli_Run.thy ===== *)
theory Cli_Run
  imports Cli_Options Base64
begin

section \<open>The command line: commands\<close>

text \<open>
  \<open>run_streaming_file_command\<close>, \<open>run_verify_file_command\<close> and \<open>run\<close> of \<open>src/cli/commands.cpp\<close>. The streaming
  commands pass an \<open>operation\<close> over a \<open>std::ostream\<close> whose buffer is that of standard output, of an exclusive file or
  one that discards. The operation is given here at each of these buffers, through its write.
\<close>

subsection \<open>Streams for an operation\<close>

definition cli_put :: "cli_file put" where
  "cli_put data f = (let f' = cli_stream_write data f in (if stream_failed (fst f') then Inl write_failed else Inr (), f'))"

text \<open>The discarding buffer takes everything; the state remembers what it was given.\<close>

definition discard_put :: "bytes put" where
  "discard_put data taken = (Inr (), taken @ data)"

definition cli_input :: "bool \<Rightarrow> path \<Rightarrow> ('o console, exn, istream) action" where
  "cli_input input_is_stdin input = (if input_is_stdin then mget cin else con_disk (open_cli_input_file input))"

text \<open>The operation on its streams. Standard input keeps what was not read.\<close>

definition operate ::
  "bool \<Rightarrow> istream \<Rightarrow> 'out \<Rightarrow> (('out, 'o) transfer, exn, unit) action \<Rightarrow> 'o console \<Rightarrow> unit result \<times> 'out \<times> 'o console" where
  "operate input_is_stdin i out operation s =
     (case operation \<lparr>source = i, sink = out, crypto = rt (sys s)\<rparr> of (r, t) \<Rightarrow>
        let s1 = s\<lparr>sys := (sys s)\<lparr>rt := crypto t\<rparr>\<rparr>
        in (r, sink t, if input_is_stdin then s1\<lparr>cin := source t\<rparr> else s1))"

text \<open>The two ends of \<open>run_streaming_file_command\<close>.\<close>

definition stream_to_stdout ::
  "bool \<Rightarrow> istream \<Rightarrow> ((ostream, 'o) transfer, exn, unit) action \<Rightarrow> ('o console, exn, unit) action" where
  "stream_to_stdout input_is_stdin i operation s =
     (case operate input_is_stdin i (cout s) operation s of (r, out, s1) \<Rightarrow>
        case r of
          Inl e \<Rightarrow> (Inl e, s1\<lparr>cout := out\<rparr>)
        | Inr _ \<Rightarrow>
            (let out' = ostream_flush (stdout_flushes s1) out
             in (if out_failed out' then Inl cli_write_failed else Inr (), s1\<lparr>cout := out'\<rparr>)))"

definition stream_to_file ::
  "('o, 'c) openssl \<Rightarrow> bool \<Rightarrow> istream \<Rightarrow> path \<Rightarrow> ((cli_file, 'o) transfer, exn, unit) action \<Rightarrow>
     ('o console, exn, unit) action" where
  "stream_to_file ssl input_is_stdin i output operation =
     mbind (con_disk (ensure_output_file_does_not_exist output)) (\<lambda>_. \<lambda>s.
       case open_cli_output_file ssl output [] (sys s) of
         ((Inl e, _), y) \<Rightarrow> (Inl e, s\<lparr>sys := y\<rparr>)
       | ((Inr out, temp_path), y) \<Rightarrow>
           (case operate input_is_stdin i (out, disk y) operation (s\<lparr>sys := y\<rparr>) of (r, f, s1) \<Rightarrow>
              case removing_on_error temp_path
                (case r of Inl e \<Rightarrow> (Inl e, reset_output f) | Inr _ \<Rightarrow> close_and_commit temp_path output f)
              of (r', d) \<Rightarrow> (r', s1\<lparr>sys := (sys s1)\<lparr>disk := d\<rparr>\<rparr>)))"

definition run_streaming_file_command ::
  "('o, 'c) openssl \<Rightarrow> bool \<Rightarrow> bool \<Rightarrow> path \<Rightarrow> path \<Rightarrow> ((ostream, 'o) transfer, exn, unit) action \<Rightarrow>
     ((cli_file, 'o) transfer, exn, unit) action \<Rightarrow> ('o console, exn, unit) action" where
  "run_streaming_file_command ssl input_is_stdin output_is_stdout input output operation operation' =
     mbind (if input_is_stdin then con_disk set_stdin_binary else mreturn ()) (\<lambda>_.
     mbind (if output_is_stdout then con_disk set_stdout_binary else mreturn ()) (\<lambda>_.
     mbind (cli_input input_is_stdin input) (\<lambda>i.
       if output_is_stdout then stream_to_stdout input_is_stdin i operation
       else stream_to_file ssl input_is_stdin i output operation')))"

definition run_verify_file_command ::
  "bool \<Rightarrow> path \<Rightarrow> ((bytes, 'o) transfer, exn, unit) action \<Rightarrow> ('o console, exn, unit) action" where
  "run_verify_file_command input_is_stdin input operation =
     mbind (if input_is_stdin then con_disk set_stdin_binary else mreturn ()) (\<lambda>_.
     mbind (cli_input input_is_stdin input) (\<lambda>i. \<lambda>s.
       case operate input_is_stdin i [] operation s of (r, _, s1) \<Rightarrow> (r, s1)))"

subsection \<open>Commands\<close>

definition is_arg :: "string \<Rightarrow> string \<Rightarrow> bool" where
  "is_arg arg expected \<longleftrightarrow> arg = expected"

text \<open>\<open>std::cout << hex_encode(data) << newline\<close>, and the result 0.\<close>

definition print_hex :: "bytes \<Rightarrow> ('o console, exn, int) action" where
  "print_hex data = mbind (mlift (hex_encode data)) (\<lambda>text. mbind (print_line text) (\<lambda>_. mreturn 0))"

definition success :: "('o console, exn, unit) action \<Rightarrow> ('o console, exn, int) action" where
  "success m = mbind m (\<lambda>_. mreturn 0)"

definition wrap_key_command :: "('o, 'c) openssl \<Rightarrow> string list \<Rightarrow> ('o console, exn, int) action" where
  "wrap_key_command ssl argv =
     mbind (con_disk (parse_wrap_key_options argv)) (\<lambda>options.
     mbind (con_rt (wrap_key ssl (wk_key options) (wk_wrapping_key options) [])) (\<lambda>packet.
       if wk_has_output options then success (con_system (write_binary_file ssl (wk_output options) packet))
       else print_hex packet))"

definition unwrap_key_command :: "('o, 'c) openssl \<Rightarrow> string list \<Rightarrow> ('o console, exn, int) action" where
  "unwrap_key_command ssl argv =
     mbind (con_disk (parse_unwrap_key_options argv)) (\<lambda>options.
     mbind (con_rt (unwrap_key ssl (uk_packet options) (uk_wrapping_key options) [])) (\<lambda>key.
       if uk_has_output options then success (con_system (write_key_file ssl (uk_output options) key))
       else print_hex key))"

definition encrypt_command :: "('o, 'c) openssl \<Rightarrow> string list \<Rightarrow> ('o console, exn, int) action" where
  "encrypt_command ssl argv =
     mbind (con_disk (parse_encrypt_options argv)) (\<lambda>options.
     mbind (con_rt (encrypt ssl (eo_plaintext options) (eo_key options) (eo_aad options))) (\<lambda>packet.
       if eo_has_output options then success (con_system (write_binary_file ssl (eo_output options) packet))
       else print_hex packet))"

definition decrypt_command :: "('o, 'c) openssl \<Rightarrow> string list \<Rightarrow> ('o console, exn, int) action" where
  "decrypt_command ssl argv =
     mbind (con_disk (parse_decrypt_options argv)) (\<lambda>options.
     mbind (con_rt (decrypt ssl (do_packet options) (do_key options) (do_aad options))) (\<lambda>plaintext.
       success (if do_has_output options then con_system (write_binary_file ssl (do_output options) plaintext)
         else write_bytes plaintext)))"

definition file_command :: "('o, 'c) openssl \<Rightarrow> string list \<Rightarrow> ('o console, exn, int) action" where
  "file_command ssl argv =
     mbind (con_disk (parse_file_command_options argv)) (\<lambda>options.
     let uses_standard_stream = fc_input_is_stdin options \<or> fc_output_is_stdout options;
         key = fc_key options; aad = fc_aad options
     in success
       (if is_arg (argv ! 1) ''seal-file''
        then if uses_standard_stream
             then run_streaming_file_command ssl (fc_input_is_stdin options) (fc_output_is_stdout options)
               (fc_input options) (fc_output options)
               (seal_file_stream ssl write_all key aad) (seal_file_stream ssl cli_put key aad)
             else con_system (seal_file ssl (fc_input options) (fc_output options) key aad)
        else if is_arg (argv ! 1) ''open-file''
        then if uses_standard_stream
             then run_streaming_file_command ssl (fc_input_is_stdin options) (fc_output_is_stdout options)
               (fc_input options) (fc_output options)
               (open_file_stream ssl write_all key aad) (open_file_stream ssl cli_put key aad)
             else con_system (open_file ssl (fc_input options) (fc_output options) key aad)
        else run_verify_file_command (fc_input_is_stdin options) (fc_input options)
          (open_file_stream ssl discard_put key aad)))"

definition password_file_command :: "('o, 'c) openssl \<Rightarrow> string list \<Rightarrow> ('o console, exn, int) action" where
  "password_file_command ssl argv =
     mbind (con_disk (parse_password_file_command_options argv)) (\<lambda>options.
     let uses_standard_stream = pc_input_is_stdin options \<or> pc_output_is_stdout options;
         password = pc_password options; aad = pc_aad options
     in success
       (if is_arg (argv ! 1) ''seal-file-password''
        then if uses_standard_stream
             then run_streaming_file_command ssl (pc_input_is_stdin options) (pc_output_is_stdout options)
               (pc_input options) (pc_output options)
               (seal_file_with_password_stream ssl write_all password aad)
               (seal_file_with_password_stream ssl cli_put password aad)
             else con_system (seal_file_with_password ssl (pc_input options) (pc_output options) password aad)
        else if is_arg (argv ! 1) ''open-file-password''
        then if uses_standard_stream
             then run_streaming_file_command ssl (pc_input_is_stdin options) (pc_output_is_stdout options)
               (pc_input options) (pc_output options)
               (open_file_with_password_stream ssl write_all password aad)
               (open_file_with_password_stream ssl cli_put password aad)
             else con_system (open_file_with_password ssl (pc_input options) (pc_output options) password aad)
        else run_verify_file_command (pc_input_is_stdin options) (pc_input options)
          (open_file_with_password_stream ssl discard_put password aad)))"

definition print_help :: "('o console, exn, unit) action" where
  "print_help = print help_text"

text \<open>\<open>version\<close> stands for the constant that the build generates.\<close>

definition print_version :: "string \<Rightarrow> ('o console, exn, unit) action" where
  "print_version version = mbind (print (''anosecurekit '' @ version)) (\<lambda>_. print [nl])"

text \<open>
  The body of \<open>run\<close>. C++ leaves the order of the argument evaluations of \<open>hkdf_sha256\<close> open; here they go from left to
  right.
\<close>

definition run_command :: "('o, 'c) openssl \<Rightarrow> string \<Rightarrow> string list \<Rightarrow> ('o console, exn, int) action" where
  "run_command ssl version argv =
     (let argc = length argv;
          command = (\<lambda>name. argc \<ge> 2 \<and> is_arg (argv ! 1) name)
      in if argc = 1 then success print_help
      else if argc = 2 \<and> (argv ! 1 = ''help'' \<or> argv ! 1 = ''--help'') then success print_help
      else if argc = 2 \<and> (argv ! 1 = ''version'' \<or> argv ! 1 = ''--version'') then success (print_version version)
      else if argc = 3 \<and> is_arg (argv ! 1) ''help''
      then mbind (print_command_help (argv ! 2)) (\<lambda>known.
        if known then mreturn 0 else fail ''unsupported command'')
      else if command ''version'' then fail version_usage
      else if argc = 3 \<and> is_arg (argv ! 1) ''token''
      then mbind (mlift (parse_size (argv ! 2))) (\<lambda>n.
           mbind (con_rt (random_token ssl n)) (\<lambda>token. success (print_line token)))
      else if command ''token'' then fail token_usage
      else if argc = 4 \<and> is_arg (argv ! 1) ''sha256'' \<and> is_arg (argv ! 2) ''--text''
      then mbind (con_rt (api_sha256 ssl (bytes_from_text (argv ! 3)))) print_hex
      else if argc = 4 \<and> is_arg (argv ! 1) ''sha256'' \<and> is_arg (argv ! 2) ''--file''
      then mbind (con_disk (read_file (argv ! 3))) (\<lambda>data. mbind (con_rt (api_sha256 ssl data)) print_hex)
      else if command ''sha256'' then fail sha256_usage
      else if argc = 6 \<and> is_arg (argv ! 1) ''hmac-sha256'' \<and> is_arg (argv ! 2) ''--key-hex'' \<and> is_arg (argv ! 4) ''--text''
      then mbind (mlift (hex_decode (argv ! 3))) (\<lambda>key.
           mbind (con_rt (api_hmac_sha256 ssl key (bytes_from_text (argv ! 5)))) print_hex)
      else if argc = 6 \<and> is_arg (argv ! 1) ''hmac-sha256'' \<and> is_arg (argv ! 2) ''--key-hex'' \<and> is_arg (argv ! 4) ''--file''
      then mbind (mlift (hex_decode (argv ! 3))) (\<lambda>key.
           mbind (con_disk (read_file (argv ! 5))) (\<lambda>data.
           mbind (con_rt (api_hmac_sha256 ssl key data)) print_hex))
      else if command ''hmac-sha256'' then fail hmac_sha256_usage
      else if argc = 10 \<and> is_arg (argv ! 1) ''hkdf-sha256'' \<and> is_arg (argv ! 2) ''--key-hex'' \<and>
        is_arg (argv ! 4) ''--salt-hex'' \<and> is_arg (argv ! 8) ''--out-size'' \<and>
        (is_arg (argv ! 6) ''--info-hex'' \<or> is_arg (argv ! 6) ''--info-text'')
      then mbind (mlift (if is_arg (argv ! 6) ''--info-hex'' then hex_decode (argv ! 7)
             else Inr (bytes_from_text (argv ! 7)))) (\<lambda>info.
           mbind (mlift (hex_decode (argv ! 3))) (\<lambda>key.
           mbind (mlift (hex_decode (argv ! 5))) (\<lambda>salt.
           mbind (mlift (parse_size (argv ! 9))) (\<lambda>n.
           mbind (con_rt (api_hkdf_sha256 ssl key salt info n)) print_hex))))
      else if command ''hkdf-sha256'' then fail hkdf_sha256_usage
      else if argc = 4 \<and> is_arg (argv ! 1) ''hex-encode'' \<and> is_arg (argv ! 2) ''--text''
      then print_hex (bytes_from_text (argv ! 3))
      else if command ''hex-encode'' then fail hex_encode_usage
      else if argc = 4 \<and> is_arg (argv ! 1) ''hex-decode'' \<and> is_arg (argv ! 2) ''--text''
      then mbind (mlift (hex_decode (argv ! 3))) (\<lambda>data. success (write_bytes data))
      else if command ''hex-decode'' then fail hex_decode_usage
      else if argc = 4 \<and> is_arg (argv ! 1) ''base64url-encode'' \<and> is_arg (argv ! 2) ''--text''
      then mbind (mlift (base64url_encode (bytes_from_text (argv ! 3)))) (\<lambda>text. success (print_line text))
      else if command ''base64url-encode'' then fail base64url_encode_usage
      else if argc = 4 \<and> is_arg (argv ! 1) ''base64url-decode'' \<and> is_arg (argv ! 2) ''--text''
      then mbind (mlift (base64url_decode (argv ! 3))) (\<lambda>data. success (write_bytes data))
      else if command ''base64url-decode'' then fail base64url_decode_usage
      else if argc = 4 \<and> is_arg (argv ! 1) ''keygen'' \<and> is_arg (argv ! 2) ''--out''
      then success (con_system (write_generated_key ssl (argv ! 3)))
      else if command ''keygen'' then fail keygen_usage
      else if command ''wrap-key'' then wrap_key_command ssl argv
      else if command ''unwrap-key'' then unwrap_key_command ssl argv
      else if command ''encrypt'' then encrypt_command ssl argv
      else if command ''decrypt'' then decrypt_command ssl argv
      else if command ''seal-file'' \<or> command ''open-file'' \<or> command ''verify-file'' then file_command ssl argv
      else if command ''seal-file-password'' \<or> command ''open-file-password'' \<or> command ''verify-file-password''
      then password_file_command ssl argv
      else fail ''unsupported command'')"

text \<open>
  \<open>run\<close>: every exception becomes a message on standard error and the exit code 1. Undefined behaviour is no exception
  and is not caught.
\<close>

definition run :: "('o, 'c) openssl \<Rightarrow> string \<Rightarrow> string list \<Rightarrow> ('o console, exn, int) action" where
  "run ssl version argv s =
     (case run_command ssl version argv s of
        (Inl e, s') \<Rightarrow> if is_undefined e then (Inl e, s') else fail (what_of e) s'
      | (Inr code, s') \<Rightarrow> (Inr code, s'))"

end
