(* ===== verification/Cli_Output.thy ===== *)
theory Cli_Output
  imports Cli_Run
begin

section \<open>The command line: what its output files hold\<close>

text \<open>
  The exclusive output files of the tool: what a write accepts, that an output appears complete or not at all, and
  that nothing else changes. The stream is an output like the others, so the properties of sealed streams hold on it.
\<close>

subsection \<open>Writing\<close>

lemma xsputn_spec:
  "xsputn i data s = (n, t) \<Longrightarrow> i < fresh s \<Longrightarrow> n \<le> length data \<and> evolves {i} s t \<and>
     contents t i = contents s i @ take n data \<and> (no_faults s \<longrightarrow> n = length data)"
proof (induction i data s arbitrary: n t rule: xsputn.induct)
  case (1 i data s)
  obtain fault s1 where c: "system_call s = (fault, s1)" by fastforce
  note e = system_call_evolves [OF c]
  have i1: "i < fresh s1" "contents s1 i = contents s i" using e 1(3) by (simp_all add: evolves_def)
  define k where "k = (case fault of None \<Rightarrow> write_chunk data s1 | Some k \<Rightarrow> min k (write_chunk data s1))"
  have k: "k \<le> length data" "no_faults s \<Longrightarrow> data \<noteq> [] \<Longrightarrow> k \<noteq> 0"
    using e by (auto simp: k_def no_faults_def write_chunk_def int_max_def split: option.splits if_splits)
  show ?case
  proof (cases "data = [] \<or> k = 0")
    case True
    then have "n = 0 \<and> (t = s \<or> t = s1)"
      using 1(2) c by (auto simp: xsputn.simps [of i data s] k_def [symmetric] split: if_splits)
    with True e k show ?thesis
      by (auto simp: i1 intro: evolves_from_empty)
  next
    case False
    let ?s2 = "append_to i (take k data) s1"
    obtain m t' where rest: "xsputn i (drop k data) ?s2 = (m, t')" by fastforce
    with False 1(2) c have n: "n = k + m" "t = t'"
      by (auto simp: xsputn.simps [of i data s] k_def [symmetric] Let_def split: if_splits)
    have e2: "evolves {i} s ?s2" by (rule evolves_trans [OF evolves_from_empty [OF conjunct1 [OF e]] append_to_evolves])
    have i2: "i < fresh ?s2" using i1 by (simp add: append_to_def)
    have c2: "contents ?s2 i = contents s i @ take k data" by (simp add: append_to_def i1)
    have "n0 = k \<Longrightarrow> (fault, s1) = system_call s \<Longrightarrow> data \<noteq> [] \<Longrightarrow> n0 \<noteq> 0 \<Longrightarrow> m \<le> length (drop k data) \<and> evolves {i} ?s2 t' \<and>
        contents t' i = contents ?s2 i @ take m (drop k data) \<and> (no_faults ?s2 \<longrightarrow> m = length (drop k data))" for n0
      using 1(1) [of fault s1 n0] rest i2 unfolding k_def by blast
    with False c have IH: "m \<le> length (drop k data)" "evolves {i} ?s2 t'"
      "contents t' i = contents ?s2 i @ take m (drop k data)" "no_faults ?s2 \<longrightarrow> m = length (drop k data)" by auto
    have "no_faults ?s2 = no_faults s" using e2 by (simp add: evolves_def no_faults_def)
    with IH e2 c2 k n show ?thesis
      by (auto simp: take_add intro: evolves_trans)
  qed
qed

definition cli_content :: "cli_file \<Rightarrow> bytes" where
  "cli_content f = (case descriptor (fst f) of None \<Rightarrow> [] | Some i \<Rightarrow> contents (snd f) i)"

definition cli_open :: "cli_file \<Rightarrow> bool" where
  "cli_open f \<longleftrightarrow> (\<exists>i. descriptor (fst f) = Some i \<and> i < fresh (snd f))"

definition cli_reliable :: "cli_file \<Rightarrow> bool" where
  "cli_reliable f \<longleftrightarrow> cli_open f \<and> \<not> stream_failed (fst f) \<and> no_faults (snd f)"

lemma cli_stream_write_spec:
  assumes "cli_stream_write data (out, s) = (out', t)" and "descriptor out = Some i" and "i < fresh s"
  shows "\<exists>n \<le> length data. descriptor out' = Some i \<and> evolves {i} s t \<and> contents t i = contents s i @ take n data \<and>
    (\<not> stream_failed out' \<longrightarrow> n = length data \<and> \<not> stream_failed out) \<and>
    (no_faults s \<longrightarrow> \<not> stream_failed out \<longrightarrow> \<not> stream_failed out')"
proof (cases "stream_failed out")
  case True
  with assms show ?thesis by (intro exI [of _ 0]) (auto simp: cli_stream_write_def)
next
  case False
  obtain n s1 where x: "xsputn i data s = (n, s1)" by fastforce
  from xsputn_spec [OF x assms(3)] assms(1,2) x False show ?thesis
    by (intro exI [of _ n]) (auto simp: cli_stream_write_def)
qed

text \<open>The invariant of the file that was created, while it is written.\<close>

definition stream_inv :: "nat \<Rightarrow> file_system \<Rightarrow> cli_file \<Rightarrow> bool" where
  "stream_inv i d0 f \<longleftrightarrow> evolves {i} d0 (snd f) \<and> i < fresh d0 \<and> descriptor (fst f) = Some i"

lemma stream_inv_write:
  assumes "stream_inv i d0 f"
  shows "stream_inv i d0 (cli_stream_write data f)"
proof -
  obtain out s out' t where st: "f = (out, s)" "cli_stream_write data f = (out', t)" by (metis surj_pair)
  from assms st have inv: "evolves {i} d0 s" "i < fresh d0" "descriptor out = Some i" by (simp_all add: stream_inv_def)
  then have "i < fresh s" by (simp add: evolves_def)
  from cli_stream_write_spec [OF st(2) [unfolded st(1)] inv(3) this] have "descriptor out' = Some i" "evolves {i} s t" by blast+
  with inv st show ?thesis by (auto simp: stream_inv_def intro: evolves_trans)
qed

lemma cli_put_cases:
  assumes "cli_put data f = (r, f')" and "cli_open f"
  shows "cli_open f' \<and> (\<exists>n \<le> length data. cli_content f' = cli_content f @ take n data \<and> (r = Inr () \<longrightarrow> n = length data)) \<and>
    (r = Inr () \<or> r = Inl write_failed) \<and> (cli_reliable f \<longrightarrow> r = Inr () \<and> cli_reliable f')"
proof -
  obtain out s out' t where st: "f = (out, s)" "cli_stream_write data f = (out', t)" by (metis surj_pair)
  from assms(2) st obtain i where i: "descriptor out = Some i" "i < fresh s" by (auto simp: cli_open_def)
  from cli_stream_write_spec [OF st(2) [unfolded st(1)] i] obtain n where n: "n \<le> length data" "descriptor out' = Some i"
    "evolves {i} s t" "contents t i = contents s i @ take n data"
    "\<not> stream_failed out' \<longrightarrow> n = length data \<and> \<not> stream_failed out"
    "no_faults s \<longrightarrow> \<not> stream_failed out \<longrightarrow> \<not> stream_failed out'" by blast
  have "f' = (out', t)" "r = (if stream_failed out' then Inl write_failed else Inr ())"
    using assms(1) st by (auto simp: cli_put_def)
  moreover have "cli_open (out', t)" using n i by (auto simp: cli_open_def evolves_def)
  moreover have "no_faults t = no_faults s" using n(3) by (simp add: evolves_def no_faults_def)
  ultimately show ?thesis using n i st by (auto simp: cli_content_def cli_reliable_def)
qed

interpretation clif: reliable_sink cli_put cli_content cli_open cli_reliable
proof
  fix f f' :: cli_file and data u
  assume "cli_open f" "cli_put data f = (Inr u, f')"
  from cli_put_cases [OF this(2,1)] show "cli_content f' = cli_content f @ data \<and> cli_open f'" by auto
next
  fix f f' :: cli_file and data e
  assume "cli_open f" "cli_put data f = (Inl e, f')"
  from cli_put_cases [OF this(2,1)] obtain n where
    "cli_open f'" "cli_content f' = cli_content f @ take n data" "e = write_failed" by auto
  then show "code_of e = Some backend_failure \<and> cli_open f' \<and>
      (\<exists>accepted rest. data = accepted @ rest \<and> cli_content f' = cli_content f @ accepted)"
    by (auto intro: exI [of _ "take n data"] exI [of _ "drop n data"])
next
  fix f :: cli_file
  assume "cli_reliable f"
  then show "cli_open f" by (simp add: cli_reliable_def)
next
  fix f :: cli_file and data
  assume rel: "cli_reliable f"
  obtain r f' where w: "cli_put data f = (r, f')" by (metis surj_pair)
  from cli_put_cases [OF w] rel w show "\<exists>f'. cli_put data f = (Inr (), f') \<and> cli_reliable f'"
    by (auto simp: cli_reliable_def)
qed

interpretation clij: sink_invariant cli_put "stream_inv i d0" for i d0
  by unfold_locales (auto simp: cli_put_def Let_def intro: stream_inv_write)

interpretation keyed_cli: reliable_sealing cli_put cli_content cli_open ssl kdf "make_header ssl" 50 parse_header
  fh_serialized fh_nonce_prefix "derive_file_key ssl key" valid_header "\<lambda>h. file_key kdf key (fh_salt h)" True
  cli_reliable
  for ssl :: "('o, 'c) openssl" and kdf :: kdf_alg and key :: bytes
  by unfold_locales

interpretation pass_cli: reliable_sealing cli_put cli_content cli_open ssl kdf "make_password_header ssl" 64
  parse_password_header ph_serialized ph_nonce_prefix "derive_password_file_key ssl password" valid_password_header
  "\<lambda>h. password_file_key kdf password (ph_salt h)" "password \<noteq> []" cli_reliable
  for ssl :: "('o, 'c) openssl" and kdf :: kdf_alg and password :: bytes
  by unfold_locales

subsection \<open>Opening a temporary file\<close>

lemma job_base_after:
  assumes e: "evolves {} s0 s1" and base: "job_base p output i s1 d"
  shows "job_base p output i s0 d"
proof -
  have k: "keeps_files s0 s1" using e by (rule evolves_keeps_files)
  note b = base [unfolded job_base_def]
  have "names s0 p = None" using b k unfolding keeps_files_def by (metis not_None_eq)
  moreover have "fresh s0 \<le> fresh s1" "quiet s1 = quiet s0" "quiet s0 \<Longrightarrow> names s1 = names s0"
    using e by (auto simp: evolves_def quiet_def)
  ultimately show ?thesis
    using b keeps_files_trans [OF k] by (auto simp: job_base_def)
qed

lemma cli_try_open_spec:
  assumes "try_open_cli_output_exclusive p s = ((result, fd), t)" and "p \<noteq> output"
  shows "case result of
      opened \<Rightarrow> \<exists>i. fd = Some i \<and> job_base p output i s t \<and> contents t i = []
    | already_exists \<Rightarrow> evolves {} s t \<and> (quiet s \<longrightarrow> names s p \<noteq> None)
    | failed \<Rightarrow> evolves {} s t \<and> \<not> no_faults s"
proof -
  obtain fault s1 where c: "system_call s = (fault, s1)" by fastforce
  note e = conjunct1 [OF system_call_evolves [OF c]] and f = conjunct2 [OF system_call_evolves [OF c]]
  consider "fault \<noteq> None" | "fault = None" "names s1 p \<noteq> None" | "fault = None" "names s1 p = None" by blast
  then show ?thesis
  proof cases
    case 1
    with assms(1) c e f show ?thesis
      by (auto simp: try_open_cli_output_exclusive_def sys_open_exclusive_def no_faults_def)
  next
    case 2
    with assms(1) c e show ?thesis
      by (auto simp: try_open_cli_output_exclusive_def sys_open_exclusive_def evolves_def)
  next
    case 3
    with assms(1) c have r: "result = opened" "fd = Some (fresh s1)" "t = create_file p [] s1"
      by (auto simp: try_open_cli_output_exclusive_def sys_open_exclusive_def)
    have "keeps_files s1 t" unfolding r(3) using 3(2) by (rule create_file_keeps)
    then have "job_base p output (fresh s1) s1 t \<and> contents t (fresh s1) = []"
      using 3(2) assms(2) r(3) by (auto simp: job_base_def create_file_def)
    with job_base_after [OF e] r show ?thesis by auto
  qed
qed

definition cli_opened :: "path \<Rightarrow> path \<Rightarrow> cli_stream \<Rightarrow> file_system \<Rightarrow> file_system \<Rightarrow> bool" where
  "cli_opened p output out s t \<longleftrightarrow> is_temp_path output p \<and> (\<exists>i. out = \<lparr>descriptor = Some i, stream_failed = False\<rparr> \<and>
     job_base p output i s t \<and> contents t i = [])"

lemma temporary_output_path_for_eq: "temporary_output_path_for = make_unique_temp_path"
  by (intro ext) (simp add: temporary_output_path_for_def make_unique_temp_path_def)

text \<open>
  The temporary path is reported back also when nothing was opened; it is then the last one tried.
\<close>

lemma open_cli_attempts_spec:
  assumes "open_cli_attempts ssl output temp_path n s = ((x, p), s')"
  shows "case x of
      Inr out \<Rightarrow> cli_opened p output out (disk s) (disk s')
    | Inl e \<Rightarrow> evolves {} (disk s) (disk s') \<and> \<not> is_undefined e \<and> (p = temp_path \<or> is_temp_path output p)"
  using assms
proof (induction n arbitrary: s temp_path)
  case 0
  then show ?case by auto
next
  case (Suc n)
  obtain r1 c1 where m: "make_unique_temp_path ssl output (rt s) = (r1, c1)" by fastforce
  note path = make_unique_temp_path_result [OF m]
  have rt: "rt_action (temporary_output_path_for ssl output) s = (r1, s\<lparr>rt := c1\<rparr>)"
    using m by (simp add: temporary_output_path_for_eq rt_action_def mzoom_def)
  show ?case
  proof (cases r1)
    case (Inl e)
    with rt path Suc.prems show ?thesis by (auto dest: code_defined)
  next
    case (Inr q)
    obtain result fd d where tr: "try_open_cli_output_exclusive q (disk s) = ((result, fd), d)" by (metis surj_pair)
    have q: "is_temp_path output q" "q \<noteq> output" using path Inr temp_path_differs by auto
    note t = cli_try_open_spec [OF tr q(2)]
    show ?thesis
    proof (cases result)
      case opened
      with t rt Inr tr Suc.prems q(1) show ?thesis by (auto simp: cli_opened_def)
    next
      case failed
      with t rt Inr tr Suc.prems q(1) show ?thesis by auto
    next
      case already_exists
      with rt Inr tr Suc.prems have rec: "open_cli_attempts ssl output q n (s\<lparr>rt := c1, disk := d\<rparr>) = ((x, p), s')" by simp
      have e: "evolves {} (disk s) d" using t already_exists by simp
      have "case x of
          Inr out \<Rightarrow> cli_opened p output out d (disk s')
        | Inl e \<Rightarrow> evolves {} d (disk s') \<and> \<not> is_undefined e \<and> (p = q \<or> is_temp_path output p)"
        using Suc.IH [OF rec] by (cases x) (simp_all del: is_undefined.simps)
      then show ?thesis
        using e q(1) job_base_after [OF e]
        by (cases x) (auto simp: cli_opened_def intro: evolves_trans [OF e])
    qed
  qed
qed

lemma cli_opened_inv:
  assumes "cli_opened p output out s t"
  obtains i where "is_temp_path output p" "job_base p output i s t" "stream_inv i t (out, t)" "descriptor out = Some i"
    "cli_content (out, t) = []" "cli_open (out, t)" "\<not> stream_failed out"
  using assms by (auto simp: cli_opened_def stream_inv_def cli_content_def cli_open_def job_base_def)

subsection \<open>Closing and committing\<close>

lemma remove_file_quietly_eq: "remove_file_quietly = remove_quietly"
  by (intro ext) (simp add: remove_file_quietly_def remove_quietly_def)

lemma cli_ensure_spec:
  assumes "ensure_output_file_does_not_exist p s = (r, t)"
  shows "evolves {} s t \<and> defined r \<and> (r = Inr () \<longrightarrow> names s p = None) \<and>
    (no_faults s \<longrightarrow> quiet s \<longrightarrow> names s p = None \<longrightarrow> r = Inr ())"
proof -
  obtain f s1 where c: "system_call s = (f, s1)" by fastforce
  note e = system_call_evolves [OF c]
  have none: "names s1 p = None \<Longrightarrow> names s p = None" using e unfolding evolves_def by (metis not_None_eq)
  have "(r, t) = (if f \<noteq> None then Inl (Runtime_error ''filesystem error'')
      else if names s1 p = None then Inr () else Inl cli_output_exists, s1)"
    using assms c by (cases "names s1 p"; cases f) (simp_all add: ensure_output_file_does_not_exist_def fs_exists_def)
  then show ?thesis
    using e none by (auto simp: no_faults_def evolves_def cli_output_exists_def)
qed

lemma reset_output_spec:
  "stream_inv i d0 f \<or> descriptor (fst f) = None \<and> evolves {i} d0 (snd f) \<Longrightarrow>
     evolves {} (snd f) (reset_output f) \<and> evolves {i} d0 (reset_output f)"
proof -
  assume inv: "stream_inv i d0 f \<or> descriptor (fst f) = None \<and> evolves {i} d0 (snd f)"
  obtain out s where f: "f = (out, s)" by fastforce
  obtain b t where b: "sys_succeeds s = (b, t)" by fastforce
  note e = conjunct1 [OF sys_succeeds_evolves [OF b]]
  have "reset_output f = (if descriptor out = None then s else t)" using b f by (simp add: reset_output_def)
  moreover have "evolves {i} d0 s" using inv f by (auto simp: stream_inv_def)
  moreover have "evolves {i} d0 t" by (rule evolves_trans [OF calculation(2) evolves_from_empty [OF e]])
  ultimately show ?thesis using e f by simp
qed

lemma stream_close_spec:
  assumes "stream_close f = (closed, f2)" and "stream_inv i d0 f"
  shows "evolves {} (snd f) (snd f2) \<and> descriptor (fst f2) = None \<and> (closed \<longrightarrow> \<not> stream_failed (fst f)) \<and>
    (no_faults (snd f) \<longrightarrow> \<not> stream_failed (fst f) \<longrightarrow> closed)"
proof -
  obtain out s where f: "f = (out, s)" by fastforce
  obtain b t where b: "sys_succeeds s = (b, t)" by fastforce
  obtain out1 s1 where f1: "stream_flush f = (out1, s1)" by fastforce
  have 1: "evolves {} s s1 \<and> descriptor out1 = descriptor out \<and> (\<not> stream_failed out1 \<longrightarrow> \<not> stream_failed out) \<and>
      (no_faults s \<longrightarrow> \<not> stream_failed out \<longrightarrow> \<not> stream_failed out1)"
    using f1 f b sys_succeeds_evolves [OF b] by (auto simp: stream_flush_def buffer_sync_def split: if_splits)
  obtain b2 s2 where b2: "sys_succeeds s1 = (b2, s2)" by fastforce
  note e2 = sys_succeeds_evolves [OF b2]
  have "descriptor out1 \<noteq> None" using 1 assms(2) f by (simp add: stream_inv_def)
  with assms(1) f1 b2 have "closed = (b2 \<and> \<not> stream_failed out1)" "f2 = (out1\<lparr>descriptor := None\<rparr>, s2)"
    by (auto simp: stream_close_def buffer_close_def Let_def)
  moreover have "no_faults s1 = no_faults s" using 1 by (simp add: evolves_def no_faults_def)
  ultimately show ?thesis using 1 e2 f by (auto intro: evolves_trans)
qed

lemma commit_output_spec:
  assumes "commit_output_file temp output s = (r, t)" and "names s temp = Some i" and "temp \<noteq> output"
  shows "defined r \<and> (case r of
      Inr u \<Rightarrow> keeps_but temp s t \<and> names s output = None \<and> names t output = Some i \<and>
        (quiet s \<longrightarrow> (\<forall>q. q \<noteq> temp \<longrightarrow> q \<noteq> output \<longrightarrow> names t q = names s q)) \<and>
        (quiet s \<longrightarrow> no_faults s \<longrightarrow> names t = (names s)(output := Some i, temp := None))
    | Inl e \<Rightarrow> evolves {} s t \<and> \<not> (no_faults s \<and> quiet s \<and> names s output = None))"
proof -
  obtain fault s1 where c: "system_call s = (fault, s1)" by fastforce
  note e = conjunct1 [OF system_call_evolves [OF c]] and f = conjunct2 [OF system_call_evolves [OF c]]
  have temp: "names s1 temp = Some i" using e assms(2) by (simp add: evolves_def)
  have quiet: "quiet s \<Longrightarrow> names s1 = names s" using e by (simp add: evolves_def)
  show ?thesis
  proof (cases "fault = None \<and> names s1 output = None")
    case True
    define s2 where "s2 = s1\<lparr>names := (names s1)(output := Some i)\<rparr>"
    have r: "r = Inr ()" "remove_quietly temp s2 = t"
      using assms(1) c True temp by (auto simp: commit_output_file_def sys_link_def s2_def remove_file_quietly_eq)
    note rem = remove_spec [OF r(2)]
    have none: "names s output = None" using e True unfolding evolves_def by (metis not_None_eq)
    have "i < fresh s1" if "fs_ok s1" using that temp by (simp add: fs_ok_def)
    then have k2: "keeps_but temp s s2"
      using e none True by (auto simp: keeps_but_def evolves_def s2_def fs_ok_def)
    have q2: "quiet s2 = quiet s" "no_faults s2 = no_faults s"
      using e by (simp_all add: s2_def evolves_def quiet_def no_faults_def)
    have "names t output = Some i" using rem assms(3) unfolding keeps_but_def by (simp add: s2_def)
    with r none rem q2 keeps_but_trans [OF k2] quiet show ?thesis by (auto simp: s2_def)
  next
    case False
    obtain x s2 where x: "fs_exists output s1 = (x, s2)" by fastforce
    obtain fault2 s3 where c2: "system_call s1 = (fault2, s3)" by fastforce
    have e2: "evolves {} s1 s2" using x system_call_evolves [OF c2] c2 by (auto simp: fs_exists_def)
    have "t = s2 \<and> (r = Inl cli_output_exists \<or> r = Inl cli_write_failed)"
      using assms(1) c False temp x
      by (auto simp: commit_output_file_def sys_link_def split: option.splits bool.splits if_splits)
    moreover have "\<not> (no_faults s \<and> quiet s \<and> names s output = None)"
      using False f quiet by (auto simp: no_faults_def)
    ultimately show ?thesis using evolves_trans [OF e e2] by (auto simp: cli_output_exists_def cli_write_failed_def)
  qed
qed

subsection \<open>From the temporary file to the output\<close>

text \<open>
  How the life of an exclusive output ends: it is published with \<open>data\<close>, or no name has changed but that of the
  temporary file. Every file there was is still there.
\<close>

definition output_end :: "path \<Rightarrow> path \<Rightarrow> bytes \<Rightarrow> file_system \<Rightarrow> unit result \<Rightarrow> file_system \<Rightarrow> bool" where
  "output_end temp output data s0 r d \<longleftrightarrow> defined r \<and> keeps_files s0 d \<and> is_temp_path output temp \<and>
     (r = Inr () \<longrightarrow> names s0 output = None \<and> (\<exists>i. fresh s0 \<le> i \<and> names d output = Some i \<and> contents d i = data)) \<and>
     (quiet s0 \<longrightarrow> (\<forall>q. q \<noteq> temp \<longrightarrow> (q = output \<longrightarrow> r \<noteq> Inr ()) \<longrightarrow> names d q = names s0 q)) \<and>
     (quiet s0 \<longrightarrow> no_faults s0 \<longrightarrow> names d temp = None)"

lemma base_settings:
  assumes "job_base p output i s0 d0" and "evolves {i} d0 d1"
  shows "keeps_files s0 d1" "quiet d1 = quiet s0" "no_faults d1 = no_faults s0" "names d1 p = Some i" "names s0 p = None"
    "p \<noteq> output" "quiet s0 \<Longrightarrow> names d1 = (names s0)(p := Some i)" "fresh s0 \<le> i"
proof -
  note b = assms(1) [unfolded job_base_def]
  show "keeps_files s0 d1" by (rule keeps_files_evolves [OF conjunct1 [OF b] assms(2)]) (use b in simp)
  show "quiet d1 = quiet s0" "no_faults d1 = no_faults s0"
    using b assms(2) by (simp_all add: keeps_files_def evolves_def quiet_def no_faults_def)
  show "names d1 p = Some i" "names s0 p = None" "p \<noteq> output" "fresh s0 \<le> i" using b assms(2) by (simp_all add: evolves_def)
  show "quiet s0 \<Longrightarrow> names d1 = (names s0)(p := Some i)"
    using b assms(2) by (simp add: keeps_files_def evolves_def quiet_def)
qed

lemma abandoned_end:
  assumes temp: "is_temp_path output temp" and base: "job_base temp output i s0 d0" and e: "evolves {i} d0 d1"
    and "\<not> is_undefined x"
  shows "output_end temp output data s0 (Inl x) (remove_quietly temp d1)"
proof -
  note b = base_settings [OF base e]
  note rem = remove_spec [OF refl, of temp d1]
  have "keeps_files s0 (remove_quietly temp d1)" using keeps_files_but [OF b(1) conjunct1 [OF rem] b(5)] .
  with assms(4) temp rem b show ?thesis by (auto simp: output_end_def)
qed

lemma committed_end:
  assumes temp: "is_temp_path output temp" and base: "job_base temp output i s0 d0" and e: "evolves {i} d0 d1"
    and data: "contents d1 i = data" and run: "removing_on_error temp (commit_output_file temp output d1) = (r, d)"
  shows "output_end temp output data s0 r d \<and> (no_faults s0 \<longrightarrow> quiet s0 \<longrightarrow> names s0 output = None \<longrightarrow> r = Inr ())"
proof -
  note b = base_settings [OF base e]
  obtain r1 t where c: "commit_output_file temp output d1 = (r1, t)" by fastforce
  note spec = commit_output_spec [OF c b(4,6)]
  show ?thesis
  proof (cases r1)
    case (Inl x)
    with spec have "evolves {} d1 t" "\<not> (no_faults d1 \<and> quiet d1 \<and> names d1 output = None)" "\<not> is_undefined x" by auto
    moreover have "r = Inl x" "d = remove_quietly temp t"
      using run c Inl by (simp_all add: removing_on_error_def remove_file_quietly_eq)
    ultimately show ?thesis
      using abandoned_end [OF temp base evolves_trans [OF e evolves_from_empty]] b by auto
  next
    case (Inr u)
    have i: "i < fresh d1" using base e by (auto simp: job_base_def evolves_def)
    from run c Inr have r: "r = Inr ()" "d = t" by (simp_all add: removing_on_error_def)
    from spec Inr have t: "keeps_but temp d1 t" "names d1 output = None" "names t output = Some i"
      "quiet d1 \<Longrightarrow> q \<noteq> temp \<Longrightarrow> q \<noteq> output \<Longrightarrow> names t q = names d1 q"
      "quiet d1 \<Longrightarrow> no_faults d1 \<Longrightarrow> names t = (names d1)(output := Some i, temp := None)" for q by auto
    have "names s0 output = None" using t(2) b(1) unfolding keeps_files_def by (metis not_None_eq)
    moreover have "keeps_files s0 t" using keeps_files_but [OF b(1) t(1) b(5)] .
    moreover have "contents t i = data" using t(1) i data by (simp add: keeps_but_def)
    ultimately show ?thesis using r t b temp by (auto simp: output_end_def)
  qed
qed

lemma exclusive_end:
  assumes temp: "is_temp_path output temp" and base: "job_base temp output i s0 d0" and inv: "stream_inv i d0 f"
    and run: "removing_on_error temp (close_and_commit temp output f) = (r, d)"
  shows "output_end temp output (cli_content f) s0 r d" and "r = Inr () \<Longrightarrow> \<not> stream_failed (fst f)"
    and "no_faults s0 \<Longrightarrow> quiet s0 \<Longrightarrow> names s0 output = None \<Longrightarrow> \<not> stream_failed (fst f) \<Longrightarrow> r = Inr ()"
proof -
  obtain closed f2 where close: "stream_close f = (closed, f2)" by (metis surj_pair)
  note cl = stream_close_spec [OF close inv]
  have e1: "evolves {i} d0 (snd f)" and content: "cli_content f = contents (snd f) i" and i: "i < fresh (snd f)"
    using inv by (auto simp: stream_inv_def cli_content_def evolves_def)
  have e2: "evolves {i} d0 (snd f2)"
    by (rule evolves_trans [OF e1 evolves_from_empty [OF conjunct1 [OF cl]]])
  have f2: "evolves {} (snd f2) (reset_output f2)" and e3: "evolves {i} d0 (reset_output f2)"
    using reset_output_spec [of i d0 f2] cl e2 by blast+
  have "contents (reset_output f2) i = cli_content f"
    using evolves_trans [OF conjunct1 [OF cl] f2] i content by (simp add: evolves_def)
  note commit = committed_end [OF temp base e3 this]
  have failed: "output_end temp output (cli_content f) s0 (Inl cli_write_failed) (remove_quietly temp (reset_output f2))"
    by (rule abandoned_end [OF temp base e3]) (simp add: cli_write_failed_def)
  show "output_end temp output (cli_content f) s0 r d"
    using run close commit failed
    by (cases closed) (auto simp: close_and_commit_def removing_on_error_def remove_file_quietly_eq)
  show "r = Inr () \<Longrightarrow> \<not> stream_failed (fst f)"
    using run close cl by (cases closed) (auto simp: close_and_commit_def removing_on_error_def)
  show "no_faults s0 \<Longrightarrow> quiet s0 \<Longrightarrow> names s0 output = None \<Longrightarrow> \<not> stream_failed (fst f) \<Longrightarrow> r = Inr ()"
    using run close commit cl base_settings(3) [OF base e1]
    by (cases closed) (auto simp: close_and_commit_def)
qed

lemma failed_end:
  assumes "is_temp_path output temp" and "job_base temp output i s0 d0" and "stream_inv i d0 f" and "\<not> is_undefined e"
  shows "output_end temp output data s0 (Inl e) (snd (removing_on_error temp (Inl e, reset_output f)))"
  using abandoned_end [OF assms(1,2) _ assms(4)] reset_output_spec assms(3)
  by (simp add: removing_on_error_def remove_file_quietly_eq)

subsection \<open>Whole outputs\<close>

definition temporary_name :: "path \<Rightarrow> bool" where
  "temporary_name p \<longleftrightarrow> (\<exists>output. is_temp_path output p)"

text \<open>Every file there was is still there, except that a temporary name may have gone.\<close>

definition keeps_but_temps :: "file_system \<Rightarrow> file_system \<Rightarrow> bool" where
  "keeps_but_temps s t \<longleftrightarrow> (fs_ok s \<longrightarrow> (\<forall>p j. names s p = Some j \<longrightarrow> \<not> temporary_name p \<longrightarrow> names t p = Some j) \<and>
     (\<forall>j < fresh s. contents t j = contents s j) \<and> fresh s \<le> fresh t \<and> fs_ok t)"

lemma keeps_but_temps_refl: "keeps_but_temps s s"
  by (simp add: keeps_but_temps_def)

lemma keeps_but_temps_trans: "keeps_but_temps s t \<Longrightarrow> keeps_but_temps t u \<Longrightarrow> keeps_but_temps s u"
  unfolding keeps_but_temps_def by auto

lemma keeps_files_temps: "keeps_files s t \<Longrightarrow> keeps_but_temps s t"
  by (simp add: keeps_files_def keeps_but_temps_def)

lemma keeps_but_temps_one: "keeps_but p s t \<Longrightarrow> temporary_name p \<Longrightarrow> keeps_but_temps s t"
  by (auto simp: keeps_but_def keeps_but_temps_def)

definition output_outcome :: "path \<Rightarrow> bytes \<Rightarrow> unit result \<Rightarrow> file_system \<Rightarrow> file_system \<Rightarrow> bool" where
  "output_outcome output data r s s' \<longleftrightarrow> defined r \<and> keeps_but_temps s s' \<and>
     (r = Inr () \<longrightarrow> keeps_files s s' \<and> names s output = None \<and>
        (\<exists>i. fresh s \<le> i \<and> names s' output = Some i \<and> contents s' i = data)) \<and>
     (quiet s \<longrightarrow> (\<forall>q. \<not> is_temp_path output q \<longrightarrow> (q = output \<longrightarrow> r \<noteq> Inr ()) \<longrightarrow> names s' q = names s q)) \<and>
     (r = Inr () \<longrightarrow> quiet s \<longrightarrow> no_faults s \<longrightarrow> names s' = (names s)(output := names s' output))"

lemma output_end_outcome:
  assumes "output_end temp output data s0 r d" and none: "r = Inr () \<Longrightarrow> quiet s0 \<Longrightarrow> names s0 temp = None"
  shows "output_outcome output data r s0 d"
proof -
  note e = assms(1) [unfolded output_end_def]
  have others: "names d q = names s0 q" if "quiet s0" "q \<noteq> temp" "q = output \<longrightarrow> r \<noteq> Inr ()" for q
    using e that by blast
  have differ: "q \<noteq> temp" if "\<not> is_temp_path output q" for q using e that by blast
  have "names d = (names s0)(output := names d output)" if "r = Inr ()" "quiet s0" "no_faults s0"
  proof
    fix q show "names d q = ((names s0)(output := names d output)) q"
      using others [of q] none e that by (cases "q = temp") auto
  qed
  with e others differ keeps_files_temps show ?thesis unfolding output_outcome_def by blast
qed

lemma output_outcome_unwritten:
  assumes "keeps_but p s s' \<and> (quiet s \<longrightarrow> (\<forall>q. q \<noteq> p \<longrightarrow> names s' q = names s q))" and "is_temp_path output p" and "\<not> is_undefined e"
  shows "output_outcome output data (Inl e) s s'"
proof -
  have "q \<noteq> p" if "\<not> is_temp_path output q" for q using that assms(2) by blast
  moreover have "keeps_but_temps s s'"
    using keeps_but_temps_one assms(1,2) unfolding temporary_name_def by blast
  ultimately show ?thesis using assms(1,3) by (simp add: output_outcome_def)
qed

lemma output_outcome_nothing:
  "evolves {} s s' \<Longrightarrow> \<not> is_undefined e \<Longrightarrow> output_outcome output data (Inl e) s s'"
  using keeps_files_temps [OF evolves_keeps_files] by (auto simp: output_outcome_def evolves_def)

lemma output_outcome_after:
  assumes e: "evolves {} s s1" and out: "output_outcome output data r s1 s'"
  shows "output_outcome output data r s s'"
proof -
  have k: "keeps_files s s1" using e by (rule evolves_keeps_files)
  have none: "names s1 output = None \<Longrightarrow> names s output = None" using k unfolding keeps_files_def by (metis not_None_eq)
  have set: "quiet s1 = quiet s" "no_faults s1 = no_faults s" "quiet s \<Longrightarrow> names s1 = names s" "fresh s \<le> fresh s1"
    using e by (auto simp: evolves_def quiet_def no_faults_def)
  show ?thesis
    using out set none keeps_files_trans [OF k] keeps_but_temps_trans [OF keeps_files_temps [OF k]]
    by (auto simp: output_outcome_def)
qed

text \<open>What a writer adds to the stream.\<close>

definition writes :: "(cli_file \<Rightarrow> cli_file) \<Rightarrow> bytes \<Rightarrow> bool" where
  "writes writer data \<longleftrightarrow> (\<forall>i d0 f. stream_inv i d0 f \<longrightarrow> stream_inv i d0 (writer f) \<and>
     (\<not> stream_failed (fst (writer f)) \<longrightarrow> \<not> stream_failed (fst f) \<and> cli_content (writer f) = cli_content f @ data) \<and>
     (no_faults (snd f) \<longrightarrow> \<not> stream_failed (fst f) \<longrightarrow> \<not> stream_failed (fst (writer f)) \<and> no_faults (snd (writer f))))"

lemma writes_stream_write: "writes (cli_stream_write data) data"
  unfolding writes_def
proof (intro allI impI)
  fix i d0 and f :: cli_file assume inv: "stream_inv i d0 f"
  obtain out s out' t where st: "f = (out, s)" "cli_stream_write data f = (out', t)" by (metis surj_pair)
  have o: "descriptor out = Some i" "i < fresh s" using inv st by (auto simp: stream_inv_def evolves_def)
  from cli_stream_write_spec [OF st(2) [unfolded st(1)] o] obtain n where n: "descriptor out' = Some i" "evolves {i} s t"
    "contents t i = contents s i @ take n data" "\<not> stream_failed out' \<longrightarrow> n = length data \<and> \<not> stream_failed out"
    "no_faults s \<longrightarrow> \<not> stream_failed out \<longrightarrow> \<not> stream_failed out'" by blast
  have "no_faults t = no_faults s" using n(2) by (simp add: evolves_def no_faults_def)
  with n o st stream_inv_write [OF inv, of data] show "stream_inv i d0 (cli_stream_write data f) \<and>
     (\<not> stream_failed (fst (cli_stream_write data f)) \<longrightarrow> \<not> stream_failed (fst f) \<and>
        cli_content (cli_stream_write data f) = cli_content f @ data) \<and>
     (no_faults (snd f) \<longrightarrow> \<not> stream_failed (fst f) \<longrightarrow> \<not> stream_failed (fst (cli_stream_write data f)) \<and>
        no_faults (snd (cli_stream_write data f)))"
    by (auto simp: cli_content_def)
qed

lemma writesD:
  assumes "writes writer data" and "stream_inv i d0 f"
  shows "stream_inv i d0 (writer f)"
    and "\<not> stream_failed (fst (writer f)) \<Longrightarrow> \<not> stream_failed (fst f) \<and> cli_content (writer f) = cli_content f @ data"
    and "no_faults (snd f) \<Longrightarrow> \<not> stream_failed (fst f) \<Longrightarrow> \<not> stream_failed (fst (writer f)) \<and> no_faults (snd (writer f))"
  using assms unfolding writes_def by blast+

lemma writes_two:
  assumes "writes w data" and "writes w' data'"
  shows "writes (\<lambda>f. w' (w f)) (data @ data')"
  unfolding writes_def
proof (intro allI impI)
  fix i d0 and f :: cli_file assume inv: "stream_inv i d0 f"
  note 1 = writesD [OF assms(1) inv]
  note 2 = writesD [OF assms(2) 1(1)]
  show "stream_inv i d0 (w' (w f)) \<and>
     (\<not> stream_failed (fst (w' (w f))) \<longrightarrow> \<not> stream_failed (fst f) \<and> cli_content (w' (w f)) = cli_content f @ data @ data') \<and>
     (no_faults (snd f) \<longrightarrow> \<not> stream_failed (fst f) \<longrightarrow> \<not> stream_failed (fst (w' (w f))) \<and> no_faults (snd (w' (w f))))"
  proof (intro conjI impI)
    show "stream_inv i d0 (w' (w f))" by (rule 2(1))
    show "\<not> stream_failed (fst f)" if "\<not> stream_failed (fst (w' (w f)))" using 1(2) 2(2) that by blast
    show "cli_content (w' (w f)) = cli_content f @ data @ data'" if "\<not> stream_failed (fst (w' (w f)))"
      using 1(2) 2(2) that by simp
    show "\<not> stream_failed (fst (w' (w f)))" if "no_faults (snd f)" "\<not> stream_failed (fst f)" using 1(3) 2(3) that by blast
    show "no_faults (snd (w' (w f)))" if "no_faults (snd f)" "\<not> stream_failed (fst f)" using 1(3) 2(3) that by blast
  qed
qed

definition output_ready :: "path \<Rightarrow> file_system \<Rightarrow> bool" where
  "output_ready output s \<longleftrightarrow> no_faults s \<and> quiet s \<and> names s output = None \<and> (\<forall>p. is_temp_path output p \<longrightarrow> names s p = None)"

lemma output_ready_after: "evolves {} s t \<Longrightarrow> output_ready output s \<Longrightarrow> output_ready output t"
  by (auto simp: output_ready_def evolves_def no_faults_def quiet_def)

lemma open_cli_returns:
  assumes healthy: "gcm_healthy ssl view alg" and ready: "output_ready output (disk s)"
  shows "\<exists>out p s'. open_cli_output_file ssl output temp_path s = ((Inr out, p), s')"
proof -
  obtain token c where "random_bytes ssl 16 (rt s) = (Inr token, c)" using random_bytes_returns [OF healthy] by blast
  then have p: "make_unique_temp_path ssl output (rt s) = (Inr (output @ temp_suffix token), c)"
    by (simp add: make_unique_temp_path_def api_random_bytes_def mbind_def mreturn_def)
  let ?p = "output @ temp_suffix token"
  have temp: "is_temp_path output ?p" "?p \<noteq> output"
    using make_unique_temp_path_result [OF p] temp_path_differs by auto
  obtain result fd d where t: "try_open_cli_output_exclusive ?p (disk s) = ((result, fd), d)" by (metis surj_pair)
  have "result = opened"
    using cli_try_open_spec [OF t temp(2)] ready temp(1) by (cases result) (auto simp: output_ready_def)
  moreover obtain n where n: "(32 :: nat) = Suc n" by (rule that [of 31]) simp
  ultimately show ?thesis
    using p t unfolding open_cli_output_file_def n by (simp add: temporary_output_path_for_eq rt_action_def mzoom_def)
qed

lemma write_new_output_file_spec:
  assumes run: "write_new_output_file ssl p writer s = (r, s')" and writer: "writes writer data"
  shows "output_outcome p data r (disk s) (disk s')"
    and "gcm_healthy ssl view alg \<Longrightarrow> output_ready p (disk s) \<Longrightarrow> r = Inr ()"
proof -
  obtain r0 d0 where 0: "ensure_output_file_does_not_exist p (disk s) = (r0, d0)" by fastforce
  note ens = cli_ensure_spec [OF 0]
  have "output_outcome p data r (disk s) (disk s') \<and> (gcm_healthy ssl view alg \<longrightarrow> output_ready p (disk s) \<longrightarrow> r = Inr ())"
  proof (cases r0)
    case (Inl e)
    with run 0 have "r = Inl e" "disk s' = d0"
      by (auto simp: write_new_output_file_def mbind_def disk_action_def mzoom_def)
    with ens Inl show ?thesis by (auto simp: output_ready_def intro: output_outcome_nothing)
  next
    case (Inr u0)
    obtain x temp s1 where 1: "open_cli_output_file ssl p [] (s\<lparr>disk := d0\<rparr>) = ((x, temp), s1)" by (metis surj_pair)
    note op = open_cli_attempts_spec [OF 1 [unfolded open_cli_output_file_def]]
    have e0: "evolves {} (disk s) d0" using ens by blast
    show ?thesis
    proof (cases x)
      case (Inl e)
      with run 0 Inr 1 have r: "r = Inl e"
        "disk s' = (if temp \<noteq> [] then remove_quietly temp (disk s1) else disk s1)"
        by (auto simp: write_new_output_file_def mbind_def disk_action_def mzoom_def remove_file_quietly_eq)
      have "output_outcome p data r d0 (disk s')"
      proof (cases "temp = []")
        case True
        with r op Inl show ?thesis by (auto intro: output_outcome_nothing)
      next
        case False
        with op Inl have t: "is_temp_path p temp" "\<not> is_undefined e" "evolves {} d0 (disk s1)" by auto
        note rem = remove_spec [OF refl, of temp "disk s1"]
        have "output_outcome p data (Inl e) (disk s1) (remove_quietly temp (disk s1))"
          by (rule output_outcome_unwritten [OF _ t(1,2)]) (use rem in blast)
        with t(3) r False show ?thesis by (simp add: output_outcome_after)
      qed
      moreover have "\<not> (gcm_healthy ssl view alg \<and> output_ready p (disk s))"
      proof
        assume h: "gcm_healthy ssl view alg \<and> output_ready p (disk s)"
        then have "output_ready p (disk (s\<lparr>disk := d0\<rparr>))" using output_ready_after [OF e0] by simp
        from open_cli_returns [OF conjunct1 [OF h] this, of "[]"] 1 Inl show False by auto
      qed
      ultimately show ?thesis using output_outcome_after [OF e0] by blast
    next
      case (Inr out)
      with op have "cli_opened temp p out d0 (disk s1)" by simp
      then obtain i where i: "is_temp_path p temp" "job_base temp p i d0 (disk s1)" "stream_inv i (disk s1) (out, disk s1)"
        "descriptor out = Some i" "cli_content (out, disk s1) = []" "cli_open (out, disk s1)" "\<not> stream_failed out"
        by (rule cli_opened_inv)
      define f where "f = writer (out, disk s1)"
      note w = writesD [OF writer i(3), folded f_def]
      obtain r1 d where e: "removing_on_error temp (if stream_failed (fst f) then (Inl cli_write_failed, reset_output f)
          else close_and_commit temp p f) = (r1, d)" by fastforce
      from run 0 \<open>r0 = Inr u0\<close> 1 Inr e [unfolded f_def] have r: "r = r1" "disk s' = d"
        by (auto simp: write_new_output_file_def mbind_def disk_action_def mzoom_def Let_def)
      have "output_end temp p data d0 r1 d \<and> (gcm_healthy ssl view alg \<longrightarrow> output_ready p (disk s) \<longrightarrow> r1 = Inr ())"
      proof (cases "stream_failed (fst f)")
        case True
        have "output_end temp p data d0 (Inl cli_write_failed) (snd (removing_on_error temp (Inl cli_write_failed, reset_output f)))"
          by (rule failed_end [OF i(1,2) w(1)]) (simp add: cli_write_failed_def)
        moreover have "r1 = Inl cli_write_failed \<and> d = snd (removing_on_error temp (Inl cli_write_failed, reset_output f))"
          using e True by (auto simp: removing_on_error_def)
        moreover have "no_faults (disk s1) = no_faults (disk s)"
          using i(2) e0 by (simp add: job_base_def keeps_files_def evolves_def no_faults_def)
        ultimately show ?thesis using w True i(7) by (auto simp: output_ready_def)
      next
        case False
        with e have e': "removing_on_error temp (close_and_commit temp p f) = (r1, d)" by simp
        note x = exclusive_end [OF i(1,2) w(1) e']
        have "cli_content f = data" using w False i(5) by simp
        with x(1,3) False output_ready_after [OF e0] show ?thesis by (auto simp: output_ready_def)
      qed
      then show ?thesis
        using r output_outcome_after [OF e0] output_end_outcome base_settings(5) [OF i(2) evolves_refl] by blast
    qed
  qed
  then show "output_outcome p data r (disk s) (disk s')"
    and "gcm_healthy ssl view alg \<Longrightarrow> output_ready p (disk s) \<Longrightarrow> r = Inr ()" by blast+
qed

end
