(* ===== verification/Cli_Steps.thy ===== *)
theory Cli_Steps
  imports Cli_Output
begin

section \<open>The command line: what every command preserves\<close>

text \<open>
  \<open>run\<close> is a long chain of cases. What holds of all of it is a relation between the state before and the
  state after that every helper obeys and that composes: the interface \<open>state_relation\<close>. An action obeys it
  when every outcome is in the relation and defined.
\<close>

subsection \<open>Relations that actions obey\<close>

definition obeys :: "('s \<Rightarrow> 's \<Rightarrow> bool) \<Rightarrow> ('s, exn, 'a) action \<Rightarrow> bool" where
  "obeys R m \<longleftrightarrow> (\<forall>s r s'. m s = (r, s') \<longrightarrow> R s s' \<and> defined r)"

named_theorems obeys_intros "actions that obey a relation of states"

lemma obeysD: "obeys R m \<Longrightarrow> m s = (r, s') \<Longrightarrow> R s s' \<and> defined r"
  unfolding obeys_def by blast

lemma obeysI: "(\<And>s r s'. m s = (r, s') \<Longrightarrow> R s s' \<and> defined r) \<Longrightarrow> obeys R m"
  unfolding obeys_def by blast

lemma obeys_if [obeys_intros]:
  "(b \<Longrightarrow> obeys R m) \<Longrightarrow> (\<not> b \<Longrightarrow> obeys R m') \<Longrightarrow> obeys R (if b then m else m')"
  by simp

lemma obeys_mzoom:
  assumes "obeys R m" and "\<And>s t. R (get s) t \<Longrightarrow> S s (put t s)"
  shows "obeys S (mzoom get put m)"
proof (rule obeysI)
  fix s r s' assume run: "mzoom get put m s = (r, s')"
  obtain r1 t where 1: "m (get s) = (r1, t)" by (metis surj_pair)
  from obeysD [OF assms(1) 1] run 1 assms(2) show "S s s' \<and> defined r" by (auto simp: mzoom_def)
qed

locale state_relation =
  fixes R :: "'s \<Rightarrow> 's \<Rightarrow> bool"
  assumes refl: "R s s" and trans: "R s t \<Longrightarrow> R t u \<Longrightarrow> R s u"
begin

lemma obeys_pure [obeys_intros]:
  "obeys R (mreturn x)" "\<not> is_undefined e \<Longrightarrow> obeys R (mthrow e)" "defined r \<Longrightarrow> obeys R (mlift r)"
  "obeys R (mget f)"
  using refl by (auto simp: obeys_def mreturn_def mthrow_def mlift_def mget_def)

lemma obeys_mbind [obeys_intros]:
  assumes m: "obeys R m" and f: "\<And>x. obeys R (f x)"
  shows "obeys R (mbind m f)"
proof (rule obeysI)
  fix s r s' assume run: "mbind m f s = (r, s')"
  obtain r1 t where 1: "m s = (r1, t)" by (metis surj_pair)
  note step = obeysD [OF m 1]
  show "R s s' \<and> defined r"
  proof (cases r1)
    case (Inl e)
    with run 1 step show ?thesis by (auto simp: mbind_def)
  next
    case (Inr x)
    with run 1 have "f x t = (r, s')" by (simp add: mbind_def)
    from obeysD [OF f this] step trans show ?thesis by blast
  qed
qed

end

subsection \<open>Reading\<close>

interpretation reading: state_relation "evolves {}"
  by unfold_locales (blast intro: evolves_trans evolves_refl)+

abbreviation reads :: "(file_system, exn, 'a) action \<Rightarrow> bool" where
  "reads \<equiv> obeys (evolves {})"

lemma runtime_error_defined [simp]: "\<not> is_undefined bad_key" "\<not> is_undefined buffer_error" "\<not> is_undefined unsupported_command"
  "\<not> is_undefined cli_output_exists" "\<not> is_undefined cli_write_failed"
  by (simp_all add: bad_key_def buffer_error_def unsupported_command_def cli_output_exists_def cli_write_failed_def)

lemma open_cli_input_file_reads: "reads (open_cli_input_file p)"
proof (rule obeysI)
  fix s r s' assume run: "open_cli_input_file p s = (r, s')"
  obtain x t where x: "open_ifstream p s = (x, t)" by (metis surj_pair)
  from open_ifstream_spec [OF x] run x show "evolves {} s s' \<and> defined r"
    by (cases x) (auto simp: open_cli_input_file_def)
qed

lemma read_file_reads: "reads (read_file p)"
  unfolding read_file_def by (intro obeys_intros open_cli_input_file_reads reading.obeys_mbind reading.obeys_pure) simp_all

lemma file_arguments_read: "reads (password_from_file p)" "reads (key_from_file p)"
  unfolding password_from_file_def key_from_file_def
  by (intro obeys_intros reading.obeys_mbind reading.obeys_pure read_file_reads defined_intros; simp)+

lemma arguments_read: "reads (key_from_option option v)" "reads (wrapping_key_from_option option v)"
  "reads (reject_duplicate b option)" "reads (conflicting b message)" "reads (usage_error usage)"
  "defined (aad_from_option option v)"
  unfolding key_from_option_def wrapping_key_from_option_def reject_duplicate_def conflicting_def usage_error_def aad_from_option_def
  by (intro obeys_intros reading.obeys_pure file_arguments_read defined_intros; simp)+
    (simp add: encodings_defined)

text \<open>An even number of arguments never reaches the null pointer.\<close>

lemma parse_pairs_reads:
  "length args mod 2 = 0 \<Longrightarrow> (\<And>option v options. reads (step option v options)) \<Longrightarrow> reads (parse_pairs step args options)"
proof (induction step args options rule: parse_pairs.induct)
  case (1 step options)
  show ?case by (simp add: reading.obeys_pure)
next
  case (2 step option options)
  then show ?case by simp
next
  case (3 step option v rest options)
  have "length rest mod 2 = 0" using 3(2) by simp
  from 3(1) [OF this 3(3)] show ?case by (simp add: reading.obeys_mbind 3(3))
qed

lemma parsers_read:
  "reads (parse_file_command_options argv)" "reads (parse_password_file_command_options argv)"
  "reads (parse_wrap_key_options argv)" "reads (parse_unwrap_key_options argv)"
  "reads (parse_encrypt_options argv)" "reads (parse_decrypt_options argv)"
  unfolding parse_file_command_options_def parse_password_file_command_options_def parse_wrap_key_options_def
    parse_unwrap_key_options_def parse_encrypt_options_def parse_decrypt_options_def Let_def
    file_command_option_def [abs_def] password_file_command_option_def [abs_def] wrap_key_option_def [abs_def]
    unwrap_key_option_def [abs_def] encrypt_option_def [abs_def] decrypt_option_def [abs_def]
  by (intro obeys_intros reading.obeys_mbind reading.obeys_pure parse_pairs_reads arguments_read file_arguments_read
      read_file_reads encodings_defined; simp)+

subsection \<open>Writing\<close>

lemma write_binary_file_spec:
  assumes "write_binary_file ssl p bs s = (r, s')"
  shows "output_outcome p bs r (disk s) (disk s')"
    and "gcm_healthy ssl view alg \<Longrightarrow> output_ready p (disk s) \<Longrightarrow> r = Inr ()"
  using write_new_output_file_spec [OF assms [unfolded write_binary_file_def] writes_stream_write] by blast+

definition key_file_bytes :: "bytes \<Rightarrow> bytes" where
  "key_file_bytes key = bytes_from_text (hex_encode_loop key) @ [byte_of_char nl]"

lemma write_key_file_spec:
  assumes run: "write_key_file ssl p key s = (r, s')" and key: "length key = 32"
  shows "output_outcome p (key_file_bytes key) r (disk s) (disk s')"
    and "gcm_healthy ssl view alg \<Longrightarrow> output_ready p (disk s) \<Longrightarrow> r = Inr ()"
proof -
  have hex: "hex_encode key = Inr (hex_encode_loop key)" using key by (simp add: hex_encode_def string_max_size_def)
  have run': "write_new_output_file ssl p (\<lambda>f. cli_stream_write [byte_of_char nl]
      (cli_stream_write (bytes_from_text (hex_encode_loop key)) f)) s = (r, s')"
    using run by (simp add: write_key_file_def hex)
  note spec = write_new_output_file_spec [OF run' writes_two [OF writes_stream_write writes_stream_write]]
  show "output_outcome p (key_file_bytes key) r (disk s) (disk s')"
    using spec(1) by (simp add: key_file_bytes_def)
  show "gcm_healthy ssl view alg \<Longrightarrow> output_ready p (disk s) \<Longrightarrow> r = Inr ()" by (rule spec(2))
qed

lemma generate_key_length: "api_generate_key ssl c = (Inr key, c') \<Longrightarrow> length key = 32"
  using fill_random_result [where ssl = ssl and secret = True and n = 32 and s = c]
  by (auto simp: api_generate_key_def generate_key_def)

subsection \<open>The console\<close>

definition quietly :: "'o console \<Rightarrow> 'o console \<Rightarrow> bool" where
  "quietly s t \<longleftrightarrow> keeps_but_temps (disk (sys s)) (disk (sys t)) \<and> (\<exists>more. written (cout t) = written (cout s) @ more) \<and>
     cerr t = cerr s \<and> stdout_flushes t = stdout_flushes s"

interpretation con: state_relation quietly
proof
  show "quietly s s" for s :: "'o console" by (simp add: quietly_def keeps_but_temps_refl)
  show "quietly s u" if "quietly s t" "quietly t u" for s t u :: "'o console"
    using that keeps_but_temps_trans by (auto simp: quietly_def)
qed

abbreviation behaves :: "('o console, exn, 'a) action \<Rightarrow> bool" where
  "behaves \<equiv> obeys quietly"

abbreviation keeps_system :: "('o system, exn, 'a) action \<Rightarrow> bool" where
  "keeps_system \<equiv> obeys (\<lambda>s t. keeps_but_temps (disk s) (disk t))"

named_theorems behaves_intros "actions of the console"

lemma console_parts [behaves_intros]:
  "reads m \<Longrightarrow> behaves (con_disk m)" "always_defined m' \<Longrightarrow> behaves (con_rt m')" "keeps_system m'' \<Longrightarrow> behaves (con_system m'')"
proof -
  show "reads m \<Longrightarrow> behaves (con_disk m)"
    unfolding con_disk_def by (erule obeys_mzoom) (simp add: quietly_def keeps_files_temps evolves_keeps_files)
  show "keeps_system m'' \<Longrightarrow> behaves (con_system m'')"
    unfolding con_system_def by (erule obeys_mzoom) (simp add: quietly_def)
  assume "always_defined m'"
  then have "obeys (\<lambda>_ _. True) m'" by (auto simp: obeys_def dest: always_definedD)
  then show "behaves (con_rt m')"
    unfolding con_rt_def by (rule obeys_mzoom) (simp add: quietly_def keeps_but_temps_refl)
qed

lemma ostream_write_grows: "\<exists>more. written (ostream_write data out) = written out @ more"
  by (auto simp: ostream_write_def split: option.split)

lemma fold_write_grows: "\<exists>more. written (fold (\<lambda>b out. ostream_write [b] out) bs out) = written out @ more"
proof (induction bs arbitrary: out)
  case (Cons b bs)
  from Cons [of "ostream_write [b] out"] ostream_write_grows [of "[b]" out] show ?case by auto
qed simp

lemma printing_behaves [behaves_intros]:
  "behaves (print x)" "behaves (print_line x)" "behaves (write_bytes bs)" "behaves print_help" "behaves (print_version v)"
proof -
  show p: "behaves (print x)" for x
    using ostream_write_grows by (auto simp: obeys_def print_def mmodify_def quietly_def keeps_but_temps_refl)
  have "behaves (mmodify (\<lambda>c. c\<lparr>cout := fold (\<lambda>b out. ostream_write [b] out) bs (cout c)\<rparr>))"
    using fold_write_grows by (auto simp: obeys_def mmodify_def quietly_def keeps_but_temps_refl)
  then show "behaves (write_bytes bs)" unfolding write_bytes_def by (intro con.obeys_mbind p)
  show "behaves (print_line x)" "behaves print_help" "behaves (print_version v)"
    unfolding print_line_def print_help_def print_version_def by (intro con.obeys_mbind p)+
qed

lemma writing_keeps [behaves_intros]:
  "keeps_system (write_binary_file ssl p bs)" "length key = 32 \<Longrightarrow> keeps_system (write_key_file ssl p key)"
  "keeps_system (write_generated_key ssl p)"
proof -
  show "keeps_system (write_binary_file ssl p bs)"
    by (rule obeysI) (drule write_binary_file_spec(1), simp add: output_outcome_def)
  show key: "length key = 32 \<Longrightarrow> keeps_system (write_key_file ssl p key)" for key
    by (rule obeysI) (drule (1) write_key_file_spec(1), simp add: output_outcome_def)
  show "keeps_system (write_generated_key ssl p)"
  proof (rule obeysI)
    fix s r s' assume run: "write_generated_key ssl p s = (r, s')"
    obtain k c where k: "api_generate_key ssl (rt s) = (k, c)" by fastforce
    show "keeps_but_temps (disk s) (disk s') \<and> defined r"
    proof (cases k)
      case (Inl e)
      with run k always_definedD [OF random_defined(2) k] show ?thesis
        by (auto simp: write_generated_key_def mbind_def rt_action_def mzoom_def keeps_but_temps_refl)
    next
      case (Inr x)
      with run k have "write_key_file ssl p x (s\<lparr>rt := c\<rparr>) = (r, s')"
        by (simp add: write_generated_key_def mbind_def rt_action_def mzoom_def)
      from obeysD [OF key this] k Inr generate_key_length show ?thesis by auto
    qed
  qed
qed

lemma path_overloads_keep [behaves_intros]:
  "keeps_system (seal_file ssl input output key aad)" "keeps_system (open_file ssl input output key aad)"
  "keeps_system (seal_file_with_password ssl input output key aad)"
  "keeps_system (open_file_with_password ssl input output key aad)"
proof -
  have "keeps_system m" if m: "m \<in> {seal_file ssl input output key aad, open_file ssl input output key aad,
      seal_file_with_password ssl input output key aad, open_file_with_password ssl input output key aad}"
    and d: "always_defined m" for m
  proof (rule obeysI)
    fix s r s' assume run: "m s = (r, s')"
    have "keeps_but_temps (disk s) (disk s')" if ok: "fs_ok (disk s)"
      using outcome_of_all [OF m ok run] keeps_files_temps unfolding job_outcome_def by blast
    then show "keeps_but_temps (disk s) (disk s') \<and> defined r"
      using always_definedD [OF d run] unfolding keeps_but_temps_def by blast
  qed
  note kept = this
  show "keeps_system (seal_file ssl input output key aad)" by (rule kept [OF _ path_overloads_defined(1)]) simp
  show "keeps_system (open_file ssl input output key aad)" by (rule kept [OF _ path_overloads_defined(2)]) simp
  show "keeps_system (seal_file_with_password ssl input output key aad)"
    by (rule kept [OF _ path_overloads_defined(3)]) simp
  show "keeps_system (open_file_with_password ssl input output key aad)"
    by (rule kept [OF _ path_overloads_defined(4)]) simp
qed

subsection \<open>Streaming\<close>

text \<open>Standard output only grows, and the discarding buffer takes everything.\<close>

interpretation outj: sink_invariant write_all "\<lambda>out. \<exists>more. written out = w @ more" for w
proof
  fix out out' :: ostream and data r
  assume "\<exists>more. written out = w @ more" and put: "write_all data out = (r, out')"
  moreover have "\<exists>more. written out' = written out @ more"
    using put ostream_write_grows by (auto simp: write_all_def Let_def)
  moreover have "defined r" using put by (auto simp: write_all_def Let_def)
  ultimately show "(\<exists>more. written out' = w @ more) \<and> defined r" by auto
qed

interpretation discj: sink_invariant discard_put "\<lambda>_. True"
  by unfold_locales (auto simp: discard_put_def)

lemma operate_spec:
  assumes "operate b i out m s = (r, out', s1)"
  shows "\<exists>t. m \<lparr>source = i, sink = out, crypto = rt (sys s)\<rparr> = (r, t) \<and> out' = sink t \<and> disk (sys s1) = disk (sys s) \<and>
    rt (sys s1) = crypto t \<and> cout s1 = cout s \<and> cerr s1 = cerr s \<and> stdout_flushes s1 = stdout_flushes s"
  using assms by (cases b) (auto simp: operate_def Let_def split: prod.splits)

lemma set_binary_reads: "reads (set_standard_stream_binary fd)"
  by (auto simp: obeys_def set_standard_stream_binary_def dest: sys_succeeds_evolves split: if_splits prod.splits)

lemma set_binary_behaves [behaves_intros]: "behaves (con_disk set_stdin_binary)" "behaves (con_disk set_stdout_binary)"
  unfolding set_stdin_binary_def set_stdout_binary_def by (intro console_parts(1) set_binary_reads)+

lemma cli_input_behaves: "behaves (cli_input b input)"
  unfolding cli_input_def by (intro obeys_intros con.obeys_pure behaves_intros open_cli_input_file_reads)

lemma stream_to_stdout_behaves:
  assumes keeps: "\<And>w. keeps_sink (\<lambda>out. \<exists>more. written out = w @ more) m"
  shows "behaves (stream_to_stdout b i m)"
proof (rule obeysI)
  fix s r s' assume run: "stream_to_stdout b i m s = (r, s')"
  obtain r1 out s1 where 1: "operate b i (cout s) m s = (r1, out, s1)" by (metis surj_pair)
  from operate_spec [OF 1] obtain t where t: "m \<lparr>source = i, sink = cout s, crypto = rt (sys s)\<rparr> = (r1, t)" "out = sink t"
    "disk (sys s1) = disk (sys s)" "cout s1 = cout s" "cerr s1 = cerr s" "stdout_flushes s1 = stdout_flushes s" by blast
  have "(\<exists>more. written (sink t) = written (cout s) @ more) \<and> defined r1"
    using keeps_sinkD [OF keeps [of "written (cout s)"] _ t(1)] keeps_sink_defined [OF keeps [of "written (cout s)"] _ t(1)] by simp
  with t run 1 show "quietly s s' \<and> defined r"
    by (cases r1) (auto simp: stream_to_stdout_def quietly_def keeps_but_temps_refl ostream_flush_def Let_def)
qed

text \<open>The exclusive output of a stream ends like every other.\<close>

lemma stream_to_file_spec:
  assumes keeps: "\<And>j d. keeps_sink (stream_inv j d) m" and run: "stream_to_file ssl b i p m s = (r, s')"
  shows "\<exists>data. output_outcome p data r (disk (sys s)) (disk (sys s')) \<and>
      (r = Inr () \<longrightarrow> (\<exists>out c t. m \<lparr>source = i, sink = out, crypto = c\<rparr> = (Inr (), t) \<and> cli_open out \<and>
         cli_content out = [] \<and> data = cli_content (sink t)))"
    and "cout s' = cout s \<and> cerr s' = cerr s \<and> stdout_flushes s' = stdout_flushes s"
proof -
  let ?d = "disk (sys s)"
  obtain r0 d0 where 0: "ensure_output_file_does_not_exist p ?d = (r0, d0)" by fastforce
  note ens = cli_ensure_spec [OF 0]
  have e0: "evolves {} ?d d0" using ens by blast
  have "(\<exists>data. output_outcome p data r ?d (disk (sys s')) \<and>
      (r = Inr () \<longrightarrow> (\<exists>out c t. m \<lparr>source = i, sink = out, crypto = c\<rparr> = (Inr (), t) \<and> cli_open out \<and>
         cli_content out = [] \<and> data = cli_content (sink t)))) \<and>
    cout s' = cout s \<and> cerr s' = cerr s \<and> stdout_flushes s' = stdout_flushes s"
  proof (cases r0)
    case (Inl e)
    with run 0 have "r = Inl e" "s' = s\<lparr>sys := (sys s)\<lparr>disk := d0\<rparr>\<rparr>"
      by (auto simp: stream_to_file_def mbind_def con_disk_def mzoom_def)
    with ens Inl show ?thesis by (auto intro!: output_outcome_nothing)
  next
    case (Inr u0)
    obtain x temp y where 1: "open_cli_output_file ssl p [] ((sys s)\<lparr>disk := d0\<rparr>) = ((x, temp), y)" by (metis surj_pair)
    note op = open_cli_attempts_spec [OF 1 [unfolded open_cli_output_file_def]]
    show ?thesis
    proof (cases x)
      case (Inl e)
      with run 0 Inr 1 have "r = Inl e" "s' = s\<lparr>sys := y\<rparr>"
        by (auto simp: stream_to_file_def mbind_def con_disk_def mzoom_def)
      with op Inl output_outcome_after [OF e0 output_outcome_nothing] show ?thesis by auto
    next
      case (Inr out)
      with op have "cli_opened temp p out d0 (disk y)" by simp
      then obtain j where j: "is_temp_path p temp" "job_base temp p j d0 (disk y)" "stream_inv j (disk y) (out, disk y)"
        "descriptor out = Some j" "cli_content (out, disk y) = []" "cli_open (out, disk y)" "\<not> stream_failed out"
        by (rule cli_opened_inv)
      obtain r1 f s1 where 2: "operate b i (out, disk y) m (s\<lparr>sys := y\<rparr>) = (r1, f, s1)" by (metis surj_pair)
      from operate_spec [OF 2] obtain t where t: "m \<lparr>source = i, sink = (out, disk y), crypto = rt y\<rparr> = (r1, t)" "f = sink t"
        "cout s1 = cout s" "cerr s1 = cerr s" "stdout_flushes s1 = stdout_flushes s" by auto
      have inv: "stream_inv j (disk y) f" "defined r1"
        using keeps_sinkD [OF keeps _ t(1)] keeps_sink_defined [OF keeps _ t(1)] j(3) t(2) by simp_all
      obtain r2 d where e: "removing_on_error temp
          (case r1 of Inl e \<Rightarrow> (Inl e, reset_output f) | Inr _ \<Rightarrow> close_and_commit temp p f) = (r2, d)" by fastforce
      from run 0 \<open>r0 = Inr u0\<close> 1 Inr 2 e have r: "r = r2" "s' = s1\<lparr>sys := (sys s1)\<lparr>disk := d\<rparr>\<rparr>"
        by (auto simp: stream_to_file_def mbind_def con_disk_def mzoom_def)
      have none: "names d0 temp = None" by (rule base_settings(5) [OF j(2) evolves_refl])
      have "output_outcome p (cli_content f) r2 ?d d \<and> (r2 = Inr () \<longrightarrow> r1 = Inr ())"
      proof (cases r1)
        case (Inl x)
        then have "r2 = Inl x" "d = snd (removing_on_error temp (Inl x, reset_output f))" "\<not> is_undefined x"
          using e inv(2) by (auto simp: removing_on_error_def)
        with failed_end [OF j(1,2) inv(1)] output_end_outcome none output_outcome_after [OF e0] show ?thesis by blast
      next
        case (Inr u)
        with e have "removing_on_error temp (close_and_commit temp p f) = (r2, d)" by simp
        from exclusive_end(1) [OF j(1,2) inv(1) this] output_end_outcome none output_outcome_after [OF e0] Inr
        show ?thesis by (metis (full_types) old.unit.exhaust)
      qed
      with r t j(5,6) show ?thesis by (intro conjI exI [of _ "cli_content f"]) auto
    qed
  qed
  then show "\<exists>data. output_outcome p data r ?d (disk (sys s')) \<and>
      (r = Inr () \<longrightarrow> (\<exists>out c t. m \<lparr>source = i, sink = out, crypto = c\<rparr> = (Inr (), t) \<and> cli_open out \<and>
         cli_content out = [] \<and> data = cli_content (sink t)))"
    and "cout s' = cout s \<and> cerr s' = cerr s \<and> stdout_flushes s' = stdout_flushes s" by blast+
qed

lemma stream_to_file_behaves:
  assumes keeps: "\<And>j d. keeps_sink (stream_inv j d) m"
  shows "behaves (stream_to_file ssl b i p m)"
proof (rule obeysI)
  fix s r s' assume run: "stream_to_file ssl b i p m s = (r, s')"
  from stream_to_file_spec [OF keeps run] show "quietly s s' \<and> defined r"
    by (auto simp: output_outcome_def quietly_def)
qed

lemma verify_behaves:
  assumes "keeps_sink (\<lambda>_. True) m"
  shows "behaves (run_verify_file_command b input m)"
proof -
  have "behaves (\<lambda>s. case operate b i [] m s of (r, _, s1) \<Rightarrow> (r, s1))" for i
  proof (rule obeysI)
    fix s r s' assume run: "(case operate b i [] m s of (r, _, s1) \<Rightarrow> (r, s1)) = (r, s')"
    obtain out where "operate b i [] m s = (r, out, s')" using run by (auto split: prod.splits)
    from operate_spec [OF this] keeps_sink_defined [OF assms] show "quietly s s' \<and> defined r"
      by (auto simp: quietly_def keeps_but_temps_refl)
  qed
  then show ?thesis unfolding run_verify_file_command_def
    by (intro con.obeys_mbind obeys_if con.obeys_pure behaves_intros cli_input_behaves)
qed

text \<open>The stream overloads, on any output with an invariant.\<close>

context sink_invariant
begin

lemma overloads_keep:
  "keeps_sink kept (seal_file_stream ssl put key aad)" "keeps_sink kept (open_file_stream ssl put key aad)"
  "keeps_sink kept (seal_file_with_password_stream ssl put key aad)"
  "keeps_sink kept (open_file_with_password_stream ssl put key aad)"
proof -
  show "keeps_sink kept (seal_file_stream ssl put key aad)" "keeps_sink kept (open_file_stream ssl put key aad)"
    unfolding stream_overloads(1,2) by (rule opening_keeps)+
  show "keeps_sink kept (seal_file_with_password_stream ssl put key aad)"
  proof (cases "key = []")
    case True
    show ?thesis unfolding True by (rule keeps_sinkI) (simp add: empty_password_refused, fastforce)
  next
    case False
    show ?thesis unfolding stream_overloads(3) [OF False] by (rule opening_keeps)
  qed
  show "keeps_sink kept (open_file_with_password_stream ssl put key aad)"
  proof (cases "key = []")
    case True
    show ?thesis unfolding True by (rule keeps_sinkI) (simp add: empty_password_refused, fastforce)
  next
    case False
    show ?thesis unfolding stream_overloads(4) [OF False] by (rule opening_keeps)
  qed
qed

end

lemma streaming_behaves:
  assumes "\<And>w. keeps_sink (\<lambda>out. \<exists>more. written out = w @ more) m" and "\<And>j d. keeps_sink (stream_inv j d) m'"
  shows "behaves (run_streaming_file_command ssl b b' input output m m')"
  unfolding run_streaming_file_command_def
  by (intro con.obeys_mbind con.obeys_pure behaves_intros cli_input_behaves obeys_if stream_to_stdout_behaves
      stream_to_file_behaves assms)

subsection \<open>Commands and their exit codes\<close>

text \<open>
  A command that returns 0 has said nothing on standard error; one that returns 1 has added one message there,
  after everything else.
\<close>

definition reported :: "'o console \<Rightarrow> int result \<Rightarrow> 'o console \<Rightarrow> bool" where
  "reported s r s' \<longleftrightarrow> defined r \<and> (case r of
       Inl e \<Rightarrow> quietly s s'
     | Inr code \<Rightarrow> code = 0 \<and> quietly s s' \<or>
         code = 1 \<and> (\<exists>t message. quietly s t \<and> s' = t\<lparr>cerr := cerr t @ message @ [nl]\<rparr>))"

definition reports :: "('o console, exn, int) action \<Rightarrow> bool" where
  "reports m \<longleftrightarrow> (\<forall>s r s'. m s = (r, s') \<longrightarrow> reported s r s')"

lemma reported_after: "quietly s t \<Longrightarrow> reported t r s' \<Longrightarrow> reported s r s'"
  by (cases r) (auto simp: reported_def intro: con.trans)

lemma reportsD: "reports m \<Longrightarrow> m s = (r, s') \<Longrightarrow> reported s r s'"
  unfolding reports_def by blast

named_theorems reports_intros "commands and their exit codes"

lemma reports_fail [reports_intros]: "reports (fail message)"
  using con.refl by (auto simp: reports_def reported_def fail_def mbind_def mmodify_def mreturn_def)

lemma reports_zero [reports_intros]: "reports (mreturn 0)"
  using con.refl by (auto simp: reports_def reported_def mreturn_def)

lemma reports_if [reports_intros]: "(b \<Longrightarrow> reports m) \<Longrightarrow> (\<not> b \<Longrightarrow> reports m') \<Longrightarrow> reports (if b then m else m')"
  by simp

lemma reports_mbind_post:
  assumes m: "behaves m" and Q: "\<And>s x t. m s = (Inr x, t) \<Longrightarrow> Q x" and f: "\<And>x. Q x \<Longrightarrow> reports (f x)"
  shows "reports (mbind m f)"
  unfolding reports_def
proof (intro allI impI)
  fix s r s' assume run: "mbind m f s = (r, s')"
  obtain r1 t where 1: "m s = (r1, t)" by (metis surj_pair)
  note step = obeysD [OF m 1]
  show "reported s r s'"
  proof (cases r1)
    case (Inl e)
    with run 1 step show ?thesis by (auto simp: mbind_def reported_def)
  next
    case (Inr x)
    with run 1 have "f x t = (r, s')" by (simp add: mbind_def)
    from reported_after [OF conjunct1 [OF step] reportsD [OF f [OF Q [OF 1 [unfolded Inr]]] this]] show ?thesis .
  qed
qed

lemma reports_mbind [reports_intros]: "behaves m \<Longrightarrow> (\<And>x. reports (f x)) \<Longrightarrow> reports (mbind m f)"
  by (rule reports_mbind_post [where Q = "\<lambda>_. True"]) simp_all

lemma reports_success [reports_intros]: "behaves m \<Longrightarrow> reports (success m)"
  unfolding success_def by (intro reports_intros)

lemma reports_hex [reports_intros]: "reports (print_hex data)"
  unfolding print_hex_def by (intro reports_intros behaves_intros con.obeys_pure encodings_defined)

lemma unwrap_key_length: "unwrap_key ssl packet wk aad s = (Inr key, t) \<Longrightarrow> length key = 32"
  by (auto simp: unwrap_key_def wipe_on_exit_def mbind_def mreturn_def mthrow_def split: prod.splits sum.splits if_splits)

lemma commands_report [reports_intros]:
  "reports (wrap_key_command ssl argv)" "reports (unwrap_key_command ssl argv)" "reports (encrypt_command ssl argv)"
  "reports (decrypt_command ssl argv)" "reports (file_command ssl argv)" "reports (password_file_command ssl argv)"
proof -
  show "reports (wrap_key_command ssl argv)" "reports (encrypt_command ssl argv)" "reports (decrypt_command ssl argv)"
    unfolding wrap_key_command_def encrypt_command_def decrypt_command_def
    by (intro reports_intros behaves_intros obeys_if parsers_read packets_defined)+
  have "con_rt (unwrap_key ssl packet wk []) s = (Inr key, t) \<Longrightarrow> length key = 32" for packet wk key s t
    using unwrap_key_length by (auto simp: con_rt_def mzoom_def split: prod.splits)
  then show "reports (unwrap_key_command ssl argv)"
    unfolding unwrap_key_command_def
    by (intro reports_mbind [OF console_parts(1) [OF parsers_read(4)]]
        reports_mbind_post [OF console_parts(2) [OF packets_defined(4)], where Q = "\<lambda>key. length key = 32"])
      (auto intro!: reports_intros behaves_intros)
  show "reports (file_command ssl argv)"
    unfolding file_command_def Let_def
    by (intro reports_intros behaves_intros obeys_if parsers_read streaming_behaves verify_behaves
        outj.overloads_keep clij.overloads_keep discj.overloads_keep)
  show "reports (password_file_command ssl argv)"
    unfolding password_file_command_def Let_def
    by (intro reports_intros behaves_intros obeys_if parsers_read streaming_behaves verify_behaves
        outj.overloads_keep clij.overloads_keep discj.overloads_keep)
qed

lemma print_command_help_behaves: "behaves (print_command_help command)"
  by (cases "command_help command") (simp_all add: print_command_help_def con.obeys_mbind con.obeys_pure behaves_intros)

lemma run_command_reports: "reports (run_command ssl version argv)"
  unfolding run_command_def Let_def
  by (intro reports_intros behaves_intros print_command_help_behaves con.obeys_pure defined_intros defined_result_if
      read_file_reads defined.simps(1) [THEN iffD2] TrueI)

end
