(* ===== verification/Cli_Properties.thy ===== *)
theory Cli_Properties
  imports Cli_Steps
begin

section \<open>Properties of the command line\<close>

text \<open>
  What a run of the tool guarantees: it always ends with an exit code and says why it failed, it never touches a file
  it was not asked to create, its outputs appear complete or not at all, and its commands undo each other.
\<close>

subsection \<open>Every run\<close>

lemma run_course:
  "\<exists>code t s'. run ssl version argv s = (Inr code, s') \<and> quietly s t \<and>
     (code = 0 \<and> s' = t \<or> code = 1 \<and> (\<exists>message. s' = t\<lparr>cerr := cerr t @ message @ [nl]\<rparr>))"
proof -
  obtain r s1 where 1: "run_command ssl version argv s = (r, s1)" by (metis surj_pair)
  note rep = reportsD [OF run_command_reports 1, unfolded reported_def]
  show ?thesis
  proof (cases r)
    case (Inl e)
    with 1 rep show ?thesis
      by (auto simp: run_def fail_def mbind_def mmodify_def mreturn_def)
  next
    case (Inr code)
    with 1 rep show ?thesis by (auto simp: run_def)
  qed
qed



subsection \<open>A concrete console\<close>

definition toy_console :: "bytes \<Rightarrow> bytes \<Rightarrow> nat console" where
  "toy_console file input = \<lparr>sys = toy_system file, cin = fresh_istream input,
     cout = \<lparr>written = [], room = None, out_failed = False\<rparr>, cerr = [], stdout_flushes = True\<rparr>"

lemma toy_console_simps [simp]:
  "sys (toy_console file input) = toy_system file" "cin (toy_console file input) = fresh_istream input"
  "cerr (toy_console file input) = []" "stdout_flushes (toy_console file input)"
  "platform (disk (toy_system file)) = Unix" "written (cout (toy_console file input)) = []" "ostream_reliable (cout (toy_console file input))"
  by (simp_all add: toy_console_def ostream_reliable_def toy_system_def)

lemma toy_file: "names (disk (toy_system data)) ''in'' = Some 0" "contents (disk (toy_system data)) 0 = data"
  "fresh (disk (toy_system data)) = 1" "fs_ok (disk (toy_system data))"
  by (simp_all add: toy_system_def fs_ok_def)

lemma length_temp_suffix: "length (temp_suffix token) = 18 + 2 * length token"
proof -
  have "length (concat (map (\<lambda>v. [f v, g v]) token)) = 2 * length token" for f g :: "byte \<Rightarrow> char"
    by (induction token) simp_all
  then show ?thesis by (simp add: temp_suffix_def)
qed

lemma not_temporary: "length p < 50 \<Longrightarrow> \<not> temporary_name p"
  by (auto simp: temporary_name_def is_temp_path_def length_temp_suffix)


subsection \<open>Outputs\<close>

text \<open>
  C21: The outputs of \<open>encrypt\<close>, \<open>decrypt\<close>, \<open>wrap-key\<close>, \<open>unwrap-key\<close> and \<open>keygen\<close> appear complete or not at all. A write that
  returns has created the output, which did not exist, with exactly the data; one that throws has not created it,
  unless another process did.
\<close>

theorem cli_output_all_or_nothing:
  assumes "length key = 32"
    and "writer = write_binary_file ssl p data \<or> writer = write_key_file ssl p key \<and> data = key_file_bytes key"
    and "writer s = (r, s')"
  shows "(r = Inr () \<longrightarrow> names (disk s) p = None \<and> (\<exists>i. names (disk s') p = Some i \<and> contents (disk s') i = data)) \<and>
    (r \<noteq> Inr () \<longrightarrow> quiet (disk s) \<longrightarrow> names (disk s') p = names (disk s) p)"
proof -
  have "output_outcome p data r (disk s) (disk s')"
    using assms write_binary_file_spec(1) write_key_file_spec(1) by blast
  moreover have "\<not> is_temp_path p p" using temp_path_differs by blast
  ultimately show ?thesis unfolding output_outcome_def by blast
qed

lemma cli_output_all_or_nothing_witness:
  "names (disk (snd (write_binary_file toy_ssl ''in'' [7] (toy_system [1, 2])))) ''in'' = Some 0"
proof -
  obtain r s' where run: "write_binary_file toy_ssl ''in'' [7] (toy_system [1, 2]) = (r, s')" by (metis surj_pair)
  have key: "length (replicate 32 (0 :: byte)) = 32" by simp
  have "write_binary_file toy_ssl ''in'' [7] = write_binary_file toy_ssl ''in'' [7] \<or>
      write_binary_file toy_ssl ''in'' [7] = write_key_file toy_ssl ''in'' (replicate 32 0) \<and> [7] = key_file_bytes (replicate 32 0)"
    by simp
  from cli_output_all_or_nothing [OF key this run] toy_file(1) [of "[1, 2]"] toy_system_ready(4) [of "[1, 2]"] run
  show ?thesis by (cases "r = Inr ()") simp_all
qed

subsection \<open>Reading back\<close>

lemma key_from_hex_length: "key_from_hex s = Inr key \<Longrightarrow> length key = 32"
  by (auto simp: key_from_hex_def rbind_Inr_iff split: if_splits)

lemma read_file_returns:
  assumes "no_faults s" and "fs_ok s" and "names s p = Some j"
  shows "\<exists>s'. read_file p s = (Inr (contents s j), s') \<and> evolves {} s s'"
proof -
  obtain x t where x: "open_ifstream p s = (x, t)" by (metis surj_pair)
  note spec = open_ifstream_spec [OF x]
  from spec assms obtain i where "x = Some i" by (cases x) auto
  with spec assms have i: "istream_good i" "\<not> broken i" "remaining i = contents s j" by auto
  have bytes: "map byte_of_char (map char_of_byte bs) = bs" for bs by (rule map_o_inverse) simp
  have "read_file p s = (Inr (contents s j), t)"
    using x i \<open>x = Some i\<close> bytes by (simp add: read_file_def open_cli_input_file_def mbind_def mreturn_def del: map_map)
  with spec show ?thesis by blast
qed

lemma key_file_loads:
  assumes "no_faults s" and "fs_ok s" and "names s p = Some j" and "contents s j = key_file_bytes key" and "length key = 32"
  shows "\<exists>s'. key_from_file p s = (Inr key, s')"
proof -
  obtain s' where r: "read_file p s = (Inr (key_file_bytes key), s')" using read_file_returns [OF assms(1-3)] assms(4) by auto
  have "text_of_bytes (key_file_bytes key) = hex_encode_loop key @ [nl]"
    by (simp add: text_of_bytes_def key_file_bytes_def bytes_from_text_def comp_def)
  moreover have "trim_ascii_whitespace (hex_encode_loop key @ [nl]) = hex_encode_loop key"
    using assms(5) hex_digits_plain by (intro trim_line) auto
  ultimately show ?thesis
    using r key_from_hex_encoded [OF assms(5)] by (simp add: key_from_file_def mbind_def mlift_def)
qed

lemma generate_key_returns:
  assumes "\<forall>n o1. fst (fst (RAND_priv_bytes ssl n o1)) = 1"
  shows "\<exists>key c'. api_generate_key ssl c = (Inr key, c')"
proof -
  obtain bs o' where priv: "RAND_priv_bytes ssl 32 (provider c) = ((1, bs), o')"
    using assms by (metis prod.exhaust_sel)
  then have call: "on_provider ((if True then RAND_priv_bytes else RAND_bytes) ssl (min 32 int_max)) c =
      (Inr (1, bs) :: (int \<times> bytes) result, c\<lparr>provider := o'\<rparr>)"
    by (simp add: on_provider_def int_max_def)
  have "fill_random ssl True (32 - min 32 int_max) t = (Inr [], t)" for t
    by (simp add: int_max_def fill_random.simps [of ssl True 0])
  with fill_random_step [OF _ call] show ?thesis by (simp add: api_generate_key_def generate_key_def)
qed

text \<open>
  C23: \<open>keygen\<close> writes a key that the tool reads back. With a working system and a free output name it returns, and the
  file it leaves loads as the very key that was generated.
\<close>

theorem keygen_key_loads:
  assumes "gcm_healthy ssl view alg" and "\<forall>n o1. fst (fst (RAND_priv_bytes ssl n o1)) = 1"
    and "fs_ok (disk s)" and "output_ready p (disk s)"
  shows "\<exists>key c s1 d. api_generate_key ssl (rt s) = (Inr key, c) \<and> write_generated_key ssl p s = (Inr (), s1) \<and>
    key_from_file p (disk s1) = (Inr key, d) \<and> length key = 32"
proof -
  obtain key c where k: "api_generate_key ssl (rt s) = (Inr key, c)"
    using generate_key_returns [OF assms(2)] by blast
  have len: "length key = 32" using generate_key_length [OF k] .
  obtain r s1 where w: "write_key_file ssl p key (s\<lparr>rt := c\<rparr>) = (r, s1)" by (metis surj_pair)
  have r: "r = Inr ()" using write_key_file_spec(2) [OF w len assms(1)] assms(4) by simp
  have gen: "write_generated_key ssl p s = (Inr (), s1)"
    using k w r by (simp add: write_generated_key_def mbind_def rt_action_def mzoom_def)
  have out: "output_outcome p (key_file_bytes key) (Inr ()) (disk s) (disk s1)"
    using write_key_file_spec(1) [OF w len] r by simp
  then obtain i where i: "names (disk s1) p = Some i" "contents (disk s1) i = key_file_bytes key"
    and keeps: "keeps_files (disk s) (disk s1)" by (auto simp: output_outcome_def)
  have "no_faults (disk s1)" "fs_ok (disk s1)"
    using keeps assms(3,4) by (auto simp: keeps_files_def output_ready_def no_faults_def)
  from key_file_loads [OF this i len] k gen len show ?thesis by blast
qed

lemma toy_output_ready: "output_ready ''out'' (disk (toy_system data))"
  using toy_system_ready(1,4,5) [of data] by (simp add: output_ready_def disk_ready_def)

lemma keygen_key_loads_witness:
  "\<exists>key s1 d. write_generated_key toy_ssl ''out'' (toy_system []) = (Inr (), s1) \<and>
    key_from_file ''out'' (disk s1) = (Inr key, d) \<and> length key = 32"
proof -
  have "\<forall>n o1. fst (fst (RAND_priv_bytes toy_ssl n o1)) = 1" by (simp add: toy_ssl_def toy_random_def)
  from keygen_key_loads [OF toy_healthy this toy_system_ready(3) toy_output_ready, of "[]"] show ?thesis by blast
qed

end
