(* ===== verification/Cli_Parse.thy ===== *)
theory Cli_Parse
  imports Cli_Properties
begin

section \<open>Accepted arguments\<close>

text \<open>
  What an accepted command line looks like. The six parsers share a contract, the locale \<open>option_parser\<close>: an option
  is of a kind, a pair is taken only when its kind is still free, and a pair that is taken sets the
  members of its kind and no others. From this follows what the loop over the pairs accepts.
\<close>

datatype option_kind = Input | Out | Key | Wrapping_key | Packet | Password | Aad

fun kind_of :: "string \<Rightarrow> option_kind option" where
  "kind_of opt =
     (if opt = ''--in'' \<or> opt = ''--text'' then Some Input
      else if opt = ''--out'' then Some Out
      else if opt = ''--key-hex'' \<or> opt = ''--key-file'' then Some Key
      else if opt = ''--wrapping-key-hex'' \<or> opt = ''--wrapping-key-file'' then Some Wrapping_key
      else if opt = ''--packet-hex'' \<or> opt = ''--packet-file'' then Some Packet
      else if opt = ''--password-file'' then Some Password
      else if opt = ''--aad-text'' \<or> opt = ''--aad-hex'' then Some Aad
      else None)"

fun option_pairs :: "string list \<Rightarrow> (string \<times> string) list" where
  "option_pairs (opt # v # rest) = (opt, v) # option_pairs rest"
| "option_pairs _ = []"

lemma kind_of_literals:
  "kind_of ''--in'' = Some Input" "kind_of ''--text'' = Some Input" "kind_of ''--out'' = Some Out"
  "kind_of ''--key-hex'' = Some Key" "kind_of ''--key-file'' = Some Key"
  "kind_of ''--wrapping-key-hex'' = Some Wrapping_key" "kind_of ''--wrapping-key-file'' = Some Wrapping_key"
  "kind_of ''--packet-hex'' = Some Packet" "kind_of ''--packet-file'' = Some Packet"
  "kind_of ''--password-file'' = Some Password" "kind_of ''--aad-text'' = Some Aad" "kind_of ''--aad-hex'' = Some Aad"
  by simp_all

declare kind_of.simps [simp del] kind_of_literals [simp]

text \<open>How many options of a kind there are.\<close>

definition given :: "option_kind \<Rightarrow> string list \<Rightarrow> nat" where
  "given c args = length (filter (\<lambda>(opt, v). kind_of opt = Some c) (option_pairs args))"

lemma given_simps [simp]: "given c [] = 0"
  "given c (opt # v # rest) = (if kind_of opt = Some c then 1 else 0) + given c rest"
  by (simp_all add: given_def)

text \<open>Only supported options, the required kinds once, the optional ones at most once.\<close>

definition well_formed :: "string list \<Rightarrow> option_kind list \<Rightarrow> option_kind list \<Rightarrow> string list \<Rightarrow> bool" where
  "well_formed supported required optional args \<longleftrightarrow> even (length args) \<and>
     list_all (\<lambda>(opt, v). opt \<in> set supported) (option_pairs args) \<and>
     list_all (\<lambda>c. given c args = 1) required \<and> list_all (\<lambda>c. given c args \<le> 1) optional"

locale option_parser =
  fixes step :: "string \<Rightarrow> string \<Rightarrow> 'opts \<Rightarrow> (file_system, exn, 'opts) action"
    and start :: 'opts
    and supported :: "string list"
    and has :: "option_kind \<Rightarrow> 'opts \<Rightarrow> bool"
    and stored :: "option_kind \<Rightarrow> string \<Rightarrow> string \<Rightarrow> 'opts \<Rightarrow> bool"
    and default :: "option_kind \<Rightarrow> 'opts \<Rightarrow> bool"
  assumes start_has: "\<not> has c start"
    and start_default: "default c start"
    and step_free: "step opt v opts d = (Inr opts', d') \<Longrightarrow>
      opt \<in> set supported \<and> (\<exists>c. kind_of opt = Some c \<and> \<not> has c opts \<and> has c opts' \<and> stored c opt v opts')"
    and step_others: "step opt v opts d = (Inr opts', d') \<Longrightarrow> kind_of opt \<noteq> Some c \<Longrightarrow>
      has c opts' = has c opts \<and> (default c opts \<longrightarrow> default c opts') \<and> (stored c opt' v' opts \<longrightarrow> stored c opt' v' opts')"
begin

lemma pairs_accepted:
  assumes "parse_pairs step args opts d = (Inr opts', d')"
  shows "even (length args) \<and> (\<forall>(opt, v) \<in> set (option_pairs args). opt \<in> set supported \<and> (\<exists>c. kind_of opt = Some c \<and> stored c opt v opts')) \<and>
    (\<forall>c. given c args + (if has c opts then 1 else 0) = (if has c opts' then 1 else 0) \<and>
      (given c args = 0 \<longrightarrow> default c opts \<longrightarrow> default c opts')) \<and>
    (\<forall>c opt v. has c opts \<longrightarrow> stored c opt v opts \<longrightarrow> stored c opt v opts')"
  using assms
proof (induction args arbitrary: opts d rule: option_pairs.induct)
  case (1 opt v rest)
  from "1.prems" obtain opts1 d1 where step: "step opt v opts d = (Inr opts1, d1)"
    and rest: "parse_pairs step rest opts1 d1 = (Inr opts', d')"
    by (auto simp: mbind_Inr_iff)
  from step_free [OF step] obtain c where c: "opt \<in> set supported" "kind_of opt = Some c" "\<not> has c opts" "has c opts1"
    "stored c opt v opts1" by blast
  note IH = "1.IH" [OF rest]
  have others: "has c' opts1 = has c' opts \<and> (default c' opts \<longrightarrow> default c' opts1) \<and>
      (stored c' opt' v' opts \<longrightarrow> stored c' opt' v' opts1)" if "c' \<noteq> c" for c' opt' v'
    using step_others [OF step] c(2) that by simp
  have "stored c opt v opts'" using IH c by blast
  moreover have "given c' (opt # v # rest) + (if has c' opts then 1 else 0) = (if has c' opts' then 1 else 0) \<and>
      (given c' (opt # v # rest) = 0 \<longrightarrow> default c' opts \<longrightarrow> default c' opts')" for c'
  proof (cases "c' = c")
    case True
    with IH [THEN conjunct2, THEN conjunct2, THEN conjunct1, rule_format, of c] c show ?thesis
      by simp
  next
    case False
    with IH [THEN conjunct2, THEN conjunct2, THEN conjunct1, rule_format, of c'] c(2) others [OF False] show ?thesis
      by auto
  qed
  moreover have "stored c2 opt2 v2 opts'" if "has c2 opts" "stored c2 opt2 v2 opts" for opt2 v2 c2
  proof -
    have "c2 \<noteq> c" using that c by auto
    from others [OF this] that have "has c2 opts1" "stored c2 opt2 v2 opts1" by simp_all
    with IH show ?thesis by blast
  qed
  ultimately show ?case using IH c(1,2) by simp
qed (simp_all add: mreturn_def mthrow_def)

lemma accepted:
  assumes "parse_pairs step args start d = (Inr opts, d')"
  shows "list_all (\<lambda>c. has c opts) required \<Longrightarrow> well_formed supported required optional args"
    and "list_all (\<lambda>(opt, v). \<exists>c. kind_of opt = Some c \<and> stored c opt v opts) (option_pairs args)"
    and "given c args = 0 \<Longrightarrow> default c opts"
    and "\<not> has c opts \<Longrightarrow> default c opts"
  using pairs_accepted [OF assms] start_has start_default by (auto simp: well_formed_def list_all_iff)

lemma accepted_value:
  assumes "parse_pairs step args start d = (Inr opts, d')" and "has c opts"
  shows "\<exists>opt v. (opt, v) \<in> set (option_pairs args) \<and> kind_of opt = Some c \<and> stored c opt v opts"
proof -
  have "given c args = 1" using pairs_accepted [OF assms(1)] start_has assms(2) by auto
  then have "filter (\<lambda>(opt, v). kind_of opt = Some c) (option_pairs args) \<noteq> []" by (auto simp: given_def)
  then obtain opt v where "(opt, v) \<in> set (option_pairs args)" "kind_of opt = Some c"
    by (auto simp: filter_empty_conv)
  with accepted(2) [OF assms(1)] show ?thesis by (force simp: list_all_iff)
qed

end

subsection \<open>Values\<close>

text \<open>What an option and its value say of a member that a parser sets.\<close>

definition yields :: "(file_system, exn, 'a) action \<Rightarrow> 'a \<Rightarrow> bool" where
  "yields m x \<longleftrightarrow> (\<exists>d d'. m d = (Inr x, d'))"

lemma yieldsI: "m d = (Inr x, d') \<Longrightarrow> yields m x"
  unfolding yields_def by blast

definition key_value :: "string \<Rightarrow> string \<Rightarrow> bytes \<Rightarrow> bool" where
  "key_value opt v key \<longleftrightarrow> (opt = ''--key-hex'' \<longrightarrow> key_from_hex v = Inr key) \<and>
     (opt = ''--key-file'' \<longrightarrow> yields (key_from_file v) key)"

definition wrapping_key_value :: "string \<Rightarrow> string \<Rightarrow> bytes \<Rightarrow> bool" where
  "wrapping_key_value opt v key \<longleftrightarrow> (opt = ''--wrapping-key-hex'' \<longrightarrow> key_from_hex v = Inr key) \<and>
     (opt = ''--wrapping-key-file'' \<longrightarrow> yields (key_from_file v) key)"

definition packet_value :: "string \<Rightarrow> string \<Rightarrow> bytes \<Rightarrow> bool" where
  "packet_value opt v packet \<longleftrightarrow> (opt = ''--packet-hex'' \<longrightarrow> hex_decode v = Inr packet) \<and>
     (opt = ''--packet-file'' \<longrightarrow> yields (read_file v) packet)"

definition plaintext_value :: "string \<Rightarrow> string \<Rightarrow> bytes \<Rightarrow> bool" where
  "plaintext_value opt v plaintext \<longleftrightarrow> (opt = ''--text'' \<longrightarrow> plaintext = bytes_from_text v) \<and>
     (opt = ''--in'' \<longrightarrow> yields (read_file v) plaintext)"

definition aad_value :: "string \<Rightarrow> string \<Rightarrow> bytes \<Rightarrow> bool" where
  "aad_value opt v aad \<longleftrightarrow> (opt = ''--aad-text'' \<longrightarrow> aad = bytes_from_text v) \<and>
     (opt = ''--aad-hex'' \<longrightarrow> hex_decode v = Inr aad)"

lemma pure_Inr_iff:
  "mreturn y s = (Inr x, t) \<longleftrightarrow> x = y \<and> t = s" "mthrow e s = (Inr x, t) \<longleftrightarrow> False"
  "mlift r s = (Inr x, t) \<longleftrightarrow> r = Inr x \<and> t = s"
  by (auto simp: mreturn_def mthrow_def mlift_def)

lemma rejects_Inr_iff:
  "reject_duplicate b opt s = (Inr x, t) \<longleftrightarrow> \<not> b \<and> t = s" "conflicting b message s = (Inr x, t) \<longleftrightarrow> \<not> b \<and> t = s"
  by (auto simp: reject_duplicate_def conflicting_def pure_Inr_iff)

lemmas parsing = mbind_Inr_iff pure_Inr_iff rejects_Inr_iff

lemmas option_values = key_value_def wrapping_key_value_def packet_value_def aad_value_def plaintext_value_def
  key_from_option_def
  wrapping_key_from_option_def aad_from_option_def

lemma key_kinds:
  "kind_of opt = Some Key \<longleftrightarrow> opt = ''--key-hex'' \<or> opt = ''--key-file''"
  "kind_of opt = Some Wrapping_key \<longleftrightarrow> opt = ''--wrapping-key-hex'' \<or> opt = ''--wrapping-key-file''"
  by (auto simp: kind_of.simps)

lemma out_kind: "kind_of opt = Some Out \<longleftrightarrow> opt = ''--out''"
  by (auto simp: kind_of.simps)

lemma key_from_file_length: "yields (key_from_file p) key \<Longrightarrow> length key = 32"
  using key_from_hex_length by (auto simp: yields_def key_from_file_def parsing)

lemma key_value_length: "kind_of opt = Some Key \<Longrightarrow> key_value opt v key \<Longrightarrow> length key = 32"
  "kind_of opt = Some Wrapping_key \<Longrightarrow> wrapping_key_value opt v key \<Longrightarrow> length key = 32"
  using key_from_hex_length key_from_file_length by (auto simp: key_kinds key_value_def wrapping_key_value_def)

subsection \<open>Sealed files\<close>

fun file_has :: "option_kind \<Rightarrow> file_command_options \<Rightarrow> bool" where
  "file_has Input = fc_has_input"
| "file_has Out = fc_has_output"
| "file_has Key = fc_has_key"
| "file_has Aad = fc_has_aad"
| "file_has _ = (\<lambda>_. False)"

fun file_stored :: "option_kind \<Rightarrow> string \<Rightarrow> string \<Rightarrow> file_command_options \<Rightarrow> bool" where
  "file_stored Input opt v opts = (fc_input opts = v \<and> fc_input_is_stdin opts = (v = ''-''))"
| "file_stored Out opt v opts = (fc_output opts = v \<and> fc_output_is_stdout opts = (v = ''-''))"
| "file_stored Key opt v opts = (key_value opt v (fc_key opts))"
| "file_stored Aad opt v opts = (aad_value opt v (fc_aad opts))"
| "file_stored _ opt v opts = False"

fun file_default :: "option_kind \<Rightarrow> file_command_options \<Rightarrow> bool" where
  "file_default Out opts = (fc_output opts = [] \<and> \<not> fc_output_is_stdout opts)"
| "file_default Aad opts = (fc_aad opts = [])"
| "file_default _ opts = True"

definition file_supported :: "bool \<Rightarrow> string list" where
  "file_supported r = (if r then [''--out''] else []) @ [''--in'', ''--key-hex'', ''--key-file'', ''--aad-text'', ''--aad-hex'']"

lemmas file_members = file_command_option_def no_file_command_options_def file_supported_def option_values
  is_standard_stream_marker_def

lemma file_effect:
  "file_command_option r opt v opts d = (Inr opts', d') \<Longrightarrow>
    kind_of opt = Some Input \<and> opts' = opts\<lparr>fc_input := fc_input opts', fc_input_is_stdin := fc_input_is_stdin opts', fc_has_input := fc_has_input opts'\<rparr> \<or>
    kind_of opt = Some Out \<and> opts' = opts\<lparr>fc_output := fc_output opts', fc_output_is_stdout := fc_output_is_stdout opts', fc_has_output := fc_has_output opts'\<rparr> \<or>
    kind_of opt = Some Key \<and> opts' = opts\<lparr>fc_key := fc_key opts', fc_has_key := fc_has_key opts'\<rparr> \<or>
    kind_of opt = Some Aad \<and> opts' = opts\<lparr>fc_aad := fc_aad opts', fc_has_aad := fc_has_aad opts'\<rparr>"
  by (clarsimp simp: file_command_option_def parsing split: if_splits; elim disjE; simp)

lemma file_taken:
  "file_command_option r opt v opts d = (Inr opts', d') \<Longrightarrow>
    kind_of opt = Some Input \<and> (\<exists>x y z. opts' = opts\<lparr>fc_input := x, fc_input_is_stdin := y, fc_has_input := z\<rparr>) \<or>
    kind_of opt = Some Out \<and> (\<exists>x y z. opts' = opts\<lparr>fc_output := x, fc_output_is_stdout := y, fc_has_output := z\<rparr>) \<or>
    kind_of opt = Some Key \<and> (\<exists>x y. opts' = opts\<lparr>fc_key := x, fc_has_key := y\<rparr>) \<or>
    kind_of opt = Some Aad \<and> (\<exists>x y. opts' = opts\<lparr>fc_aad := x, fc_has_aad := y\<rparr>)"
  by (drule file_effect) blast

interpretation files: option_parser "file_command_option r" no_file_command_options "file_supported
  r" file_has file_stored file_default for r
proof
  fix c opt v opts d opts' d' opt' v'
  show "\<not> file_has c no_file_command_options" "file_default c no_file_command_options"
    by (cases c; simp add: no_file_command_options_def)+
  assume step: "file_command_option r opt v opts d = (Inr opts', d')"
  then show "opt \<in> set (file_supported r) \<and>
      (\<exists>c. kind_of opt = Some c \<and> \<not> file_has c opts \<and> file_has c opts' \<and> file_stored c opt v opts')"
    by (auto simp: file_members parsing split: if_splits intro: yieldsI)
  show "file_has c opts' = file_has c opts \<and> (file_default c opts \<longrightarrow> file_default c opts') \<and>
      (file_stored c opt' v' opts \<longrightarrow> file_stored c opt' v' opts')" if "kind_of opt \<noteq> Some c"
    using file_taken [OF step] that by (cases c) auto
qed

subsection \<open>Sealed files with a password\<close>

fun password_file_has :: "option_kind \<Rightarrow> password_file_command_options \<Rightarrow> bool" where
  "password_file_has Input = pc_has_input"
| "password_file_has Out = pc_has_output"
| "password_file_has Password = pc_has_password"
| "password_file_has Aad = pc_has_aad"
| "password_file_has _ = (\<lambda>_. False)"

fun password_file_stored :: "option_kind \<Rightarrow> string \<Rightarrow> string \<Rightarrow> password_file_command_options \<Rightarrow> bool" where
  "password_file_stored Input opt v opts = (pc_input opts = v \<and> pc_input_is_stdin opts = (v = ''-''))"
| "password_file_stored Out opt v opts = (pc_output opts = v \<and> pc_output_is_stdout opts = (v = ''-''))"
| "password_file_stored Password opt v opts = (yields (password_from_file v) (pc_password opts))"
| "password_file_stored Aad opt v opts = (aad_value opt v (pc_aad opts))"
| "password_file_stored _ opt v opts = False"

fun password_file_default :: "option_kind \<Rightarrow> password_file_command_options \<Rightarrow> bool" where
  "password_file_default Out opts = (pc_output opts = [] \<and> \<not> pc_output_is_stdout opts)"
| "password_file_default Aad opts = (pc_aad opts = [])"
| "password_file_default _ opts = True"

definition password_file_supported :: "bool \<Rightarrow> string list" where
  "password_file_supported r = (if r then [''--out''] else []) @ [''--in'', ''--password-file'', ''--aad-text'', ''--aad-hex'']"

lemmas password_file_members = password_file_command_option_def no_password_file_command_options_def
  password_file_supported_def option_values is_standard_stream_marker_def

lemma password_file_effect:
  "password_file_command_option r opt v opts d = (Inr opts', d') \<Longrightarrow>
    kind_of opt = Some Input \<and> opts' = opts\<lparr>pc_input := pc_input opts', pc_input_is_stdin := pc_input_is_stdin opts', pc_has_input := pc_has_input opts'\<rparr> \<or>
    kind_of opt = Some Out \<and> opts' = opts\<lparr>pc_output := pc_output opts', pc_output_is_stdout := pc_output_is_stdout opts', pc_has_output := pc_has_output opts'\<rparr> \<or>
    kind_of opt = Some Password \<and> opts' = opts\<lparr>pc_password := pc_password opts', pc_has_password := pc_has_password opts'\<rparr> \<or>
    kind_of opt = Some Aad \<and> opts' = opts\<lparr>pc_aad := pc_aad opts', pc_has_aad := pc_has_aad opts'\<rparr>"
  by (clarsimp simp: password_file_command_option_def parsing split: if_splits; elim disjE; simp)

lemma password_file_taken:
  "password_file_command_option r opt v opts d = (Inr opts', d') \<Longrightarrow>
    kind_of opt = Some Input \<and> (\<exists>x y z. opts' = opts\<lparr>pc_input := x, pc_input_is_stdin := y, pc_has_input := z\<rparr>) \<or>
    kind_of opt = Some Out \<and> (\<exists>x y z. opts' = opts\<lparr>pc_output := x, pc_output_is_stdout := y, pc_has_output := z\<rparr>) \<or>
    kind_of opt = Some Password \<and> (\<exists>x y. opts' = opts\<lparr>pc_password := x, pc_has_password := y\<rparr>) \<or>
    kind_of opt = Some Aad \<and> (\<exists>x y. opts' = opts\<lparr>pc_aad := x, pc_has_aad := y\<rparr>)"
  by (drule password_file_effect) blast

interpretation password_files: option_parser "password_file_command_option r"
  no_password_file_command_options "password_file_supported r" password_file_has password_file_stored password_file_default for r
proof
  fix c opt v opts d opts' d' opt' v'
  show "\<not> password_file_has c no_password_file_command_options" "password_file_default c no_password_file_command_options"
    by (cases c; simp add: no_password_file_command_options_def)+
  assume step: "password_file_command_option r opt v opts d = (Inr opts', d')"
  then show "opt \<in> set (password_file_supported r) \<and>
      (\<exists>c. kind_of opt = Some c \<and> \<not> password_file_has c opts \<and> password_file_has c opts' \<and> password_file_stored c opt v opts')"
    by (auto simp: password_file_members parsing split: if_splits intro: yieldsI)
  show "password_file_has c opts' = password_file_has c opts \<and> (password_file_default c opts \<longrightarrow> password_file_default c opts') \<and>
      (password_file_stored c opt' v' opts \<longrightarrow> password_file_stored c opt' v' opts')" if "kind_of opt \<noteq> Some c"
    using password_file_taken [OF step] that by (cases c) auto
qed

subsection \<open>Wrapped keys\<close>

fun wrap_has :: "option_kind \<Rightarrow> wrap_key_options \<Rightarrow> bool" where
  "wrap_has Out = wk_has_output"
| "wrap_has Key = wk_has_key"
| "wrap_has Wrapping_key = wk_has_wrapping_key"
| "wrap_has _ = (\<lambda>_. False)"

fun wrap_stored :: "option_kind \<Rightarrow> string \<Rightarrow> string \<Rightarrow> wrap_key_options \<Rightarrow> bool" where
  "wrap_stored Out opt v opts = (wk_output opts = v)"
| "wrap_stored Key opt v opts = (key_value opt v (wk_key opts))"
| "wrap_stored Wrapping_key opt v opts = (wrapping_key_value opt v (wk_wrapping_key opts))"
| "wrap_stored _ opt v opts = False"

fun wrap_default :: "option_kind \<Rightarrow> wrap_key_options \<Rightarrow> bool" where
  "wrap_default Out opts = (wk_output opts = [])"
| "wrap_default _ opts = True"

definition wrap_supported :: "string list" where
  "wrap_supported = [''--key-hex'', ''--key-file'', ''--wrapping-key-hex'', ''--wrapping-key-file'', ''--out'']"

lemmas wrap_members = wrap_key_option_def no_wrap_key_options_def wrap_supported_def option_values
  is_standard_stream_marker_def

lemma wrap_effect:
  "wrap_key_option opt v opts d = (Inr opts', d') \<Longrightarrow>
    kind_of opt = Some Out \<and> opts' = opts\<lparr>wk_output := wk_output opts', wk_has_output := wk_has_output opts'\<rparr> \<or>
    kind_of opt = Some Key \<and> opts' = opts\<lparr>wk_key := wk_key opts', wk_has_key := wk_has_key opts'\<rparr> \<or>
    kind_of opt = Some Wrapping_key \<and> opts' = opts\<lparr>wk_wrapping_key := wk_wrapping_key opts', wk_has_wrapping_key := wk_has_wrapping_key opts'\<rparr>"
  by (clarsimp simp: wrap_key_option_def parsing split: if_splits; elim disjE; simp)

lemma wrap_taken:
  "wrap_key_option opt v opts d = (Inr opts', d') \<Longrightarrow>
    kind_of opt = Some Out \<and> (\<exists>x y. opts' = opts\<lparr>wk_output := x, wk_has_output := y\<rparr>) \<or>
    kind_of opt = Some Key \<and> (\<exists>x y. opts' = opts\<lparr>wk_key := x, wk_has_key := y\<rparr>) \<or>
    kind_of opt = Some Wrapping_key \<and> (\<exists>x y. opts' = opts\<lparr>wk_wrapping_key := x, wk_has_wrapping_key := y\<rparr>)"
  by (drule wrap_effect) blast

interpretation wraps: option_parser wrap_key_option no_wrap_key_options wrap_supported wrap_has
  wrap_stored wrap_default
proof
  fix c opt v opts d opts' d' opt' v'
  show "\<not> wrap_has c no_wrap_key_options" "wrap_default c no_wrap_key_options"
    by (cases c; simp add: no_wrap_key_options_def)+
  assume step: "wrap_key_option opt v opts d = (Inr opts', d')"
  then show "opt \<in> set (wrap_supported) \<and>
      (\<exists>c. kind_of opt = Some c \<and> \<not> wrap_has c opts \<and> wrap_has c opts' \<and> wrap_stored c opt v opts')"
    by (auto simp: wrap_members parsing split: if_splits intro: yieldsI)
  show "wrap_has c opts' = wrap_has c opts \<and> (wrap_default c opts \<longrightarrow> wrap_default c opts') \<and>
      (wrap_stored c opt' v' opts \<longrightarrow> wrap_stored c opt' v' opts')" if "kind_of opt \<noteq> Some c"
    using wrap_taken [OF step] that by (cases c) auto
qed

subsection \<open>Wrapped keys, opened\<close>

fun unwrap_has :: "option_kind \<Rightarrow> unwrap_key_options \<Rightarrow> bool" where
  "unwrap_has Out = uk_has_output"
| "unwrap_has Packet = uk_has_packet"
| "unwrap_has Wrapping_key = uk_has_wrapping_key"
| "unwrap_has _ = (\<lambda>_. False)"

fun unwrap_stored :: "option_kind \<Rightarrow> string \<Rightarrow> string \<Rightarrow> unwrap_key_options \<Rightarrow> bool" where
  "unwrap_stored Out opt v opts = (uk_output opts = v)"
| "unwrap_stored Packet opt v opts = (packet_value opt v (uk_packet opts))"
| "unwrap_stored Wrapping_key opt v opts = (wrapping_key_value opt v (uk_wrapping_key opts))"
| "unwrap_stored _ opt v opts = False"

fun unwrap_default :: "option_kind \<Rightarrow> unwrap_key_options \<Rightarrow> bool" where
  "unwrap_default Out opts = (uk_output opts = [])"
| "unwrap_default _ opts = True"

definition unwrap_supported :: "string list" where
  "unwrap_supported = [''--packet-hex'', ''--packet-file'', ''--wrapping-key-hex'', ''--wrapping-key-file'', ''--out'']"

lemmas unwrap_members = unwrap_key_option_def no_unwrap_key_options_def unwrap_supported_def option_values
  is_standard_stream_marker_def

lemma unwrap_effect:
  "unwrap_key_option opt v opts d = (Inr opts', d') \<Longrightarrow>
    kind_of opt = Some Out \<and> opts' = opts\<lparr>uk_output := uk_output opts', uk_has_output := uk_has_output opts'\<rparr> \<or>
    kind_of opt = Some Packet \<and> opts' = opts\<lparr>uk_packet := uk_packet opts', uk_has_packet := uk_has_packet opts'\<rparr> \<or>
    kind_of opt = Some Wrapping_key \<and> opts' = opts\<lparr>uk_wrapping_key := uk_wrapping_key opts', uk_has_wrapping_key := uk_has_wrapping_key opts'\<rparr>"
  by (clarsimp simp: unwrap_key_option_def parsing split: if_splits; elim disjE; simp)

lemma unwrap_taken:
  "unwrap_key_option opt v opts d = (Inr opts', d') \<Longrightarrow>
    kind_of opt = Some Out \<and> (\<exists>x y. opts' = opts\<lparr>uk_output := x, uk_has_output := y\<rparr>) \<or>
    kind_of opt = Some Packet \<and> (\<exists>x y. opts' = opts\<lparr>uk_packet := x, uk_has_packet := y\<rparr>) \<or>
    kind_of opt = Some Wrapping_key \<and> (\<exists>x y. opts' = opts\<lparr>uk_wrapping_key := x, uk_has_wrapping_key := y\<rparr>)"
  by (drule unwrap_effect) blast

interpretation unwraps: option_parser unwrap_key_option no_unwrap_key_options unwrap_supported
  unwrap_has unwrap_stored unwrap_default
proof
  fix c opt v opts d opts' d' opt' v'
  show "\<not> unwrap_has c no_unwrap_key_options" "unwrap_default c no_unwrap_key_options"
    by (cases c; simp add: no_unwrap_key_options_def)+
  assume step: "unwrap_key_option opt v opts d = (Inr opts', d')"
  then show "opt \<in> set (unwrap_supported) \<and>
      (\<exists>c. kind_of opt = Some c \<and> \<not> unwrap_has c opts \<and> unwrap_has c opts' \<and> unwrap_stored c opt v opts')"
    by (auto simp: unwrap_members parsing split: if_splits intro: yieldsI)
  show "unwrap_has c opts' = unwrap_has c opts \<and> (unwrap_default c opts \<longrightarrow> unwrap_default c opts') \<and>
      (unwrap_stored c opt' v' opts \<longrightarrow> unwrap_stored c opt' v' opts')" if "kind_of opt \<noteq> Some c"
    using unwrap_taken [OF step] that by (cases c) auto
qed

subsection \<open>Packets\<close>

fun encrypt_has :: "option_kind \<Rightarrow> encrypt_options \<Rightarrow> bool" where
  "encrypt_has Input = eo_has_plaintext"
| "encrypt_has Out = eo_has_output"
| "encrypt_has Key = eo_has_key"
| "encrypt_has Aad = eo_has_aad"
| "encrypt_has _ = (\<lambda>_. False)"

fun encrypt_stored :: "option_kind \<Rightarrow> string \<Rightarrow> string \<Rightarrow> encrypt_options \<Rightarrow> bool" where
  "encrypt_stored Input opt v opts = (plaintext_value opt v (eo_plaintext opts))"
| "encrypt_stored Out opt v opts = (eo_output opts = v)"
| "encrypt_stored Key opt v opts = (key_value opt v (eo_key opts))"
| "encrypt_stored Aad opt v opts = (aad_value opt v (eo_aad opts))"
| "encrypt_stored _ opt v opts = False"

fun encrypt_default :: "option_kind \<Rightarrow> encrypt_options \<Rightarrow> bool" where
  "encrypt_default Out opts = (eo_output opts = [])"
| "encrypt_default Aad opts = (eo_aad opts = [])"
| "encrypt_default _ opts = True"

definition encrypt_supported :: "string list" where
  "encrypt_supported = [''--text'', ''--in'', ''--key-hex'', ''--key-file'', ''--aad-text'', ''--aad-hex'', ''--out'']"

lemmas encrypt_members = encrypt_option_def no_encrypt_options_def encrypt_supported_def option_values
  is_standard_stream_marker_def

lemma encrypt_effect:
  "encrypt_option opt v opts d = (Inr opts', d') \<Longrightarrow>
    kind_of opt = Some Input \<and> opts' = opts\<lparr>eo_plaintext := eo_plaintext opts', eo_has_plaintext := eo_has_plaintext opts'\<rparr> \<or>
    kind_of opt = Some Out \<and> opts' = opts\<lparr>eo_output := eo_output opts', eo_has_output := eo_has_output opts'\<rparr> \<or>
    kind_of opt = Some Key \<and> opts' = opts\<lparr>eo_key := eo_key opts', eo_has_key := eo_has_key opts'\<rparr> \<or>
    kind_of opt = Some Aad \<and> opts' = opts\<lparr>eo_aad := eo_aad opts', eo_has_aad := eo_has_aad opts'\<rparr>"
  by (clarsimp simp: encrypt_option_def parsing split: if_splits; elim disjE; simp)

lemma encrypt_taken:
  "encrypt_option opt v opts d = (Inr opts', d') \<Longrightarrow>
    kind_of opt = Some Input \<and> (\<exists>x y. opts' = opts\<lparr>eo_plaintext := x, eo_has_plaintext := y\<rparr>) \<or>
    kind_of opt = Some Out \<and> (\<exists>x y. opts' = opts\<lparr>eo_output := x, eo_has_output := y\<rparr>) \<or>
    kind_of opt = Some Key \<and> (\<exists>x y. opts' = opts\<lparr>eo_key := x, eo_has_key := y\<rparr>) \<or>
    kind_of opt = Some Aad \<and> (\<exists>x y. opts' = opts\<lparr>eo_aad := x, eo_has_aad := y\<rparr>)"
  by (drule encrypt_effect) blast

interpretation encrypts: option_parser encrypt_option no_encrypt_options encrypt_supported
  encrypt_has encrypt_stored encrypt_default
proof
  fix c opt v opts d opts' d' opt' v'
  show "\<not> encrypt_has c no_encrypt_options" "encrypt_default c no_encrypt_options"
    by (cases c; simp add: no_encrypt_options_def)+
  assume step: "encrypt_option opt v opts d = (Inr opts', d')"
  then show "opt \<in> set (encrypt_supported) \<and>
      (\<exists>c. kind_of opt = Some c \<and> \<not> encrypt_has c opts \<and> encrypt_has c opts' \<and> encrypt_stored c opt v opts')"
    by (auto simp: encrypt_members parsing split: if_splits intro: yieldsI)
  show "encrypt_has c opts' = encrypt_has c opts \<and> (encrypt_default c opts \<longrightarrow> encrypt_default c opts') \<and>
      (encrypt_stored c opt' v' opts \<longrightarrow> encrypt_stored c opt' v' opts')" if "kind_of opt \<noteq> Some c"
    using encrypt_taken [OF step] that by (cases c) auto
qed

subsection \<open>Packets, opened\<close>

fun decrypt_has :: "option_kind \<Rightarrow> decrypt_options \<Rightarrow> bool" where
  "decrypt_has Packet = do_has_packet"
| "decrypt_has Out = do_has_output"
| "decrypt_has Key = do_has_key"
| "decrypt_has Aad = do_has_aad"
| "decrypt_has _ = (\<lambda>_. False)"

fun decrypt_stored :: "option_kind \<Rightarrow> string \<Rightarrow> string \<Rightarrow> decrypt_options \<Rightarrow> bool" where
  "decrypt_stored Packet opt v opts = (packet_value opt v (do_packet opts))"
| "decrypt_stored Out opt v opts = (do_output opts = v)"
| "decrypt_stored Key opt v opts = (key_value opt v (do_key opts))"
| "decrypt_stored Aad opt v opts = (aad_value opt v (do_aad opts))"
| "decrypt_stored _ opt v opts = False"

fun decrypt_default :: "option_kind \<Rightarrow> decrypt_options \<Rightarrow> bool" where
  "decrypt_default Out opts = (do_output opts = [])"
| "decrypt_default Aad opts = (do_aad opts = [])"
| "decrypt_default _ opts = True"

definition decrypt_supported :: "string list" where
  "decrypt_supported = [''--packet-hex'', ''--packet-file'', ''--key-hex'', ''--key-file'', ''--aad-text'', ''--aad-hex'', ''--out'']"

lemmas decrypt_members = decrypt_option_def no_decrypt_options_def decrypt_supported_def option_values
  is_standard_stream_marker_def

lemma decrypt_effect:
  "decrypt_option opt v opts d = (Inr opts', d') \<Longrightarrow>
    kind_of opt = Some Packet \<and> opts' = opts\<lparr>do_packet := do_packet opts', do_has_packet := do_has_packet opts'\<rparr> \<or>
    kind_of opt = Some Out \<and> opts' = opts\<lparr>do_output := do_output opts', do_has_output := do_has_output opts'\<rparr> \<or>
    kind_of opt = Some Key \<and> opts' = opts\<lparr>do_key := do_key opts', do_has_key := do_has_key opts'\<rparr> \<or>
    kind_of opt = Some Aad \<and> opts' = opts\<lparr>do_aad := do_aad opts', do_has_aad := do_has_aad opts'\<rparr>"
  by (clarsimp simp: decrypt_option_def parsing split: if_splits; elim disjE; simp)

lemma decrypt_taken:
  "decrypt_option opt v opts d = (Inr opts', d') \<Longrightarrow>
    kind_of opt = Some Packet \<and> (\<exists>x y. opts' = opts\<lparr>do_packet := x, do_has_packet := y\<rparr>) \<or>
    kind_of opt = Some Out \<and> (\<exists>x y. opts' = opts\<lparr>do_output := x, do_has_output := y\<rparr>) \<or>
    kind_of opt = Some Key \<and> (\<exists>x y. opts' = opts\<lparr>do_key := x, do_has_key := y\<rparr>) \<or>
    kind_of opt = Some Aad \<and> (\<exists>x y. opts' = opts\<lparr>do_aad := x, do_has_aad := y\<rparr>)"
  by (drule decrypt_effect) blast

interpretation decrypts: option_parser decrypt_option no_decrypt_options decrypt_supported
  decrypt_has decrypt_stored decrypt_default
proof
  fix c opt v opts d opts' d' opt' v'
  show "\<not> decrypt_has c no_decrypt_options" "decrypt_default c no_decrypt_options"
    by (cases c; simp add: no_decrypt_options_def)+
  assume step: "decrypt_option opt v opts d = (Inr opts', d')"
  then show "opt \<in> set (decrypt_supported) \<and>
      (\<exists>c. kind_of opt = Some c \<and> \<not> decrypt_has c opts \<and> decrypt_has c opts' \<and> decrypt_stored c opt v opts')"
    by (auto simp: decrypt_members parsing split: if_splits intro: yieldsI)
  show "decrypt_has c opts' = decrypt_has c opts \<and> (decrypt_default c opts \<longrightarrow> decrypt_default c opts') \<and>
      (decrypt_stored c opt' v' opts \<longrightarrow> decrypt_stored c opt' v' opts')" if "kind_of opt \<noteq> Some c"
    using decrypt_taken [OF step] that by (cases c) auto
qed

subsection \<open>Arguments of some runs\<close>

lemma parse_encrypt_example:
  assumes "key_from_hex k = Inr key"
  shows "parse_encrypt_options [prog, ''encrypt'', ''--text'', t, ''--key-hex'', k, ''--aad-text'', a, ''--out'', p] d =
    (Inr \<lparr>eo_plaintext = bytes_from_text t, eo_key = key, eo_aad = bytes_from_text a, eo_output = p,
       eo_has_plaintext = True, eo_has_key = True, eo_has_aad = True, eo_has_output = True\<rparr>, d)"
  using assms
  by (simp add: parse_encrypt_options_def encrypt_option_def conflicting_def reject_duplicate_def key_from_option_def
      aad_from_option_def no_encrypt_options_def mlift_Inr mreturn_def mbind_def)

lemma parse_decrypt_example:
  assumes "key_from_hex k = Inr key" and "read_file p d = (Inr packet, d')"
  shows "parse_decrypt_options [prog, ''decrypt'', ''--packet-file'', p, ''--key-hex'', k, ''--aad-text'', a] d =
    (Inr \<lparr>do_packet = packet, do_key = key, do_aad = bytes_from_text a, do_output = [],
       do_has_packet = True, do_has_key = True, do_has_aad = True, do_has_output = False\<rparr>, d')"
  using assms
  by (simp add: parse_decrypt_options_def decrypt_option_def conflicting_def key_from_option_def
      aad_from_option_def no_decrypt_options_def mlift_Inr mreturn_def mbind_def)

lemma parse_wrap_example:
  assumes "key_from_hex k = Inr key" and "key_from_hex w = Inr wrapping_key"
  shows "parse_wrap_key_options [prog, ''wrap-key'', ''--key-hex'', k, ''--wrapping-key-hex'', w] d =
    (Inr \<lparr>wk_key = key, wk_wrapping_key = wrapping_key, wk_output = [], wk_has_key = True, wk_has_wrapping_key = True,
       wk_has_output = False\<rparr>, d)"
  using assms
  by (simp add: parse_wrap_key_options_def wrap_key_option_def conflicting_def key_from_option_def
      wrapping_key_from_option_def no_wrap_key_options_def mlift_Inr mreturn_def mbind_def)

lemma parse_unwrap_example:
  assumes "key_from_hex w = Inr wrapping_key" and "hex_decode h = Inr packet"
  shows "parse_unwrap_key_options [prog, ''unwrap-key'', ''--packet-hex'', h, ''--wrapping-key-hex'', w] d =
    (Inr \<lparr>uk_packet = packet, uk_wrapping_key = wrapping_key, uk_output = [], uk_has_packet = True,
       uk_has_wrapping_key = True, uk_has_output = False\<rparr>, d)"
  using assms
  by (simp add: parse_unwrap_key_options_def unwrap_key_option_def conflicting_def
      wrapping_key_from_option_def no_unwrap_key_options_def mlift_Inr mreturn_def mbind_def)

lemma parse_file_example:
  assumes "key_from_hex k = Inr key" and "command \<noteq> ''verify-file''"
  shows "parse_file_command_options [prog, command, ''--in'', i, ''--out'', p, ''--key-hex'', k, ''--aad-text'', a] d =
    (Inr \<lparr>fc_input = i, fc_output = p, fc_key = key, fc_aad = bytes_from_text a, fc_has_input = True, fc_has_output = True,
       fc_has_key = True, fc_has_aad = True, fc_input_is_stdin = (i = ''-''), fc_output_is_stdout = (p = ''-'')\<rparr>, d)"
  using assms
  by (simp add: parse_file_command_options_def file_command_option_def conflicting_def reject_duplicate_def
      key_from_option_def aad_from_option_def no_file_command_options_def mlift_Inr mreturn_def mbind_def
      is_standard_stream_marker_def)

lemma parse_verify_example:
  assumes "key_from_hex k = Inr key"
  shows "parse_file_command_options [prog, ''verify-file'', ''--in'', i, ''--key-hex'', k, ''--aad-text'', a] d =
    (Inr \<lparr>fc_input = i, fc_output = [], fc_key = key, fc_aad = bytes_from_text a, fc_has_input = True, fc_has_output = False,
       fc_has_key = True, fc_has_aad = True, fc_input_is_stdin = (i = ''-''), fc_output_is_stdout = False\<rparr>, d)"
  using assms
  by (simp add: parse_file_command_options_def file_command_option_def conflicting_def reject_duplicate_def
      key_from_option_def aad_from_option_def no_file_command_options_def mlift_Inr mreturn_def mbind_def
      is_standard_stream_marker_def)

lemma parse_password_example:
  assumes "read_file f d = (Inr password, d')" and "password \<noteq> []"
  shows "parse_password_file_command_options [prog, ''verify-file-password'', ''--in'', i, ''--password-file'', f] d =
    (Inr \<lparr>pc_input = i, pc_output = [], pc_password = password, pc_aad = [], pc_has_input = True, pc_has_output = False,
       pc_has_password = True, pc_has_aad = False, pc_input_is_stdin = (i = ''-''), pc_output_is_stdout = False\<rparr>, d')"
  using assms
  by (simp add: parse_password_file_command_options_def password_file_command_option_def reject_duplicate_def
      password_from_file_def no_password_file_command_options_def mreturn_def mbind_def is_standard_stream_marker_def)

definition toy_key_hex :: string where
  "toy_key_hex = hex_encode_loop toy_key"

lemma toy_key_hex_read: "key_from_hex toy_key_hex = Inr toy_key"
  unfolding toy_key_hex_def by (rule key_from_hex_encoded) (simp add: toy_key_def)

subsection \<open>The parsers\<close>





end
