(* ===== verification/Cli_Roundtrips.thy ===== *)
theory Cli_Roundtrips
  imports Cli_Parse
begin

section \<open>Commands of the tool that belong together\<close>

text \<open>
  Runs of the tool from its arguments to its output: \<open>encrypt\<close> and \<open>decrypt\<close>, \<open>seal-file\<close> and \<open>open-file\<close> through standard
  streams, and \<open>verify-file\<close>.
\<close>

subsection \<open>Actions of the console\<close>

lemma con_disk_step: "m (disk (sys s)) = (r, d) \<Longrightarrow> con_disk m s = (r, s\<lparr>sys := (sys s)\<lparr>disk := d\<rparr>\<rparr>)"
  by (simp add: con_disk_def mzoom_def)

lemma con_rt_step: "m (rt (sys s)) = (r, c) \<Longrightarrow> con_rt m s = (r, s\<lparr>sys := (sys s)\<lparr>rt := c\<rparr>\<rparr>)"
  by (simp add: con_rt_def mzoom_def)

lemma con_system_step: "m (sys s) = (r, x) \<Longrightarrow> con_system m s = (r, s\<lparr>sys := x\<rparr>)"
  by (simp add: con_system_def mzoom_def)

lemma same_console [simp]: "s\<lparr>sys := (sys s)\<lparr>disk := disk (sys s)\<rparr>\<rparr> = (s :: 'o console)"
  by simp

lemma fold_write_reliable:
  "ostream_reliable out \<Longrightarrow> written (fold (\<lambda>b out. ostream_write [b] out) bs out) = written out @ bs \<and>
     ostream_reliable (fold (\<lambda>b out. ostream_write [b] out) bs out)"
  by (induction bs arbitrary: out) (auto simp: ostream_write_def ostream_reliable_def)

lemma write_bytes_reliable:
  assumes "ostream_reliable (cout s)"
  shows "\<exists>s'. write_bytes bs s = (Inr (), s') \<and> written (cout s') = written (cout s) @ bs @ [byte_of_char nl]"
  using fold_write_reliable [OF assms, of bs]
  by (auto simp: write_bytes_def mbind_def mmodify_def print_def ostream_write_def ostream_reliable_def bytes_from_text_def)

subsection \<open>encrypt and decrypt\<close>

lemma run_encrypt:
  "run ssl v [prog, ''encrypt'', o1, v1, o2, v2, o3, v3, o4, v4] s =
     (case encrypt_command ssl [prog, ''encrypt'', o1, v1, o2, v2, o3, v3, o4, v4] s of
        (Inl e, s') \<Rightarrow> if is_undefined e then (Inl e, s') else fail (what_of e) s'
      | (Inr code, s') \<Rightarrow> (Inr code, s'))"
  by (simp add: run_def run_command_def is_arg_def)

lemma run_decrypt:
  "run ssl v [prog, ''decrypt'', o1, v1, o2, v2, o3, v3] s =
     (case decrypt_command ssl [prog, ''decrypt'', o1, v1, o2, v2, o3, v3] s of
        (Inl e, s') \<Rightarrow> if is_undefined e then (Inl e, s') else fail (what_of e) s'
      | (Inr code, s') \<Rightarrow> (Inr code, s'))"
  by (simp add: run_def run_command_def is_arg_def)

text \<open>
  C11: \<open>decrypt\<close> undoes \<open>encrypt\<close> through the command line. With a working provider and file system and a free
  output, encrypting a text to a file and decrypting that file under the same key and associated data both exit
  with 0, and the second run prints the text and a newline.
\<close>

theorem cli_encrypt_decrypt_roundtrip:
  assumes "gcm_provider ssl view alg" and "gcm_healthy ssl view alg" and "key_from_hex k = Inr key"
    and "length t + 33 \<le> int_max" and "length a \<le> int_max"
    and "fs_ok (disk (sys s))" and "output_ready p (disk (sys s))" and "ostream_reliable (cout s)"
  shows "\<exists>s1 s2. run ssl v [prog, ''encrypt'', ''--text'', t, ''--key-hex'', k, ''--aad-text'', a, ''--out'', p] s = (Inr 0, s1) \<and>
    run ssl v [prog, ''decrypt'', ''--packet-file'', p, ''--key-hex'', k, ''--aad-text'', a] s1 = (Inr 0, s2) \<and>
    written (cout s2) = written (cout s) @ bytes_from_text t @ [byte_of_char nl]"
proof -
  have key: "length key = 32" using key_from_hex_length [OF assms(3)] .
  have szs: "length (bytes_from_text t) + 33 \<le> int_max" "length (bytes_from_text a) \<le> int_max"
    using assms(4,5) by (simp_all add: bytes_from_text_def)
  obtain packet c where enc: "encrypt ssl (bytes_from_text t) key (bytes_from_text a) (rt (sys s)) = (Inr packet, c)"
    and dec: "\<forall>t'. \<exists>t''. decrypt ssl packet key (bytes_from_text a) t' = (Inr (bytes_from_text t), t'')"
    using encrypt_then_decrypt [OF assms(1,2) key szs] by blast
  obtain r x where w: "write_binary_file ssl p packet ((sys s)\<lparr>rt := c\<rparr>) = (r, x)" by (metis surj_pair)
  have r: "r = Inr ()" using write_binary_file_spec(2) [OF w assms(2)] assms(7) by simp
  from write_binary_file_spec(1) [OF w] r obtain i where
    i: "names (disk x) p = Some i" "contents (disk x) i = packet" and keeps: "keeps_files (disk (sys s)) (disk x)"
    by (auto simp: output_outcome_def)
  let ?s1 = "s\<lparr>sys := x\<rparr>"
  have run1: "run ssl v [prog, ''encrypt'', ''--text'', t, ''--key-hex'', k, ''--aad-text'', a, ''--out'', p] s = (Inr 0, ?s1)"
    using enc w r
    by (simp add: run_encrypt encrypt_command_def mbind_def success_def mreturn_def
        con_disk_step [OF parse_encrypt_example [OF assms(3)]] con_rt_step con_system_step)
  have "no_faults (disk x)" "fs_ok (disk x)"
    using keeps assms(6,7) by (auto simp: keeps_files_def output_ready_def no_faults_def)
  from read_file_returns [OF this i(1)] i(2) obtain d where rd: "read_file p (disk (sys ?s1)) = (Inr packet, d)" by auto
  obtain c' where dec': "decrypt ssl packet key (bytes_from_text a) (rt x) = (Inr (bytes_from_text t), c')" using dec by blast
  let ?s2 = "s\<lparr>sys := x\<lparr>disk := d, rt := c'\<rparr>\<rparr>"
  have parse: "con_disk (parse_decrypt_options [prog, ''decrypt'', ''--packet-file'', p, ''--key-hex'', k, ''--aad-text'', a]) ?s1 =
      (Inr \<lparr>do_packet = packet, do_key = key, do_aad = bytes_from_text a, do_output = [], do_has_packet = True,
         do_has_key = True, do_has_aad = True, do_has_output = False\<rparr>, s\<lparr>sys := x\<lparr>disk := d\<rparr>\<rparr>)"
    unfolding con_disk_def mzoom_def using parse_decrypt_example [OF assms(3) rd] by simp
  obtain s2 where out: "write_bytes (bytes_from_text t) ?s2 = (Inr (), s2)"
    "written (cout s2) = written (cout s) @ bytes_from_text t @ [byte_of_char nl]"
    using write_bytes_reliable [of ?s2] assms(8) by auto
  have "run ssl v [prog, ''decrypt'', ''--packet-file'', p, ''--key-hex'', k, ''--aad-text'', a] ?s1 = (Inr 0, s2)"
    using dec' out(1)
    by (simp add: run_decrypt decrypt_command_def mbind_def success_def mreturn_def parse con_rt_step)
  with run1 out(2) show ?thesis by blast
qed

lemma cli_encrypt_decrypt_roundtrip_witness:
  "\<exists>s1 s2. run toy_ssl ''1'' [''p'', ''encrypt'', ''--text'', ''hi'', ''--key-hex'', toy_key_hex, ''--aad-text'', ''a'', ''--out'', ''out'']
      (toy_console [] []) = (Inr 0, s1) \<and>
    run toy_ssl ''1'' [''p'', ''decrypt'', ''--packet-file'', ''out'', ''--key-hex'', toy_key_hex, ''--aad-text'', ''a''] s1 = (Inr 0, s2) \<and>
    written (cout s2) = [104, 105, 10]"
proof -
  have "bytes_from_text ''hi'' @ [byte_of_char nl] = [104, 105, 10]"
    by (simp add: bytes_from_text_def byte_of_char_def nl_def)
  with cli_encrypt_decrypt_roundtrip [OF toy_provider toy_healthy toy_key_hex_read, where s = "toy_console [] []" and t = "''hi''"
      and a = "''a''" and p = "''out''" and v = "''1''" and prog = "''p''"] toy_output_ready [of "[]"] toy_file(4) [of "[]"]
  show ?thesis by (simp add: int_max_def)
qed

subsection \<open>Sealed files through standard streams\<close>

abbreviation seal_argv :: "string \<Rightarrow> string \<Rightarrow> path \<Rightarrow> path \<Rightarrow> string \<Rightarrow> string \<Rightarrow> string list" where
  "seal_argv prog command i p k a \<equiv> [prog, command, ''--in'', i, ''--out'', p, ''--key-hex'', k, ''--aad-text'', a]"

abbreviation verify_argv :: "string \<Rightarrow> path \<Rightarrow> string \<Rightarrow> string \<Rightarrow> string list" where
  "verify_argv prog i k a \<equiv> [prog, ''verify-file'', ''--in'', i, ''--key-hex'', k, ''--aad-text'', a]"

lemma run_file:
  "command = ''seal-file'' \<or> command = ''open-file'' \<Longrightarrow> run ssl v (seal_argv prog command i p k a) s =
     (case file_command ssl (seal_argv prog command i p k a) s of
        (Inl e, s') \<Rightarrow> if is_undefined e then (Inl e, s') else fail (what_of e) s'
      | (Inr code, s') \<Rightarrow> (Inr code, s'))"
  "run ssl v (verify_argv prog i k a) s =
     (case file_command ssl (verify_argv prog i k a) s of
        (Inl e, s') \<Rightarrow> if is_undefined e then (Inl e, s') else fail (what_of e) s'
      | (Inr code, s') \<Rightarrow> (Inr code, s'))"
  by (auto simp: run_def run_command_def is_arg_def)

lemma file_command_runs:
  assumes "key_from_hex k = Inr key"
  shows "file_command ssl (seal_argv prog ''seal-file'' ''-'' ''-'' k a) s =
      success (run_streaming_file_command ssl True True ''-'' ''-'' (seal_file_stream ssl write_all key (bytes_from_text a))
        (seal_file_stream ssl cli_put key (bytes_from_text a))) s"
    and "file_command ssl (seal_argv prog ''open-file'' ''-'' ''-'' k a) s =
      success (run_streaming_file_command ssl True True ''-'' ''-'' (open_file_stream ssl write_all key (bytes_from_text a))
        (open_file_stream ssl cli_put key (bytes_from_text a))) s"
    and "p \<noteq> ''-'' \<Longrightarrow> file_command ssl (seal_argv prog ''open-file'' ''-'' p k a) s =
      success (run_streaming_file_command ssl True False ''-'' p (open_file_stream ssl write_all key (bytes_from_text a))
        (open_file_stream ssl cli_put key (bytes_from_text a))) s"
    and "p \<noteq> ''-'' \<Longrightarrow> file_command ssl (verify_argv prog p k a) s =
      success (run_verify_file_command False p (open_file_stream ssl discard_put key (bytes_from_text a))) s"
  using parse_file_example [OF assms] parse_verify_example [OF assms]
  by (simp_all add: file_command_def mbind_def con_disk_def mzoom_def is_arg_def Let_def)

interpretation reliable_out: sink_invariant write_all ostream_reliable
  by unfold_locales (auto simp: write_all_def Let_def ostream_write_def ostream_reliable_def)

text \<open>The standard streams can be switched to binary mode, which only Windows has to do.\<close>

definition binary_ready :: "file_system \<Rightarrow> bool" where
  "binary_ready d \<longleftrightarrow> platform d \<noteq> Windows \<or> no_faults d"

lemma set_binary_returns:
  assumes "binary_ready d"
  shows "\<exists>d'. set_standard_stream_binary fd d = (Inr (), d') \<and> binary_ready d'"
proof (cases "platform d = Windows")
  case True
  obtain b d' where run: "sys_succeeds d = (b, d')" by fastforce
  from sys_succeeds_evolves [OF run] True assms show ?thesis
    using run by (auto simp: set_standard_stream_binary_def binary_ready_def evolves_def no_faults_def)
qed (use assms in \<open>simp add: set_standard_stream_binary_def\<close>)

lemma set_binary_twice:
  assumes "binary_ready (disk (sys s))"
  shows "\<exists>d. con_disk set_stdin_binary s = (Inr (), s\<lparr>sys := (sys s)\<lparr>disk := d\<rparr>\<rparr>) \<and>
    (\<exists>d'. con_disk set_stdout_binary (s\<lparr>sys := (sys s)\<lparr>disk := d\<rparr>\<rparr>) = (Inr (), s\<lparr>sys := (sys s)\<lparr>disk := d'\<rparr>\<rparr>))"
proof -
  obtain d where d: "set_standard_stream_binary 0 (disk (sys s)) = (Inr (), d)" "binary_ready d"
    using set_binary_returns [OF assms] by blast
  obtain d' where d': "set_standard_stream_binary 1 d = (Inr (), d')" using set_binary_returns [OF d(2)] by blast
  show ?thesis
    using d d' by (intro exI [of _ d] conjI exI [of _ d']) (simp_all add: set_stdin_binary_def set_stdout_binary_def con_disk_def mzoom_def)
qed

lemma stream_both:
  assumes "m \<lparr>source = cin s, sink = cout s, crypto = rt (sys s)\<rparr> = (r, t)" and "binary_ready (disk (sys s))"
  shows "\<exists>d. run_streaming_file_command ssl True True i p m m' s =
    (let s1 = s\<lparr>sys := (sys s)\<lparr>disk := d, rt := crypto t\<rparr>, cin := source t\<rparr>
     in case r of
       Inl e \<Rightarrow> (Inl e, s1\<lparr>cout := sink t\<rparr>)
     | Inr _ \<Rightarrow> (if out_failed (ostream_flush (stdout_flushes s) (sink t)) then Inl cli_write_failed else Inr (),
         s1\<lparr>cout := ostream_flush (stdout_flushes s) (sink t)\<rparr>))"
proof -
  obtain d d' where bin: "con_disk set_stdin_binary s = (Inr (), s\<lparr>sys := (sys s)\<lparr>disk := d\<rparr>\<rparr>)"
    "con_disk set_stdout_binary (s\<lparr>sys := (sys s)\<lparr>disk := d\<rparr>\<rparr>) = (Inr (), s\<lparr>sys := (sys s)\<lparr>disk := d'\<rparr>\<rparr>)"
    using set_binary_twice [OF assms(2)] by blast
  show ?thesis
    using assms(1)
    by (intro exI [of _ d'], cases r)
      (simp_all add: run_streaming_file_command_def cli_input_def stream_to_stdout_def operate_def mbind_def mget_def bin Let_def)
qed

lemma stream_through:
  assumes "m \<lparr>source = cin s, sink = cout s, crypto = rt (sys s)\<rparr> = (Inr (), t)" and "ostream_reliable (sink t)"
    and "stdout_flushes s" and "binary_ready (disk (sys s))"
  shows "\<exists>s1. success (run_streaming_file_command ssl True True i p m m') s = (Inr 0, s1) \<and> cout s1 = sink t"
proof -
  obtain d where "run_streaming_file_command ssl True True i p m m' s =
      (Inr (), s\<lparr>sys := (sys s)\<lparr>disk := d, rt := crypto t\<rparr>, cin := source t, cout := sink t\<rparr>)"
    using stream_both [where m = m and s = s and ssl = ssl and i = i and p = p and m' = m', OF assms(1,4)] assms(2,3) by (auto simp: ostream_flush_def ostream_reliable_def Let_def)
  then show ?thesis by (simp add: success_def mbind_def mreturn_def)
qed

text \<open>
  C10: A pipeline of \<open>seal-file\<close> and \<open>open-file\<close> is the identity. With a working provider and standard streams,
  \<open>seal-file --in - --out -\<close> exits with 0, and any run of \<open>open-file --in - --out -\<close> under the same key and
  associated data that reads what it wrote exits with 0 and writes the input of the first, of up to \<open>2^32\<close> chunks.
\<close>

theorem cli_pipeline:
  assumes prov: "gcm_provider ssl view alg" "gcm_healthy ssl view alg" "kdf_provider ssl kdf" "kdf_healthy ssl"
    and key: "key_from_hex k = Inr key" and aad: "length a \<le> 2000000000"
    and input: "istream_good (cin s)" "\<not> broken (cin s)" "chunk_count (remaining (cin s)) \<le> 2 ^ 32"
    and out: "written (cout s) = []" "ostream_reliable (cout s)" "stdout_flushes s" and binary: "binary_ready (disk (sys s))"
  shows "\<exists>s1. run ssl v (seal_argv prog ''seal-file'' ''-'' ''-'' k a) s = (Inr 0, s1) \<and>
    (\<forall>s'. cin s' = fresh_istream (written (cout s1)) \<longrightarrow> ostream_reliable (cout s') \<longrightarrow> stdout_flushes s' \<longrightarrow>
      binary_ready (disk (sys s')) \<longrightarrow>
      (\<exists>s2. run ssl v (seal_argv prog ''open-file'' ''-'' ''-'' k a) s' = (Inr 0, s2) \<and>
        written (cout s2) = written (cout s') @ remaining (cin s)))"
proof -
  let ?a = "bytes_from_text a"
  let ?s = "\<lparr>source = cin s, sink = cout s, crypto = rt (sys s)\<rparr>"
  have fits: "length ?a \<le> int_max - 9 - 50" "(50 :: nat) \<le> 1000" using aad by (simp_all add: int_max_def bytes_from_text_def)
  have start: "istream_good (source ?s)" "\<not> broken (source ?s)" "ostream_reliable (sink ?s)" using input out by simp_all
  have "chunk_count (remaining (source ?s)) \<le> 2 ^ 32" using input(3) by simp
  from keyed_stream.sealed_then_opened [OF prov TrueI start fits this] obtain t sealed where
    t: "seal_file_stream ssl write_all key ?a ?s = (Inr (), t)" "written (sink t) = written (sink ?s) @ sealed"
    and opens: "\<And>t. istream_good (source t) \<Longrightarrow> \<not> broken (source t) \<Longrightarrow> remaining (source t) = sealed \<Longrightarrow>
      ostream_reliable (sink t) \<Longrightarrow> \<exists>t'. open_file_stream ssl write_all key ?a t = (Inr (), t') \<and>
        written (sink t') = written (sink t) @ remaining (source ?s)"
    unfolding stream_overloads by blast
  have "ostream_reliable (sink t)"
    using keeps_sinkD [OF reliable_out.overloads_keep(1) _ t(1)] out(2) by simp
  from stream_through [where s = s and m = "seal_file_stream ssl write_all key ?a", OF t(1) this out(3) binary] obtain s1 where
    through: "success (run_streaming_file_command ssl True True ''-'' ''-'' (seal_file_stream ssl write_all key ?a)
      (seal_file_stream ssl cli_put key ?a)) s = (Inr 0, s1)" "cout s1 = sink t" by blast
  have "run ssl v (seal_argv prog ''seal-file'' ''-'' ''-'' k a) s = (Inr 0, s1)"
    by (simp add: run_file(1) file_command_runs(1) [OF key] through)
  moreover have "\<exists>s2. run ssl v (seal_argv prog ''open-file'' ''-'' ''-'' k a) s' = (Inr 0, s2) \<and>
        written (cout s2) = written (cout s') @ remaining (cin s)"
    if s': "cin s' = fresh_istream sealed" "ostream_reliable (cout s')" "stdout_flushes s'"
      "binary_ready (disk (sys s'))" for s'
  proof -
    let ?t = "\<lparr>source = cin s', sink = cout s', crypto = rt (sys s')\<rparr>"
    from opens [of ?t] s' obtain t' where
      t': "open_file_stream ssl write_all key ?a ?t = (Inr (), t')" "written (sink t') = written (cout s') @ remaining (cin s)" by auto
    have "ostream_reliable (sink t')"
      using keeps_sinkD [OF reliable_out.overloads_keep(2) _ t'(1)] s'(2) by simp
    from stream_through [where s = s' and m = "open_file_stream ssl write_all key ?a", OF t'(1) this s'(3,4)] obtain s2 where
      through: "success (run_streaming_file_command ssl True True ''-'' ''-'' (open_file_stream ssl write_all key ?a)
        (open_file_stream ssl cli_put key ?a)) s' = (Inr 0, s2)" "cout s2 = sink t'" by blast
    have "run ssl v (seal_argv prog ''open-file'' ''-'' ''-'' k a) s' = (Inr 0, s2)"
      by (simp add: run_file(1) file_command_runs(2) [OF key] through)
    with t'(2) through(2) show ?thesis by simp
  qed
  ultimately show ?thesis using t(2) out(1) through(2) by simp
qed

lemma cli_pipeline_witness:
  "\<exists>s1 s2. run toy_ssl ''1'' (seal_argv ''p'' ''seal-file'' ''-'' ''-'' toy_key_hex ''a'') (toy_console [] [1, 2, 3]) = (Inr 0, s1) \<and>
    run toy_ssl ''1'' (seal_argv ''p'' ''open-file'' ''-'' ''-'' toy_key_hex ''a'') (toy_console [] (written (cout s1))) = (Inr 0, s2) \<and>
    written (cout s2) = [1, 2, 3]"
proof -
  have "chunk_count (remaining (cin (toy_console [] [1, 2, 3]))) \<le> 2 ^ 32" by (simp add: small_chunk_count)
  from cli_pipeline [OF toy_provider toy_healthy toy_kdf_laws toy_key_hex_read _ _ _ this, where a = "''a''" and v = "''1''"
      and prog = "''p''"] obtain s1 where
    s1: "run toy_ssl ''1'' (seal_argv ''p'' ''seal-file'' ''-'' ''-'' toy_key_hex ''a'') (toy_console [] [1, 2, 3]) = (Inr 0, s1)"
    and s2: "\<And>s'. cin s' = fresh_istream (written (cout s1)) \<Longrightarrow> ostream_reliable (cout s') \<Longrightarrow> stdout_flushes s' \<Longrightarrow>
      binary_ready (disk (sys s')) \<Longrightarrow> \<exists>s2. run toy_ssl ''1'' (seal_argv ''p'' ''open-file'' ''-'' ''-'' toy_key_hex ''a'') s' = (Inr 0, s2) \<and>
        written (cout s2) = written (cout s') @ [1, 2, 3]"
    by (auto simp: binary_ready_def)
  from s2 [of "toy_console [] (written (cout s1))"] s1 show ?thesis by (auto simp: binary_ready_def)
qed

subsection \<open>verify-file\<close>

interpretation discard: reliable_sink discard_put "\<lambda>taken. taken" "\<lambda>_. True" "\<lambda>_. True"
  by unfold_locales (auto simp: discard_put_def)

interpretation keyed_check: reliable_sealing discard_put "\<lambda>taken. taken" "\<lambda>_. True" ssl kdf "make_header ssl" 50 parse_header
  fh_serialized fh_nonce_prefix "derive_file_key ssl key" valid_header "\<lambda>h. file_key kdf key (fh_salt h)" True "\<lambda>_. True"
  for ssl :: "('o, 'c) openssl" and kdf :: kdf_alg and key :: bytes
  by unfold_locales

lemma run_code:
  assumes "run ssl v argv s = (case file_command ssl argv s of
      (Inl e, s') \<Rightarrow> if is_undefined e then (Inl e, s') else fail (what_of e) s' | (Inr code, s') \<Rightarrow> (Inr code, s'))"
    and "file_command ssl argv s = success m' s" and "m' s = (r, s1)" and "run ssl v argv s = (Inr code, s')"
  shows "(code = 0 \<longleftrightarrow> r = Inr ()) \<and> cout s' = cout s1 \<and> sys s' = sys s1"
  using assms
  by (cases r) (auto simp: success_def mbind_def mreturn_def fail_def mmodify_def split: if_splits)

text \<open>
  C9: What \<open>verify-file\<close> answers. With a working provider and file system it exits with 0 exactly when the file is a
  sealed file under the given key and associated data, it writes nothing to standard output and leaves every
  name as it was.
\<close>

theorem cli_verify_exact:
  assumes prov: "gcm_provider ssl view alg" "gcm_healthy ssl view alg" "kdf_provider ssl kdf" "kdf_healthy ssl"
    and key: "key_from_hex k = Inr key" and aad: "length a \<le> 2000000000"
    and disk: "no_faults (disk (sys s))" "fs_ok (disk (sys s))" "names (disk (sys s)) p = Some j" and p: "p \<noteq> ''-''"
  shows "\<exists>code s'. run ssl v (verify_argv prog p k a) s = (Inr code, s') \<and>
    (code = 0 \<longleftrightarrow> (\<exists>h ps. decode_header (fh_serialized h) = Inr h \<and> well_chunked ps \<and> length ps \<le> 2 ^ 32 \<and>
       contents (disk (sys s)) j = sealed_file alg (file_key kdf key (fh_salt h)) (fh_serialized h) (fh_nonce_prefix h)
         (bytes_from_text a) ps)) \<and>
    cout s' = cout s \<and> (\<forall>q i. names (disk (sys s)) q = Some i \<longrightarrow> names (disk (sys s')) q = Some i)"
proof -
  let ?a = "bytes_from_text a"
  have fits: "length ?a \<le> int_max - 9 - 50" "(50 :: nat) \<le> 1000" using aad by (simp_all add: int_max_def bytes_from_text_def)
  obtain x d where x: "open_ifstream p (disk (sys s)) = (x, d)" by (metis surj_pair)
  note spec = open_ifstream_spec [OF x]
  from spec disk obtain i where "x = Some i" by (cases x) auto
  with spec disk have i: "istream_good i" "\<not> broken i" "remaining i = contents (disk (sys s)) j" and e: "evolves {} (disk (sys s)) d"
    by auto
  let ?s = "\<lparr>source = i, sink = ([] :: bytes), crypto = rt (sys s)\<rparr>"
  let ?m = "open_file_stream ssl discard_put key ?a"
  obtain r t where t: "?m ?s = (r, t)" by (metis surj_pair)
  let ?cmd = "run_verify_file_command False p ?m"
  have cmd: "?cmd s = (r, s\<lparr>sys := (sys s)\<lparr>disk := d, rt := crypto t\<rparr>\<rparr>)"
    using x \<open>x = Some i\<close> t
    by (simp add: run_verify_file_command_def cli_input_def open_cli_input_file_def con_disk_def mzoom_def mbind_def operate_def)
  obtain code s' where run: "run ssl v (verify_argv prog p k a) s = (Inr code, s')" using run_course by blast
  from run_code [where s = s and m' = ?cmd, OF run_file(2) file_command_runs(4) [OF key p] cmd run]
  have ended: "code = 0 \<longleftrightarrow> r = Inr ()" "cout s' = cout s" "disk (sys s') = d" by simp_all
  have "istream_good (source ?s)" "\<not> broken (source ?s)" using i by simp_all
  from keyed_check.open_with_exact [OF prov TrueI this TrueI fits, of key]
  have "(\<exists>s'. ?m ?s = (Inr (), s')) \<longleftrightarrow> (\<exists>h ps. valid_header h \<and> well_chunked ps \<and> length ps \<le> 2 ^ 32 \<and>
    remaining (source ?s) = sealed_file alg (file_key kdf key (fh_salt h)) (fh_serialized h) (fh_nonce_prefix h) ?a ps)"
    unfolding stream_overloads .
  with t i(3) ended(1) have "code = 0 \<longleftrightarrow> (\<exists>h ps. decode_header (fh_serialized h) = Inr h \<and> well_chunked ps \<and> length ps \<le> 2 ^ 32 \<and>
       contents (disk (sys s)) j = sealed_file alg (file_key kdf key (fh_salt h)) (fh_serialized h) (fh_nonce_prefix h) ?a ps)"
    by (simp add: header_valid_iff)
  moreover have "\<forall>q i. names (disk (sys s)) q = Some i \<longrightarrow> names (disk (sys s')) q = Some i"
    using e ended(3) by (simp add: evolves_def)
  ultimately show ?thesis using run ended(2) by blast
qed

lemma cli_verify_exact_witness:
  "(\<exists>file s'. run toy_ssl ''1'' (verify_argv ''p'' ''in'' toy_key_hex ''a'') (toy_console file []) = (Inr 0, s')) \<and>
   (\<exists>s'. run toy_ssl ''1'' (verify_argv ''p'' ''in'' toy_key_hex ''a'') (toy_console [83, 75, 70] []) = (Inr 1, s'))"
proof -
  note verify = cli_verify_exact [OF toy_provider toy_healthy toy_kdf_laws toy_key_hex_read, where p = "''in''" and a = "''a''"
      and j = 0 and v = "''1''" and prog = "''p''"]
  obtain h and c :: "nat runtime" where "make_header toy_ssl toy_runtime = (Inr h, c)"
    using make_header_returns [OF toy_healthy] by blast
  then have h: "decode_header (fh_serialized h) = Inr h"
    using make_header_result [of toy_ssl toy_runtime "Inr h" c] by (simp add: header_valid_iff)
  have ps: "well_chunked [[1]]" "length [[1 :: byte]] \<le> 2 ^ 32" by simp_all
  let ?file = "sealed_file toy_alg (file_key toy_kdf toy_key (fh_salt h)) (fh_serialized h) (fh_nonce_prefix h)
    (bytes_from_text ''a'') [[1]]"
  have disk: "no_faults (disk (sys (toy_console data [])))" "fs_ok (disk (sys (toy_console data [])))"
    "names (disk (sys (toy_console data []))) ''in'' = Some 0" "contents (disk (sys (toy_console data []))) 0 = data" for data
    using toy_file by (simp_all add: toy_system_def no_faults_def)
  have "\<exists>s'. run toy_ssl ''1'' (verify_argv ''p'' ''in'' toy_key_hex ''a'') (toy_console ?file []) = (Inr 0, s')"
    using verify [OF _ disk(1-3), of ?file] h ps unfolding disk(4) by force
  moreover have "\<exists>s'. run toy_ssl ''1'' (verify_argv ''p'' ''in'' toy_key_hex ''a'') (toy_console [83, 75, 70] []) = (Inr 1, s')"
    using verify [OF _ disk(1-3), of "[83, 75, 70]"] short_not_sealed
      run_course [of toy_ssl "''1''" "verify_argv ''p'' ''in'' toy_key_hex ''a''" "toy_console [83, 75, 70] []"]
    unfolding disk(4) by fastforce
  ultimately show ?thesis by blast
qed

subsection \<open>open-file into a file\<close>

lemma stdin_to_file_spec:
  assumes keeps: "\<And>j d. keeps_sink (stream_inv j d) m'"
    and run: "run_streaming_file_command ssl True False i p m m' s = (r, s1)"
  shows "\<exists>data. output_outcome p data r (disk (sys s)) (disk (sys s1)) \<and>
      (r = Inr () \<longrightarrow> (\<exists>out c t. m' \<lparr>source = cin s, sink = out, crypto = c\<rparr> = (Inr (), t) \<and> cli_open out \<and>
         cli_content out = [] \<and> data = cli_content (sink t)))"
proof -
  obtain b d where b: "set_stdin_binary (disk (sys s)) = (b, d)" by fastforce
  have e: "evolves {} (disk (sys s)) d" "defined b"
    using obeysD [OF set_binary_reads b [unfolded set_stdin_binary_def]] by simp_all
  let ?s = "s\<lparr>sys := (sys s)\<lparr>disk := d\<rparr>\<rparr>"
  show ?thesis
  proof (cases b)
    case (Inl x)
    with run b have "r = Inl x" "s1 = ?s"
      by (auto simp: run_streaming_file_command_def mbind_def con_disk_def mzoom_def)
    with e Inl output_outcome_nothing [of "disk (sys s)" d] show ?thesis by auto
  next
    case (Inr u)
    with run b have f: "stream_to_file ssl True (cin s) p m' ?s = (r, s1)"
      by (simp add: run_streaming_file_command_def mbind_def con_disk_def mzoom_def cli_input_def mget_def)
    from stream_to_file_spec(1) [OF keeps f] obtain data where
      out: "output_outcome p data r (disk (sys ?s)) (disk (sys s1))" and
      returned: "r = Inr () \<longrightarrow> (\<exists>out c t. m' \<lparr>source = cin s, sink = out, crypto = c\<rparr> = (Inr (), t) \<and> cli_open out \<and>
         cli_content out = [] \<and> data = cli_content (sink t))" by blast
    from out have "output_outcome p data r d (disk (sys s1))" by simp
    from output_outcome_after [OF e(1) this] returned show ?thesis by blast
  qed
qed

text \<open>
  C8: No unauthenticated plaintext reaches an output file. Whatever fails, \<open>open-file --in -\<close> either exits with
  0, its input was a sealed file under the given key and associated data and the output, which did not
  exist, holds the whole plaintext; or it exits with 1 and has not created the output.
\<close>

theorem cli_open_all_or_nothing:
  assumes prov: "gcm_provider ssl view alg" "kdf_provider ssl kdf"
    and key: "key_from_hex k = Inr key" and input: "istream_good (cin s)" and p: "p \<noteq> ''-''"
    and run: "run ssl v (seal_argv prog ''open-file'' ''-'' p k a) s = (Inr code, s')"
  shows "(code = 0 \<longrightarrow> names (disk (sys s)) p = None \<and>
      (\<exists>h ps i. decode_header (fh_serialized h) = Inr h \<and> well_chunked ps \<and> length ps \<le> 2 ^ 32 \<and>
         remaining (cin s) = sealed_file alg (file_key kdf key (fh_salt h)) (fh_serialized h) (fh_nonce_prefix h)
           (bytes_from_text a) ps \<and>
         names (disk (sys s')) p = Some i \<and> contents (disk (sys s')) i = concat ps)) \<and>
    (code \<noteq> 0 \<longrightarrow> code = 1 \<and> (quiet (disk (sys s)) \<longrightarrow> names (disk (sys s')) p = names (disk (sys s)) p))"
proof -
  let ?a = "bytes_from_text a"
  let ?m = "open_file_stream ssl cli_put key ?a"
  let ?cmd = "run_streaming_file_command ssl True False ''-'' p (open_file_stream ssl write_all key ?a) ?m"
  obtain r s1 where cmd: "?cmd s = (r, s1)" by (metis surj_pair)
  from run_code [where s = s and m' = ?cmd, OF run_file(1) [OF disjI2 [OF refl]] file_command_runs(3) [OF key p] cmd run]
  have ended: "code = 0 \<longleftrightarrow> r = Inr ()" "sys s' = sys s1" by simp_all
  from stdin_to_file_spec [OF clij.overloads_keep(2) cmd] obtain data where
    out: "output_outcome p data r (disk (sys s)) (disk (sys s1))" and
    returned: "r = Inr () \<Longrightarrow> \<exists>out c t. ?m \<lparr>source = cin s, sink = out, crypto = c\<rparr> = (Inr (), t) \<and> cli_open out \<and>
         cli_content out = [] \<and> data = cli_content (sink t)" by blast
  have "\<exists>h ps. decode_header (fh_serialized h) = Inr h \<and> well_chunked ps \<and> length ps \<le> 2 ^ 32 \<and>
      remaining (cin s) = sealed_file alg (file_key kdf key (fh_salt h)) (fh_serialized h) (fh_nonce_prefix h) ?a ps \<and>
      data = concat ps" if "r = Inr ()"
  proof -
    from returned [OF that] obtain out c t where
      t: "?m \<lparr>source = cin s, sink = out, crypto = c\<rparr> = (Inr (), t)" "cli_open out" "cli_content out = []" "data = cli_content (sink t)"
      by blast
    let ?s = "\<lparr>source = cin s, sink = out, crypto = c\<rparr>"
    have start: "istream_good (source ?s)" "cli_open (sink ?s)" using input t(2) by simp_all
    from keyed_cli.open_with_spec [OF prov start t(1) [unfolded stream_overloads]] t(3,4) show ?thesis
      unfolding header_valid_iff by auto
  qed
  moreover have "code = 0 \<or> code = 1" using run_course [of ssl v "seal_argv prog ''open-file'' ''-'' p k a" s] run by auto
  moreover have "\<not> is_temp_path p p" using temp_path_differs by blast
  ultimately show ?thesis using out ended unfolding output_outcome_def by metis
qed

lemma cli_open_all_or_nothing_witness:
  "\<exists>s'. run toy_ssl ''1'' (seal_argv ''p'' ''open-file'' ''-'' ''out'' toy_key_hex ''a'') (toy_console [] [83, 75, 70]) = (Inr 1, s') \<and>
    names (disk (sys s')) ''out'' = None"
proof -
  obtain code s' where run: "run toy_ssl ''1'' (seal_argv ''p'' ''open-file'' ''-'' ''out'' toy_key_hex ''a'')
      (toy_console [] [83, 75, 70]) = (Inr code, s')"
    using run_course by blast
  have "quiet (disk (toy_system []))" "names (disk (toy_system [])) ''out'' = None"
    using toy_system_ready(4) by (simp_all add: toy_system_def)
  with cli_open_all_or_nothing [OF toy_provider toy_kdf_laws(1) toy_key_hex_read _ _ run] run
  show ?thesis by (cases "code = 0") (auto simp: short_not_sealed)
qed

end
