(* ===== verification/Cli_Silence.thy ===== *)
theory Cli_Silence
  imports Cli_Roundtrips
begin

section \<open>Standard output of a failed run\<close>

text \<open>
  A run that fails has written nothing to standard output, except when standard output is the output of a file
  command. \<open>silent\<close> actions never write there, \<open>clean\<close> ones only when they end with 0.
\<close>

definition silent :: "('o console, exn, 'a) action \<Rightarrow> bool" where
  "silent m \<longleftrightarrow> (\<forall>s. cout (snd (m s)) = cout s)"

definition clean :: "('o console, exn, int) action \<Rightarrow> bool" where
  "clean m \<longleftrightarrow> (\<forall>s. fst (m s) \<noteq> Inr 0 \<longrightarrow> cout (snd (m s)) = cout s)"

named_theorems clean_intros "actions that leave standard output alone, or write to it only at the end"

lemma silent_parts [clean_intros]:
  "silent (con_disk m1)" "silent (con_rt m2)" "silent (con_system m3)" "silent (mlift r)" "silent (mget f)"
  "silent (mreturn x)"
  by (simp_all add: silent_def con_disk_def con_rt_def con_system_def mzoom_def mlift_def mget_def mreturn_def
      split: prod.split)

lemma silent_mbind: "silent m \<Longrightarrow> (\<And>x. silent (f x)) \<Longrightarrow> silent (mbind m f)"
  by (auto simp: silent_def mbind_def split: prod.split sum.split) (metis snd_conv)+

lemma silent_if: "silent m \<Longrightarrow> silent m' \<Longrightarrow> silent (if b then m else m')"
  by simp

lemma clean_mbind_post:
  assumes "silent m" and "\<And>s x t. m s = (Inr x, t) \<Longrightarrow> Q x" and "\<And>x. Q x \<Longrightarrow> clean (f x)"
  shows "clean (mbind m f)"
  unfolding clean_def
proof (intro allI impI)
  fix s assume failed: "fst (mbind m f s) \<noteq> Inr 0"
  obtain r t where m: "m s = (r, t)" by (metis surj_pair)
  then have t: "cout t = cout s" using assms(1) unfolding silent_def by (metis snd_conv)
  show "cout (snd (mbind m f s)) = cout s"
  proof (cases r)
    case (Inl e)
    with m t show ?thesis by (simp add: mbind_def)
  next
    case (Inr x)
    with failed assms(3) [OF assms(2) [OF m [unfolded Inr]]] m t show ?thesis by (simp add: mbind_def clean_def)
  qed
qed

lemma clean_mbind [clean_intros]: "silent m \<Longrightarrow> (\<And>x. clean (f x)) \<Longrightarrow> clean (mbind m f)"
  by (rule clean_mbind_post [where Q = "\<lambda>_. True"]) simp_all

lemma clean_if [clean_intros]: "(b \<Longrightarrow> clean m) \<Longrightarrow> (\<not> b \<Longrightarrow> clean m') \<Longrightarrow> clean (if b then m else m')"
  by simp

lemma clean_zero [clean_intros]: "clean (mreturn 0)"
  by (simp add: clean_def mreturn_def)

lemma clean_fail [clean_intros]: "clean (fail message)"
  by (simp add: clean_def fail_def mbind_def mmodify_def mreturn_def)

lemma clean_silent_success [clean_intros]: "silent m \<Longrightarrow> clean (success m)"
  unfolding success_def by (intro clean_intros)

text \<open>Printing cannot fail, so it is clean at the end of a command.\<close>

lemma clean_print [clean_intros]:
  "clean (success (print_line t))" "clean (success (write_bytes bs))" "clean (success print_help)"
  "clean (success (print_version v))" "clean (mbind (print_line t) (\<lambda>_. mreturn 0))"
  by (simp_all add: clean_def success_def print_line_def write_bytes_def print_help_def print_version_def print_def
      mbind_def mmodify_def mreturn_def)

lemma clean_print_hex [clean_intros]: "clean (print_hex data)"
  unfolding print_hex_def by (intro clean_intros)

lemma clean_command_help [clean_intros]:
  "clean (mbind (print_command_help c) (\<lambda>known. if known then mreturn 0 else fail message))"
  by (cases "command_help c")
    (simp_all add: print_command_help_def clean_def print_line_def print_def mbind_def mmodify_def mreturn_def fail_def)

lemma silent_verify [clean_intros]: "silent (run_verify_file_command b input m)"
  unfolding run_verify_file_command_def
proof (intro silent_mbind silent_if silent_parts)
  show "silent (cli_input b input)" unfolding cli_input_def by (cases b) (simp_all add: silent_parts)
  show "silent (\<lambda>s. case operate b i [] m s of (r, _, s1) \<Rightarrow> (r, s1))" for i
    unfolding silent_def by (auto dest!: operate_spec split: prod.splits)
qed

lemma silent_stream_to_file:
  assumes "\<And>j d. keeps_sink (stream_inv j d) m'"
  shows "silent (run_streaming_file_command ssl b False input p m m')"
  unfolding run_streaming_file_command_def if_False
proof (intro silent_mbind silent_if silent_parts)
  show "silent (cli_input b input)" unfolding cli_input_def by (cases b) (simp_all add: silent_parts)
  show "silent (stream_to_file ssl b i p m')" for i
    unfolding silent_def using stream_to_file_spec(2) [OF assms] by (metis prod.collapse)
qed

text \<open>Which arguments make standard output the output.\<close>

lemma stdout_option:
  assumes "parse_file_command_options argv d = (Inr opts, d')" and "fc_output_is_stdout opts"
  shows "(''--out'', ''-'') \<in> set (option_pairs (drop 2 argv))"
proof -
  let ?r = "argv ! 1 \<noteq> ''verify-file''"
  from assms(1) have p: "parse_pairs (file_command_option ?r) (drop 2 argv) no_file_command_options d = (Inr opts, d')"
    by (auto simp: parse_file_command_options_def Let_def usage_error_def parsing split: if_splits)
  have "fc_has_output opts"
    using files.accepted(4) [OF p, of Out] assms(2) by auto
  with files.accepted_value [OF p, of Out] assms(2) show ?thesis by (auto simp: out_kind)
qed

lemma password_stdout_option:
  assumes "parse_password_file_command_options argv d = (Inr opts, d')" and "pc_output_is_stdout opts"
  shows "(''--out'', ''-'') \<in> set (option_pairs (drop 2 argv))"
proof -
  let ?r = "argv ! 1 \<noteq> ''verify-file-password''"
  from assms(1) have p: "parse_pairs (password_file_command_option ?r) (drop 2 argv) no_password_file_command_options d =
      (Inr opts, d')"
    by (auto simp: parse_password_file_command_options_def Let_def usage_error_def parsing split: if_splits)
  have "pc_has_output opts"
    using password_files.accepted(4) [OF p, of Out] assms(2) by auto
  with password_files.accepted_value [OF p, of Out] assms(2) show ?thesis by (auto simp: out_kind)
qed

lemma clean_commands [clean_intros]:
  "clean (wrap_key_command ssl argv)" "clean (unwrap_key_command ssl argv)" "clean (encrypt_command ssl argv)"
  "clean (decrypt_command ssl argv)"
proof -
  show "clean (wrap_key_command ssl argv)" "clean (unwrap_key_command ssl argv)" "clean (encrypt_command ssl argv)"
    unfolding wrap_key_command_def unwrap_key_command_def encrypt_command_def by (intro clean_intros)+
  have "clean (success (if b then con_system m else write_bytes bs))" for b m bs
    by (cases b) (simp_all add: clean_intros)
  then show "clean (decrypt_command ssl argv)"
    unfolding decrypt_command_def by (intro clean_mbind silent_parts)
qed

lemma clean_file_command:
  assumes "(''--out'', ''-'') \<notin> set (option_pairs (drop 2 argv))"
  shows "clean (file_command ssl argv)"
proof -
  have "con_disk (parse_file_command_options argv) s = (Inr opts, t) \<Longrightarrow> \<not> fc_output_is_stdout opts" for opts s t
    using stdout_option assms by (auto simp: con_disk_def mzoom_def split: prod.splits)
  then show ?thesis
    unfolding file_command_def Let_def
    by (intro clean_mbind_post [where Q = "\<lambda>opts. \<not> fc_output_is_stdout opts"] clean_intros)
      (auto intro!: clean_intros silent_stream_to_file clij.overloads_keep)
qed

lemma clean_password_file_command:
  assumes "(''--out'', ''-'') \<notin> set (option_pairs (drop 2 argv))"
  shows "clean (password_file_command ssl argv)"
proof -
  have "con_disk (parse_password_file_command_options argv) s = (Inr opts, t) \<Longrightarrow> \<not> pc_output_is_stdout opts" for opts s t
    using password_stdout_option assms by (auto simp: con_disk_def mzoom_def split: prod.splits)
  then show ?thesis
    unfolding password_file_command_def Let_def
    by (intro clean_mbind_post [where Q = "\<lambda>opts. \<not> pc_output_is_stdout opts"] clean_intros)
      (auto intro!: clean_intros silent_stream_to_file clij.overloads_keep)
qed

lemma clean_run_command:
  assumes "(''--out'', ''-'') \<notin> set (option_pairs (drop 2 argv))"
  shows "clean (run_command ssl version argv)"
  unfolding run_command_def Let_def
  by (intro clean_intros clean_file_command [OF assms] clean_password_file_command [OF assms])

text \<open>
  C18: A failed run writes nothing to standard output, unless the arguments name it as the output with \<open>--out -\<close>. So a script
  never takes the beginning of a result for a result.
\<close>

theorem failed_run_prints_nothing:
  assumes "(''--out'', ''-'') \<notin> set (option_pairs (drop 2 argv))" and "run ssl version argv s = (Inr code, s')" and "code \<noteq> 0"
  shows "cout s' = cout s"
proof -
  obtain r t where c: "run_command ssl version argv s = (r, t)" by (metis surj_pair)
  with assms(2,3) have "r \<noteq> Inr 0" by (auto simp: run_def)
  with clean_run_command [OF assms(1)] c have "cout t = cout s" unfolding clean_def by (metis fst_conv snd_conv)
  with c assms(2) show ?thesis
    by (cases r) (auto simp: run_def fail_def mbind_def mmodify_def mreturn_def split: if_splits)
qed

lemma failed_run_prints_nothing_witness:
  "cout (snd (run toy_ssl ''1'' [''p'', ''hex-decode'', ''--text'', ''zz''] (toy_console [] []))) = cout (toy_console [] [])"
proof -
  obtain code s' where run: "run toy_ssl ''1'' [''p'', ''hex-decode'', ''--text'', ''zz''] (toy_console [] []) = (Inr code, s')"
    using run_course by blast
  have "isl (hex_decode ''zz'')" by code_simp
  with run have "code \<noteq> 0"
    by (auto simp: isl_def run_def run_command_def is_arg_def mbind_def mlift_def fail_def mmodify_def mreturn_def split: if_splits)
  with failed_run_prints_nothing [OF _ run] run show ?thesis by simp
qed

subsection \<open>Standard output as the output\<close>

lemma fail_returns: "fail message s = (Inr 1, s\<lparr>cerr := cerr s @ message @ [nl]\<rparr>)"
  by (simp add: fail_def mbind_def mmodify_def mreturn_def)

lemma broken_input_read:
  assumes "istream_good i" and "broken i" and "length (remaining i) < 1048576"
  shows "istream_read (unat kChunkSize) i = ([], i\<lparr>remaining := [], badbit := True\<rparr>)"
  using assms by (simp add: istream_read_def kChunkSize_def)

lemma broken_seal:
  fixes ssl :: "('o, 'c) openssl" and s :: "(ostream, 'o) transfer"
  assumes "gcm_healthy ssl view alg" and "kdf_healthy ssl" and "istream_good (source s)" and "broken (source s)"
    and "length (remaining (source s)) < 1048576" and "ostream_reliable (sink s)"
  shows "\<exists>h t. seal_file_stream ssl write_all key aad s = (Inl read_failed, t) \<and> valid_header h \<and>
    written (sink t) = written (sink s) @ fh_serialized h"
proof -
  obtain h c1 where h: "make_header ssl (crypto s) = (Inr h, c1)" using make_header_returns [OF assms(1)] by blast
  obtain k c2 where k: "derive_file_key ssl key h c1 = (Inr k, c2)" using derive_file_key_returns [OF assms(2)] by blast
  obtain out where out: "write_all (fh_serialized h) (sink s) = (Inr (), out)"
    using ostr.reliable_returns [OF assms(6)] by blast
  have bytes: "written out = written (sink s) @ fh_serialized h"
    using ostr.write_returned [OF TrueI out] by simp
  have nofail: "\<not> eofbit (source s)" using assms(3) by (simp add: istream_good_def)
  have "seal_loop ssl write_all (fh_serialized h) (fh_nonce_prefix h) k aad 0 (s\<lparr>crypto := c2, sink := out\<rparr>) =
      (Inl read_failed, s\<lparr>crypto := c2, sink := out, source := (source s)\<lparr>remaining := [], badbit := True\<rparr>\<rparr>)"
    using broken_input_read [OF assms(3-5)] nofail
    by (subst seal_loop.simps) (simp add: seal_chunk_def mbind_def on_source_def mget_def mthrow_def istream_fail_def)
  then have "seal_file_stream ssl write_all key aad s = (Inl read_failed,
      s\<lparr>crypto := retire (replicate (length k) 0) c2, sink := out, source := (source s)\<lparr>remaining := [], badbit := True\<rparr>\<rparr>)"
    using h k out
    by (simp add: stream_overloads seal_with_def seal_stream_payload_def mbind_def crypto_action_def sink_action_def mzoom_def
        wipe_after_def secure_wipe_def)
  moreover have "valid_header h" using make_header_result [OF h] by simp
  ultimately show ?thesis using bytes by auto
qed

text \<open>
  C24: With \<open>--out -\<close> a failed run can leave output behind: when reading the input fails, \<open>seal-file\<close> exits with 1 after
  it has written a header of 50 bytes to standard output.
\<close>

theorem failed_stream_leaves_header:
  assumes "gcm_healthy ssl view alg" and "kdf_healthy ssl" and key: "key_from_hex k = Inr key"
    and "istream_good (cin s)" and "broken (cin s)" and "length (remaining (cin s)) < 1048576" and "ostream_reliable (cout s)"
    and binary: "binary_ready (disk (sys s))"
  shows "\<exists>s' header. run ssl v (seal_argv prog ''seal-file'' ''-'' ''-'' k a) s = (Inr 1, s') \<and> length header = 50 \<and>
    written (cout s') = written (cout s) @ header"
proof -
  let ?s = "\<lparr>source = cin s, sink = cout s, crypto = rt (sys s)\<rparr>"
  from broken_seal [OF assms(1,2), of ?s key "bytes_from_text a"] assms(4-7) obtain h t where
    t: "seal_file_stream ssl write_all key (bytes_from_text a) ?s = (Inl read_failed, t)" "valid_header h"
    "written (sink t) = written (cout s) @ fh_serialized h" by auto
  obtain d where stream: "run_streaming_file_command ssl True True ''-'' ''-''
      (seal_file_stream ssl write_all key (bytes_from_text a)) (seal_file_stream ssl cli_put key (bytes_from_text a)) s =
      (Inl read_failed, s\<lparr>sys := (sys s)\<lparr>disk := d, rt := crypto t\<rparr>, cin := source t, cout := sink t\<rparr>)"
    using stream_both [where m = "seal_file_stream ssl write_all key (bytes_from_text a)" and s = s and ssl = ssl
        and i = "''-''" and p = "''-''" and m' = "seal_file_stream ssl cli_put key (bytes_from_text a)", OF t(1) binary]
    by (auto simp: Let_def)
  have "file_command ssl (seal_argv prog ''seal-file'' ''-'' ''-'' k a) s =
      (Inl read_failed, s\<lparr>sys := (sys s)\<lparr>disk := d, rt := crypto t\<rparr>, cin := source t, cout := sink t\<rparr>)"
    unfolding file_command_runs(1) [OF key] success_def by (rule mbind_error) (rule stream)
  then have "run ssl v (seal_argv prog ''seal-file'' ''-'' ''-'' k a) s =
      fail (what_of read_failed) (s\<lparr>sys := (sys s)\<lparr>disk := d, rt := crypto t\<rparr>, cin := source t, cout := sink t\<rparr>)"
    by (simp add: run_file(1))
  then obtain s' where "run ssl v (seal_argv prog ''seal-file'' ''-'' ''-'' k a) s = (Inr 1, s')" "cout s' = sink t"
    unfolding fail_returns by simp
  moreover from this have "written (cout s') = written (cout s) @ fh_serialized h" using t(3) by simp
  moreover have "length (fh_serialized h) = 50" using t(2) by (simp add: valid_header_def)
  ultimately show ?thesis by blast
qed

lemma failed_stream_leaves_header_witness:
  "\<exists>s' header. run toy_ssl ''1'' (seal_argv ''p'' ''seal-file'' ''-'' ''-'' toy_key_hex ''a'')
      ((toy_console [] [])\<lparr>cin := (fresh_istream [1])\<lparr>broken := True\<rparr>\<rparr>) = (Inr 1, s') \<and>
    length header = 50 \<and> written (cout s') = header"
proof -
  have "istream_good ((fresh_istream [1])\<lparr>broken := True\<rparr>)" by (simp add: istream_good_def fresh_istream_def)
  moreover have "binary_ready (disk (toy_system []))" by (simp add: binary_ready_def)
  ultimately show ?thesis
    using failed_stream_leaves_header [OF toy_healthy toy_kdf_laws(2) toy_key_hex_read,
      where s = "(toy_console [] [])\<lparr>cin := (fresh_istream [1])\<lparr>broken := True\<rparr>\<rparr>" and a = "''a''" and prog = "''p''" and v = "''1''"]
    by (simp add: fresh_istream_def)
qed

end
