(* ===== verification/Digests.thy ===== *)
theory Digests
  imports Cli_Silence
begin

section \<open>Digests and texts of the tool\<close>

text \<open>
  The commands of the tool that print a value: \<open>sha256\<close> and \<open>hmac-sha256\<close> print what OpenSSL computes, of a text as of a
  file with the same bytes, and the encodings of texts are undone by the decoding commands.
\<close>

subsection \<open>What digests OpenSSL computes\<close>

text \<open>
  As documented: a context that was initialised, given the data in one update (none for no data) and finished with
  success holds the SHA-256 of the data, of 32 bytes; \<open>EVP_Q_mac\<close> that returns its buffer, of 32 bytes, has written the
  HMAC there.
\<close>

record digest_alg =
  sha256_of :: "bytes \<Rightarrow> bytes"
  hmac_of :: "bytes \<Rightarrow> bytes \<Rightarrow> bytes"

definition digest_provider :: "('o, 'c) openssl \<Rightarrow> digest_alg \<Rightarrow> bool" where
  "digest_provider ssl alg \<longleftrightarrow>
     (\<forall>o1 c o2 c1 data c2 n out c3. EVP_MD_CTX_new ssl o1 = (Some c, o2) \<longrightarrow> EVP_DigestInit_ex ssl c = (1, c1) \<longrightarrow>
        (if data = [] then c2 = c1 else EVP_DigestUpdate ssl c1 data = (1, c2)) \<longrightarrow>
        EVP_DigestFinal_ex ssl c2 = ((1, n, out), c3) \<longrightarrow> n = 32 \<and> out = sha256_of alg data) \<and>
     (\<forall>key data o1 n out o2. EVP_Q_mac_HMAC_SHA256 ssl key data 32 o1 = ((True, n, out), o2) \<longrightarrow>
        n = 32 \<and> out = hmac_of alg key data) \<and>
     (\<forall>data key. length (sha256_of alg data) = 32 \<and> length (hmac_of alg key data) = 32)"

definition digest_healthy :: "('o, 'c) openssl \<Rightarrow> bool" where
  "digest_healthy ssl \<longleftrightarrow>
     (\<forall>o1. fst (EVP_MD_CTX_new ssl o1) \<noteq> None) \<and> EVP_sha256 ssl \<and> (\<forall>c. fst (EVP_DigestInit_ex ssl c) = 1) \<and>
     (\<forall>c data. fst (EVP_DigestUpdate ssl c data) = 1) \<and> (\<forall>c. fst (fst (EVP_DigestFinal_ex ssl c)) = 1) \<and>
     (\<forall>key data size o1. fst (fst (EVP_Q_mac_HMAC_SHA256 ssl key data size o1)))"

lemma digest_length:
  assumes "digest_provider ssl alg"
  shows "length (sha256_of alg data) = 32" and "length (hmac_of alg key data) = 32"
  using assms by (simp_all add: digest_provider_def)

lemma digest_final:
  assumes "digest_provider ssl alg" and "EVP_MD_CTX_new ssl o1 = (Some c, o2)" and "EVP_DigestInit_ex ssl c = (1, c1)"
    and "if data = [] then c2 = c1 else EVP_DigestUpdate ssl c1 data = (1, c2)"
    and "EVP_DigestFinal_ex ssl c2 = ((1, n, out), c3)"
  shows "n = 32" and "out = sha256_of alg data"
  using conjunct1 [OF assms(1) [unfolded digest_provider_def], rule_format, OF assms(2-5)] by simp_all

text \<open>The run of \<open>sha256\<close> on the calls that it makes.\<close>

lemma sha256_run:
  fixes ssl :: "('o, 'c) openssl"
  assumes "EVP_MD_CTX_new ssl (provider s) = (Some c, o1)" and "EVP_DigestInit_ex ssl c = (i, c1)"
    and "(if data = [] then (1, c1) else EVP_DigestUpdate ssl c1 data) = (u, c2)"
    and "EVP_DigestFinal_ex ssl c2 = ((f, n, out), c3)"
  shows "sha256 ssl data s =
    (if EVP_sha256 ssl \<and> i = 1 \<and> u = 1 \<and> f = 1 \<and> n = 32 then Inr (fit 32 out) else Inl sha256_failure, s\<lparr>provider := o1\<rparr>)"
  using assms by (auto simp: sha256_def mbind_def on_provider_def mthrow_def mreturn_def split: if_splits)

lemma sha256_context:
  assumes "sha256 ssl data s = (Inr d, s')"
  obtains c o1 where "EVP_MD_CTX_new ssl (provider s) = (Some c, o1)"
  using assms by (auto simp: sha256_def mbind_Inr_iff on_provider_iff mthrow_def split: option.splits)

lemma sha256_value:
  assumes "digest_provider ssl alg" and run: "sha256 ssl data s = (Inr d, s')"
  shows "d = sha256_of alg data"
proof -
  obtain c o1 where c: "EVP_MD_CTX_new ssl (provider s) = (Some c, o1)" using sha256_context [OF run] .
  obtain i c1 where i: "EVP_DigestInit_ex ssl c = (i, c1)" by fastforce
  obtain u c2 where u: "(if data = [] then (1, c1) else EVP_DigestUpdate ssl c1 data) = (u, c2)" by fastforce
  obtain f n out c3 where f: "EVP_DigestFinal_ex ssl c2 = ((f, n, out), c3)" by (metis prod.exhaust)
  have ok: "i = 1" "u = 1" "f = 1" and d: "d = fit 32 out"
    using run unfolding sha256_run [OF c i u f] by (simp_all split: if_splits)
  have "if data = [] then c2 = c1 else EVP_DigestUpdate ssl c1 data = (1, c2)" using u ok(2) by (simp split: if_splits)
  from digest_final(2) [OF assms(1) c i [unfolded ok] this f [unfolded ok]] d show ?thesis
    using digest_length(1) [OF assms(1)] by simp
qed

lemma hmac_sha256_value:
  assumes "digest_provider ssl alg" and "hmac_sha256 ssl key data s = (Inr d, s')"
  shows "d = hmac_of alg key data"
proof -
  from assms(2) obtain o1 n out o2 where
    "EVP_Q_mac_HMAC_SHA256 ssl key data 32 o1 = ((True, n, out), o2)" and d: "d = fit 32 out"
    by (auto simp: hmac_sha256_def mbind_Inr_iff on_provider_iff mthrow_def mreturn_def split: if_splits prod.splits)
  with assms(1) have "out = hmac_of alg key data" unfolding digest_provider_def by blast
  with d show ?thesis using digest_length(2) [OF assms(1)] by (simp add: fit_exact)
qed

lemma digests_return:
  assumes prov: "digest_provider ssl alg" and healthy: "digest_healthy ssl"
  shows "\<exists>s'. sha256 ssl data s = (Inr (sha256_of alg data), s')"
    and "\<exists>s'. hmac_sha256 ssl key data s = (Inr (hmac_of alg key data), s')"
proof -
  obtain c o1 where c: "EVP_MD_CTX_new ssl (provider s) = (Some c, o1)"
    using healthy unfolding digest_healthy_def by (metis option.exhaust prod.collapse)
  obtain c1 where i: "EVP_DigestInit_ex ssl c = (1, c1)" using healthy unfolding digest_healthy_def by (metis prod.collapse)
  obtain c2 where u: "(if data = [] then (1, c1) else EVP_DigestUpdate ssl c1 data) = (1, c2)"
    using healthy unfolding digest_healthy_def by (metis prod.collapse)
  obtain n out c3 where f: "EVP_DigestFinal_ex ssl c2 = ((1, n, out), c3)"
    using healthy unfolding digest_healthy_def by (metis prod.collapse)
  have "if data = [] then c2 = c1 else EVP_DigestUpdate ssl c1 data = (1, c2)" using u by (simp split: if_splits)
  then have "n = 32" using digest_final(1) [OF prov c i _ f] by blast
  then have "\<exists>d s'. sha256 ssl data s = (Inr d, s')"
    using healthy by (simp add: sha256_run [OF c i u f] digest_healthy_def)
  then show "\<exists>s'. sha256 ssl data s = (Inr (sha256_of alg data), s')" using sha256_value [OF prov] by blast
  obtain n out o2 where h: "EVP_Q_mac_HMAC_SHA256 ssl key data 32 (provider s) = ((True, n, out), o2)"
    using healthy unfolding digest_healthy_def by (metis (full_types) prod.collapse)
  then have "n = 32" using prov unfolding digest_provider_def by blast
  with h have "\<exists>d s'. hmac_sha256 ssl key data s = (Inr d, s')"
    by (simp add: hmac_sha256_def mbind_def on_provider_def mreturn_def)
  then show "\<exists>s'. hmac_sha256 ssl key data s = (Inr (hmac_of alg key data), s')" using hmac_sha256_value [OF prov] by blast
qed

subsection \<open>Printed values\<close>

definition prints :: "('o console, exn, int) action \<Rightarrow> bytes \<Rightarrow> 'o console \<Rightarrow> bool" where
  "prints m out s \<longleftrightarrow> (\<exists>s'. m s = (Inr 0, s') \<and> written (cout s') = written (cout s) @ out @ [byte_of_char nl])"

lemma print_line_prints:
  assumes "ostream_reliable (cout s)"
  shows "\<exists>s'. print_line t s = (Inr (), s') \<and> written (cout s') = written (cout s) @ bytes_from_text t @ [byte_of_char nl]"
  using assms by (simp add: print_line_def print_def mbind_def mmodify_def ostream_write_def ostream_reliable_def bytes_from_text_def)

lemma print_hex_prints:
  assumes "ostream_reliable (cout s)" and "length data \<le> string_max_size div 2"
  shows "prints (print_hex data) (bytes_from_text (hex_encode_loop data)) s"
  using print_line_prints [OF assms(1), of "hex_encode_loop data"] assms(2)
  by (auto simp: prints_def print_hex_def hex_encode_def mbind_def mlift_def mreturn_def)

lemma prints_after:
  assumes "m s = (Inr x, s1)" and "cout s1 = cout s" and "prints (f x) out s1"
  shows "prints (mbind m f) out s"
  using assms by (auto simp: prints_def mbind_def)

lemma lift_then_prints: "r = Inr x \<Longrightarrow> prints (f x) out s \<Longrightarrow> prints (mbind (mlift r) f) out s"
  by (rule prints_after) (simp_all add: mlift_def)

lemma prints_run: "prints (run_command ssl v argv) out s \<Longrightarrow> prints (run ssl v argv) out s"
  by (auto simp: prints_def run_def)

lemma small_digest: "32 \<le> string_max_size div 2"
  by (simp add: string_max_size_def)

lemma print_sha256:
  assumes "digest_provider ssl alg" and "digest_healthy ssl" and "ostream_reliable (cout s)"
  shows "prints (mbind (con_rt (api_sha256 ssl data)) print_hex) (bytes_from_text (hex_encode_loop (sha256_of alg data))) s"
proof -
  obtain c where "sha256 ssl data (rt (sys s)) = (Inr (sha256_of alg data), c)" using digests_return(1) [OF assms(1,2)] by blast
  then have "con_rt (api_sha256 ssl data) s = (Inr (sha256_of alg data), s\<lparr>sys := (sys s)\<lparr>rt := c\<rparr>\<rparr>)"
    by (simp add: con_rt_step api_sha256_def)
  then show ?thesis
    by (rule prints_after) (use assms(3) small_digest in \<open>auto intro!: print_hex_prints simp: digest_length [OF assms(1)]\<close>)
qed

lemma print_hmac:
  assumes "digest_provider ssl alg" and "digest_healthy ssl" and "ostream_reliable (cout s)"
  shows "prints (mbind (con_rt (api_hmac_sha256 ssl key data)) print_hex) (bytes_from_text (hex_encode_loop (hmac_of alg key data))) s"
proof -
  obtain c where "hmac_sha256 ssl key data (rt (sys s)) = (Inr (hmac_of alg key data), c)"
    using digests_return(2) [OF assms(1,2)] by blast
  then have "con_rt (api_hmac_sha256 ssl key data) s = (Inr (hmac_of alg key data), s\<lparr>sys := (sys s)\<lparr>rt := c\<rparr>\<rparr>)"
    by (simp add: con_rt_step api_hmac_sha256_def)
  then show ?thesis
    by (rule prints_after) (use assms(3) small_digest in \<open>auto intro!: print_hex_prints simp: digest_length [OF assms(1)]\<close>)
qed

lemma read_then_prints:
  assumes "no_faults (disk (sys s))" and "fs_ok (disk (sys s))" and "names (disk (sys s)) p = Some j"
    and "\<And>s1. cout s1 = cout s \<Longrightarrow> prints (f (contents (disk (sys s)) j)) out s1"
  shows "prints (mbind (con_disk (read_file p)) f) out s"
proof -
  obtain d where "read_file p (disk (sys s)) = (Inr (contents (disk (sys s)) j), d)" using read_file_returns [OF assms(1-3)] by blast
  then have "con_disk (read_file p) s = (Inr (contents (disk (sys s)) j), s\<lparr>sys := (sys s)\<lparr>disk := d\<rparr>\<rparr>)" by (rule con_disk_step)
  then show ?thesis by (rule prints_after) (simp_all add: assms(4))
qed

text \<open>
  C22: The digest commands print the digests of OpenSSL. With a working provider and file system, \<open>sha256\<close> and \<open>hmac-sha256\<close>
  exit with 0 and print the hexadecimal digest of the text, or of the bytes of the file, and a newline; so a text and a
  file that holds it have the same output.
\<close>

theorem cli_digests:
  assumes "digest_provider ssl alg" and "digest_healthy ssl" and "hex_decode k = Inr key" and "ostream_reliable (cout s)"
    and "no_faults (disk (sys s))" and "fs_ok (disk (sys s))" and "names (disk (sys s)) p = Some j"
  shows "prints (run ssl v [prog, ''sha256'', ''--text'', t]) (bytes_from_text (hex_encode_loop (sha256_of alg (bytes_from_text t)))) s \<and>
    prints (run ssl v [prog, ''sha256'', ''--file'', p]) (bytes_from_text (hex_encode_loop (sha256_of alg (contents (disk (sys s)) j)))) s \<and>
    prints (run ssl v [prog, ''hmac-sha256'', ''--key-hex'', k, ''--text'', t])
      (bytes_from_text (hex_encode_loop (hmac_of alg key (bytes_from_text t)))) s \<and>
    prints (run ssl v [prog, ''hmac-sha256'', ''--key-hex'', k, ''--file'', p])
      (bytes_from_text (hex_encode_loop (hmac_of alg key (contents (disk (sys s)) j)))) s"
proof (intro conjI prints_run)
  note digests = print_sha256 [OF assms(1,2)] print_hmac [OF assms(1,2)]
  show "prints (run_command ssl v [prog, ''sha256'', ''--text'', t])
      (bytes_from_text (hex_encode_loop (sha256_of alg (bytes_from_text t)))) s"
    using digests(1) [OF assms(4)] by (simp add: run_command_def is_arg_def)
  show "prints (run_command ssl v [prog, ''sha256'', ''--file'', p])
      (bytes_from_text (hex_encode_loop (sha256_of alg (contents (disk (sys s)) j)))) s"
    using read_then_prints [OF assms(5-7) digests(1)] assms(4) by (simp add: run_command_def is_arg_def)
  show "prints (run_command ssl v [prog, ''hmac-sha256'', ''--key-hex'', k, ''--text'', t])
      (bytes_from_text (hex_encode_loop (hmac_of alg key (bytes_from_text t)))) s"
    by (simp add: run_command_def is_arg_def lift_then_prints [OF assms(3)] digests(2) assms(4))
  show "prints (run_command ssl v [prog, ''hmac-sha256'', ''--key-hex'', k, ''--file'', p])
      (bytes_from_text (hex_encode_loop (hmac_of alg key (contents (disk (sys s)) j)))) s"
    by (simp add: run_command_def is_arg_def lift_then_prints [OF assms(3)] read_then_prints [OF assms(5-7)] digests(2) assms(4))
qed

definition toy_digest :: digest_alg where
  "toy_digest = \<lparr>sha256_of = (\<lambda>data. replicate 32 (foldr (+) data 7)),
     hmac_of = (\<lambda>key data. replicate 32 (foldr (+) (key @ data) 5))\<rparr>"

lemma toy_digest_laws: "digest_provider toy_ssl toy_digest" "digest_healthy toy_ssl"
  by (auto simp: digest_provider_def digest_healthy_def toy_ssl_def toy_digest_def view_fresh_def split: if_splits)

lemma cli_digests_witness:
  "prints (run toy_ssl ''1'' [''p'', ''sha256'', ''--text'', ''a'']) (bytes_from_text (hex_encode_loop (replicate 32 104))) (toy_console [97] []) \<and>
   prints (run toy_ssl ''1'' [''p'', ''sha256'', ''--file'', ''in'']) (bytes_from_text (hex_encode_loop (replicate 32 104))) (toy_console [97] []) \<and>
   prints (run toy_ssl ''1'' [''p'', ''hmac-sha256'', ''--key-hex'', ''01'', ''--file'', ''in''])
     (bytes_from_text (hex_encode_loop (replicate 32 103))) (toy_console [97] [])"
proof -
  have "hex_decode ''01'' = Inr [1]" by code_simp
  moreover have "no_faults (disk (toy_system [97]))" by (simp add: toy_system_def no_faults_def)
  moreover have "bytes_from_text ''a'' = [97]" by (simp add: bytes_from_text_def byte_of_char_def)
  ultimately show ?thesis
    using cli_digests [OF toy_digest_laws, of "''01''" "[1]" "toy_console [97] []" "''in''" 0 "''1''" "''p''" "''a''"] toy_file [of "[97]"]
    by (simp add: toy_digest_def)
qed

subsection \<open>Encodings of texts\<close>

lemma print_bytes_prints: "ostream_reliable (cout s) \<Longrightarrow> prints (success (write_bytes data)) data s"
  using write_bytes_reliable [of s data] by (auto simp: prints_def success_def mbind_def mreturn_def)

lemma print_text_prints: "ostream_reliable (cout s) \<Longrightarrow> prints (success (print_line t)) (bytes_from_text t) s"
  using print_line_prints [of s t] by (auto simp: prints_def success_def mbind_def mreturn_def)

lemma base64url_encode_returns:
  assumes "length data \<le> string_max_size div 2"
  shows "\<exists>b. base64url_encode data = Inr b"
proof -
  have "length data div 3 + 1 \<le> string_max_size div 4"
    using div_le_mono [OF assms, of 3] by (simp add: string_max_size_def)
  then show ?thesis by (simp add: base64url_encode_def base64_encode_def Let_def)
qed

text \<open>
  The encoding commands of the tool are undone by the decoding ones. \<open>hex-encode\<close> and \<open>base64url-encode\<close> print a line
  for every text up to half the size of a string; on that line \<open>hex-decode\<close> and \<open>base64url-decode\<close> print the text, in
  any later state of the console in which standard output works.
\<close>

theorem cli_encodings:
  assumes "length t \<le> string_max_size div 2" and "ostream_reliable (cout s)" and "ostream_reliable (cout s')"
  shows "\<exists>h b. prints (run ssl v [prog, ''hex-encode'', ''--text'', t]) (bytes_from_text h) s \<and>
    prints (run ssl v [prog, ''hex-decode'', ''--text'', h]) (bytes_from_text t) s' \<and>
    prints (run ssl v [prog, ''base64url-encode'', ''--text'', t]) (bytes_from_text b) s \<and>
    prints (run ssl v [prog, ''base64url-decode'', ''--text'', b]) (bytes_from_text t) s'"
proof -
  let ?h = "hex_encode_loop (bytes_from_text t)"
  have len: "length (bytes_from_text t) \<le> string_max_size div 2" using assms(1) by (simp add: bytes_from_text_def)
  then obtain b where b: "base64url_encode (bytes_from_text t) = Inr b" using base64url_encode_returns by blast
  have "hex_decode ?h = Inr (bytes_from_text t)" using hexc.decode_encode [OF TrueI] len by (simp add: hex_encode_def)
  note decoded = lift_then_prints [OF this print_bytes_prints] lift_then_prints [OF base64url_decode_encode [OF b] print_bytes_prints]
  show ?thesis
    using print_hex_prints [OF assms(2) len] decoded [OF assms(3)] lift_then_prints [OF b print_text_prints [OF assms(2)]]
    by (intro exI [of _ ?h] exI [of _ b] conjI prints_run) (simp_all add: run_command_def is_arg_def)
qed

lemma cli_encodings_witness:
  "\<exists>h b. prints (run toy_ssl ''1'' [''p'', ''hex-encode'', ''--text'', ''hi'']) (bytes_from_text h) (toy_console [] []) \<and>
    prints (run toy_ssl ''1'' [''p'', ''hex-decode'', ''--text'', h]) (bytes_from_text ''hi'') (toy_console [] []) \<and>
    prints (run toy_ssl ''1'' [''p'', ''base64url-encode'', ''--text'', ''hi'']) (bytes_from_text b) (toy_console [] []) \<and>
    prints (run toy_ssl ''1'' [''p'', ''base64url-decode'', ''--text'', b]) (bytes_from_text ''hi'') (toy_console [] [])"
  by (rule cli_encodings) (simp_all add: string_max_size_def)

end
