(* ===== verification/Programs.thy ===== *)
theory Programs
  imports Digests
begin

section \<open>Programs\<close>

text \<open>
  The programs that are built from the library: the entry point of the tool (\<open>src/cli/main.cpp\<close>) with the version of the
  build (\<open>src/version.cpp\<close>), and the example \<open>examples/basic/main.cpp\<close>.
\<close>

subsection \<open>The version of the build\<close>

text \<open>The macros that CMake defines when it compiles \<open>version.cpp\<close>.\<close>

record build_version =
  ANOSECUREKIT_VERSION :: string
  ANOSECUREKIT_VERSION_MAJOR :: int
  ANOSECUREKIT_VERSION_MINOR :: int
  ANOSECUREKIT_VERSION_PATCH :: int

definition version :: "build_version \<Rightarrow> string" where
  "version b = ANOSECUREKIT_VERSION b"

definition version_major :: "build_version \<Rightarrow> int" where
  "version_major b = ANOSECUREKIT_VERSION_MAJOR b"

definition version_minor :: "build_version \<Rightarrow> int" where
  "version_minor b = ANOSECUREKIT_VERSION_MINOR b"

definition version_patch :: "build_version \<Rightarrow> int" where
  "version_patch b = ANOSECUREKIT_VERSION_PATCH b"

subsection \<open>The tool\<close>

definition tool_main :: "('o, 'c) openssl \<Rightarrow> build_version \<Rightarrow> string list \<Rightarrow> ('o console, exn, int) action" where
  "tool_main ssl b argv = run ssl (version b) argv"

subsection \<open>The example\<close>

definition example_bytes_from_text :: "string \<Rightarrow> bytes" where
  "example_bytes_from_text text = fold (\<lambda>ch out. out @ [byte_of_char ch]) text []"

text \<open>
  An exception that leaves \<open>main\<close> is the value \<open>Inl\<close>: the program is terminated. The operands of \<open>\<lless>\<close> are evaluated from
  left to right, so the label is written before the digest is computed.
\<close>

definition example_main :: "('o, 'c) openssl \<Rightarrow> ('o console, exn, int) action" where
  "example_main ssl =
     (let message = example_bytes_from_text ''hello anosecurekit'';
          aad = example_bytes_from_text ''example:v1''
      in mbind (con_rt (api_generate_key ssl)) (\<lambda>key.
         mbind (con_rt (encrypt ssl message key aad)) (\<lambda>packet.
         mbind (con_rt (decrypt ssl packet key aad)) (\<lambda>opened.
         if opened \<noteq> message then mreturn 1
         else mbind (print ''sha256='') (\<lambda>_.
              mbind (con_rt (api_sha256 ssl message)) (\<lambda>digest.
              mbind (mlift (hex_encode digest)) (\<lambda>text.
              mbind (print text) (\<lambda>_.
              mbind (print [nl]) (\<lambda>_. mreturn 0)))))))))"

lemma example_bytes_from_text: "example_bytes_from_text t = bytes_from_text t"
proof -
  have "fold (\<lambda>ch out. out @ [byte_of_char ch]) t acc = acc @ map byte_of_char t" for acc
    by (induction t arbitrary: acc) simp_all
  then show ?thesis by (simp add: example_bytes_from_text_def bytes_from_text_def)
qed

lemma con_rt_Inr_iff:
  "con_rt m s = (Inr x, s') \<longleftrightarrow> (\<exists>c. m (rt (sys s)) = (Inr x, c) \<and> s' = s\<lparr>sys := (sys s)\<lparr>rt := c\<rparr>\<rparr>)"
  by (auto simp: con_rt_def mzoom_def split: prod.splits)

text \<open>
  C29: The example does what it shows. Whenever it returns, it returns 0: what it opened is what it encrypted, and it has
  printed the label and the SHA-256 of its message. With a working provider it does return.
\<close>

theorem example_main_correct:
  assumes "gcm_provider ssl view alg" and "digest_provider ssl digests" and "ostream_reliable (cout s)"
  shows "(\<forall>code s'. example_main ssl s = (Inr code, s') \<longrightarrow> code = 0 \<and> written (cout s') = written (cout s) @
      bytes_from_text (''sha256='' @ hex_encode_loop (sha256_of digests (bytes_from_text ''hello anosecurekit'')) @ [nl])) \<and>
    (gcm_healthy ssl view alg \<longrightarrow> digest_healthy ssl \<longrightarrow> (\<forall>n o1. fst (fst (RAND_priv_bytes ssl n o1)) = 1) \<longrightarrow>
      (\<exists>s'. example_main ssl s = (Inr 0, s')))"
proof -
  let ?m = "bytes_from_text ''hello anosecurekit''" and ?a = "bytes_from_text ''example:v1''"
  let ?d = "sha256_of digests ?m"
  have hex: "hex_encode ?d = Inr (hex_encode_loop ?d)"
    using digest_length(1) [OF assms(2)] small_digest by (simp add: hex_encode_def)
  have small: "length ?m + 33 \<le> int_max" "length ?a \<le> int_max" by (simp_all add: bytes_from_text_def int_max_def)
  have returned: "code = 0 \<and> written (cout s') = written (cout s) @ bytes_from_text (''sha256='' @ hex_encode_loop ?d @ [nl])"
    if run: "example_main ssl s = (Inr code, s')" for code s'
  proof -
    from run obtain key c1 packet c2 opened c3 where
      k: "api_generate_key ssl (rt (sys s)) = (Inr key, c1)" and
      e: "encrypt ssl ?m key ?a c1 = (Inr packet, c2)" and
      d: "decrypt ssl packet key ?a c2 = (Inr opened, c3)" and
      rest: "(if opened \<noteq> ?m then mreturn 1
        else mbind (print ''sha256='') (\<lambda>_. mbind (con_rt (api_sha256 ssl ?m)) (\<lambda>digest.
          mbind (mlift (hex_encode digest)) (\<lambda>text. mbind (print text) (\<lambda>_. mbind (print [nl]) (\<lambda>_. mreturn 0))))))
        (s\<lparr>sys := (sys s)\<lparr>rt := c3\<rparr>\<rparr>) = (Inr code, s')"
      unfolding example_main_def Let_def example_bytes_from_text mbind_Inr_iff con_rt_Inr_iff by auto
    have "length key = 32" using generate_key_length [OF k] .
    from encrypt_spec [OF assms(1) this e] decrypt_spec(1) [OF assms(1) this d] have "opened = ?m"
      using skt1_packet_injective [OF assms(1)] by metis
    with rest show ?thesis
      using assms(3) hex sha256_value [OF assms(2)]
      by (auto simp: mbind_Inr_iff con_rt_Inr_iff api_sha256_def mlift_def print_def mmodify_def mreturn_def ostream_write_def
          ostream_reliable_def bytes_from_text_def)
  qed
  moreover have "\<exists>s'. example_main ssl s = (Inr 0, s')"
    if h: "gcm_healthy ssl view alg" "digest_healthy ssl" "\<forall>n o1. fst (fst (RAND_priv_bytes ssl n o1)) = 1"
  proof -
    obtain key c1 where k: "api_generate_key ssl (rt (sys s)) = (Inr key, c1)" using generate_key_returns [OF h(3)] by blast
    obtain packet c2 where e: "encrypt ssl ?m key ?a c1 = (Inr packet, c2)"
      and "\<forall>t. \<exists>t'. decrypt ssl packet key ?a t = (Inr ?m, t')"
      using encrypt_then_decrypt [OF assms(1) h(1) generate_key_length [OF k] small] by blast
    then obtain c3 where d: "decrypt ssl packet key ?a c2 = (Inr ?m, c3)" by blast
    obtain c4 where digest: "sha256 ssl ?m c3 = (Inr ?d, c4)" using digests_return(1) [OF assms(2) h(2)] by blast
    show ?thesis
      unfolding example_main_def Let_def example_bytes_from_text
      by (simp add: mbind_def con_rt_def mzoom_def k e d print_def mmodify_def api_sha256_def digest mlift_def hex mreturn_def)
  qed
  ultimately show ?thesis by blast
qed

lemma example_main_correct_witness:
  "\<exists>s'. example_main toy_ssl (toy_console [] []) = (Inr 0, s') \<and> length (written (cout s')) = 72"
proof -
  have random: "fst (fst (RAND_priv_bytes toy_ssl n o1)) = 1" for n o1
    by (simp add: toy_ssl_def toy_random_def Let_def)
  have "length (sha256_of toy_digest data) = 32" for data by (simp add: toy_digest_def)
  with example_main_correct [OF toy_provider toy_digest_laws(1), of "toy_console [] []"] toy_healthy toy_digest_laws(2) random
  show ?thesis by (force simp: bytes_from_text_def)
qed

text \<open>
  The tool reports the version it was built with: \<open>version\<close> and \<open>--version\<close> exit with 0 and print the name of the program
  and the version text of the build.
\<close>

theorem tool_reports_version:
  assumes "ostream_reliable (cout s)" and "c = ''version'' \<or> c = ''--version''"
  shows "prints (tool_main ssl b [prog, c]) (bytes_from_text (''anosecurekit '' @ version b)) s"
  using assms
  by (auto simp: prints_def tool_main_def run_def run_command_def success_def print_version_def print_def mbind_def mmodify_def
      mreturn_def ostream_write_def ostream_reliable_def bytes_from_text_def)

end
