(* ===== verification/Spec2Isabelle.thy ===== *)
theory Spec2Isabelle
  imports Compare Programs
begin

text \<open>
  AnoSecureKit Community: a verification library.

  The program is a C++ library for authenticated encryption on top of OpenSSL and a command line tool on top of the
  library. Its layers, from the bottom, and the theories that model them:

  \<^item> Values and errors. \<open>Prelude\<close> has the monad of actions \<open>'s \<Rightarrow> (exn + 'a) \<times> 's\<close> in which all stateful code is written,
    with its inversion rules; \<open>Errors\<close> the exceptions of \<open>error.hpp\<close>, where \<open>Undefined_behaviour\<close> stands for
    executions to which C++ gives no meaning; \<open>Codec\<close> the interface of an encoder and a decoder of exact formats.
    Bytes are words of 8 bits, sizes on disk and counters words of 32 bits, lengths of containers natural numbers.
  \<^item> Text encodings and small functions: \<open>Hex\<close> (\<open>hex.cpp\<close>), \<open>Base64\<close> (\<open>base64.cpp\<close>), \<open>Compare\<close> (\<open>compare.cpp\<close>), \<open>Secure_Wipe\<close>
    (\<open>internal/secure_wipe\<close>). A buffer that is released is recorded in the runtime (\<open>retired\<close>), so that what a
    function leaves in memory can be stated.
  \<^item> The OpenSSL backend: \<open>Openssl\<close> is the record of the OpenSSL functions that the code calls, with their return values
    and output buffers, on an abstract state and abstract cipher contexts; \<open>Backend\<close> is
    \<open>backend/crypto_backend_openssl.cpp\<close> over it. \<open>Provider\<close> states what OpenSSL documents as hypotheses
    (\<open>gcm_provider\<close>, \<open>kdf_provider\<close> for values, \<open>gcm_healthy\<close>, \<open>kdf_healthy\<close> for calls that do not fail) with a concrete
    provider that satisfies them; \<open>Backend_Correct\<close> is what the backend then computes.
  \<^item> Packets: \<open>Aead_Internal\<close> (\<open>aead_internal.hpp\<close>), \<open>Packet_Stream\<close> (\<open>packet_stream.cpp\<close>, with construction, destruction
    and moves of the two classes), \<open>Packet_Spec\<close> (that any split of the data computes the packet of the whole),
    \<open>Aead\<close> (\<open>aead.cpp\<close>, \<open>key_wrap.cpp\<close>), \<open>Random_Hash\<close> (\<open>random.cpp\<close>, \<open>hash.cpp\<close>).
  \<^item> Sealed files: \<open>File_Format\<close> (\<open>file_crypto.cpp\<close>, \<open>file_detail.hpp\<close>), \<open>Key_Derivation\<close> (the keys of files), \<open>Streams\<close> (standard
    streams and the readers and writers of \<open>file_io.cpp\<close>), \<open>File_Payload\<close> (the two template loops of \<open>file.cpp\<close> for any
    output), \<open>Payload_Returns\<close>, \<open>File_Streams\<close> (the overloads on streams), \<open>Sink_Invariant\<close>, \<open>Stream_Correct\<close>.
  \<^item> Files: \<open>File_System\<close> is a file system in which every call can fail, a write can be short and other processes create
    files between any two calls, with the functions of \<open>file_io.cpp\<close> on it. Its \<open>platform\<close> selects the branches that the
    preprocessor selects in the code: Unix, Windows or elsewhere. \<open>File_Ops\<close> has the overloads on paths,
    handlers and destructors included; \<open>File_Correct\<close> and \<open>File_Properties\<close> their outcomes.
  \<^item> The tool (\<open>cli/commands.cpp\<close>): \<open>Cli_Text\<close> (usage texts, sizes, keys, white space), \<open>Cli_Io\<close> (reading, standard streams, exclusive
    output files), \<open>Cli_Options\<close> (the six option parsers), \<open>Cli_Run\<close> (every command and \<open>run\<close>); then \<open>Cli_Output\<close> and
    \<open>Cli_Steps\<close> for the outcomes of outputs and what every command preserves, \<open>Cli_Parse\<close> (accepted arguments),
    \<open>Cli_Properties\<close>, \<open>Cli_Roundtrips\<close>, \<open>Cli_Silence\<close>, and \<open>Digests\<close> for the commands that print a value.
    \<open>Definedness\<close> shows that no public operation reaches undefined behaviour.
  \<^item> Programs: \<open>Programs\<close> has \<open>cli/main.cpp\<close>, \<open>version.cpp\<close> with the constants of the build as a record, and the example
    \<open>examples/basic/main.cpp\<close>.

  Interfaces are locales, each interpreted on the model: \<open>codec\<close> on the formats; \<open>output_sink\<close> and \<open>reliable_sink\<close> on
  standard streams, buffered output files, the tool's exclusive files and its discarding buffer; \<open>sink_invariant\<close> on
  the same; \<open>file_kind\<close> on files under a key and files under a password; \<open>sealing\<close> and \<open>reliable_sealing\<close> on their
  combinations, so that the loops are verified once; \<open>state_relation\<close> on what reading and what a command may change;
  \<open>option_parser\<close> on the six parsers.

  What is shown. The text formats and headers are canonical encodings. A packet decrypts only if it is byte for byte the
  encryption of the plaintext returned, \<open>encrypt\<close> and \<open>decrypt\<close> are inverse, streams of packets compute
  the same packets and follow their protocol under every sequence of calls. Opening accepts exactly the sealed files,
  writes only authenticated plaintext, in order, and sealed files open to what was sealed. An operation on paths never
  changes an existing file; its output appears complete or not at all, also when any system call fails and
  others use the directory; this holds on Unix and Windows (\<open>fs_ok\<close>), while on any other platform the code checks and then
  renames, and a file created in between is lost. The tool always ends with exit code 0 or 1 and one message in the second case, never
  reaches undefined behaviour, never changes a file, prints nothing when it fails unless standard output is the
  output of a file command, accepts exactly the documented shape of arguments, its commands undo each other, and its digests are those
  of OpenSSL.

  Bounds and termination. Every definition is total; loops are structural or have a measure (the bytes that remain in the input,
  the bytes left to write). No fuel is used: the attempts for a temporary name are the 32 of the code, and the
  chunk index is a word of 32 bits, so files have at most \<open>2^32\<close> chunks, as the code demands.

  Not modelled. Tests and benchmarks. The text mode of standard output on Windows: what a stream has \<open>written\<close> is what the
  program passes to it, and the switch to binary mode is a call that can fail. That a compiler keeps the volatile writes of
  \<open>secure_wipe\<close>, and timing. Exhaustion of memory. Secrecy of the ciphers themselves: OpenSSL is a parameter, and
  authenticity is stated as agreement with what the provider accepts. Standard output of the tool is a stream with a
  capacity; a flush can fail by the environment's choice (\<open>stdout_flushes\<close>).
\<close>

end
